(* ===== verification/Prelude.thy ===== *)
theory Prelude
  imports Main
begin

section \<open>Shared vocabulary of the development\<close>

text \<open>
  Errors as values, the generic contract of a transactional operation, and the
  lemmas about lists, options and tables every component uses.

  A Python function that raises returns an \<open>error + 'a\<close>: \<open>Inl\<close> is the
  exception, \<open>Inr\<close> the returned value.  A repository method of the code runs in
  \<open>with self.connect() as connection\<close> (\<open>api/database.py\<close>), which commits on
  return and rolls back on an exception, so a method is a function of the
  tables returning \<open>error + tables \<times> 'a\<close>: on \<open>Inl\<close> the caller keeps
  the old tables.
\<close>

datatype error =
    ValueError string
  | KeyError string
  | UniqueViolation
  | CheckViolation
  | RuntimeError string
  | TypeError string
  | LookupError string

type_synonym uuid = string

named_theorems table_simps \<open>lookups and updates of tables\<close>
named_theorems date_simps \<open>evaluation of calendar functions\<close>

subsection \<open>Python strings\<close>

text \<open>
  \<open>str.strip()\<close> with no argument removes white space at both ends; the
  characters of a \<open>string\<close> are code points below 256, of which Python counts
  nine as white space.
\<close>

definition is_space :: "char \<Rightarrow> bool" where
  "is_space c \<longleftrightarrow>
     (let n = (of_char c :: nat)
      in (9 \<le> n \<and> n \<le> 13) \<or> (28 \<le> n \<and> n \<le> 32) \<or> n = 133 \<or> n = 160)"

definition lstrip :: "string \<Rightarrow> string" where
  "lstrip s = dropWhile is_space s"

definition strip :: "string \<Rightarrow> string" where
  "strip s = rev (lstrip (rev (lstrip s)))"

lemma length_lstrip_le: "length (lstrip s) \<le> length s"
  by (simp add: lstrip_def length_dropWhile_le)

lemma length_strip_le: "length (strip s) \<le> length s"
  using length_lstrip_le [of s] length_lstrip_le [of "rev (lstrip s)"]
  by (simp add: strip_def)

lemma set_strip_subset: "set (strip s) \<subseteq> set s"
  by (auto simp: strip_def lstrip_def dest!: set_dropWhileD)

lemma strip_Nil [simp]: "strip [] = []"
  by (simp add: strip_def lstrip_def)

lemma strip_hd_not_space: "strip s \<noteq> [] \<Longrightarrow> \<not> is_space (last (strip s))"
  unfolding strip_def lstrip_def by (simp add: last_rev hd_dropWhile)

text \<open>
  \<open>str.lower()\<close>, \<open>str.upper()\<close>, \<open>str.isalpha()\<close> and \<open>str.isdigit()\<close> on code points
  below 256.  Two letters have an upper case above 255 (the micro sign and y with diaeresis);
  they stay as they are.
\<close>

definition code :: "char \<Rightarrow> nat" where "code c = of_char c"

definition lower_char :: "char \<Rightarrow> char" where
  "lower_char c = (let n = code c in
     if (65 \<le> n \<and> n \<le> 90) \<or> (192 \<le> n \<and> n \<le> 222 \<and> n \<noteq> 215) then char_of (n + 32) else c)"

definition str_lower :: "string \<Rightarrow> string" where "str_lower s = map lower_char s"

definition upper_char :: "char \<Rightarrow> string" where
  "upper_char c = (let n = code c in
     if n = 223 then ''SS''
     else if (97 \<le> n \<and> n \<le> 122) \<or> (224 \<le> n \<and> n \<le> 254 \<and> n \<noteq> 247) then [char_of (n - 32)] else [c])"

definition str_upper :: "string \<Rightarrow> string" where "str_upper s = concat (map upper_char s)"

definition is_alpha :: "char \<Rightarrow> bool" where
  "is_alpha c \<longleftrightarrow> (let n = code c in (65 \<le> n \<and> n \<le> 90) \<or> (97 \<le> n \<and> n \<le> 122) \<or> n = 170 \<or> n = 181 \<or> n = 186
     \<or> (192 \<le> n \<and> n \<noteq> 215 \<and> n \<noteq> 247))"

definition isalpha :: "string \<Rightarrow> bool" where "isalpha s \<longleftrightarrow> s \<noteq> [] \<and> list_all is_alpha s"

definition is_digit :: "char \<Rightarrow> bool" where
  "is_digit c \<longleftrightarrow> (let n = code c in (48 \<le> n \<and> n \<le> 57) \<or> n = 178 \<or> n = 179 \<or> n = 185)"

definition isdigit :: "string \<Rightarrow> bool" where "isdigit s \<longleftrightarrow> s \<noteq> [] \<and> list_all is_digit s"

text \<open>\<open>int(s)\<close> for a string of digits; the superscript digits are no number.\<close>

definition int_of_digits :: "string \<Rightarrow> int option" where
  "int_of_digits s =
     (if list_all (\<lambda>c. 48 \<le> code c \<and> code c \<le> 57) s
      then Some (foldl (\<lambda>acc c. acc * 10 + int (code c - 48)) 0 s) else None)"

text \<open>The decimal digits of \<open>str(n)\<close>.\<close>

fun digits :: "nat \<Rightarrow> string" where
  "digits n = (if n < 10 then [char_of (48 + n)] else digits (n div 10) @ [char_of (48 + n mod 10)])"

declare digits.simps [simp del]

text \<open>\<open>s.split()\<close> and \<open>" ".join(xs)\<close>; \<open>s.replace(c, "")\<close> for one character.\<close>

fun split_words :: "string \<Rightarrow> string \<Rightarrow> string list" where
  "split_words w [] = (if w = [] then [] else [rev w])"
| "split_words w (c # cs) =
     (if is_space c then (if w = [] then split_words [] cs else rev w # split_words [] cs)
      else split_words (c # w) cs)"

fun join_words :: "string list \<Rightarrow> string" where
  "join_words [] = []"
| "join_words [w] = w"
| "join_words (w # ws) = w @ CHR '' '' # join_words ws"

definition collapse_spaces :: "string \<Rightarrow> string" where
  "collapse_spaces s = join_words (split_words [] s)"

definition remove_char :: "char \<Rightarrow> string \<Rightarrow> string" where
  "remove_char c s = filter (\<lambda>x. x \<noteq> c) s"

text \<open>\<open>s.split(c)\<close>.\<close>

fun split_on :: "char \<Rightarrow> string \<Rightarrow> string list" where
  "split_on d [] = [[]]"
| "split_on d (c # cs) =
     (if c = d then [] # split_on d cs
      else (case split_on d cs of [] \<Rightarrow> [[c]] | w # ws \<Rightarrow> (c # w) # ws))"

text \<open>Truth of an optional string (\<open>None\<close> and the empty string are false), and \<open>a or b\<close>.\<close>

definition truthy :: "string option \<Rightarrow> bool" where
  "truthy s \<longleftrightarrow> (case s of None \<Rightarrow> False | Some t \<Rightarrow> t \<noteq> [])"

definition py_or :: "string option \<Rightarrow> string option \<Rightarrow> string option" where
  "py_or a b = (if truthy a then a else b)"

lemma truthy_iff: "truthy s \<longleftrightarrow> (\<exists>t. s = Some t \<and> t \<noteq> [])"
  by (auto simp: truthy_def split: option.splits)

subsection \<open>Rows of a table\<close>

text \<open>
  A table is the list of its rows.  \<open>UPDATE t SET ... WHERE p\<close> maps the rows
  that satisfy \<open>p\<close>, \<open>DELETE\<close> filters, \<open>SELECT ... fetchone()\<close> is \<open>find\<close>.
  The \<open>rowcount\<close> of a statement is the number of rows that satisfy \<open>p\<close>.
\<close>

definition update_where :: "('r \<Rightarrow> bool) \<Rightarrow> ('r \<Rightarrow> 'r) \<Rightarrow> 'r list \<Rightarrow> 'r list" where
  "update_where p f rows = map (\<lambda>r. if p r then f r else r) rows"

definition delete_where :: "('r \<Rightarrow> bool) \<Rightarrow> 'r list \<Rightarrow> 'r list" where
  "delete_where p rows = filter (\<lambda>r. \<not> p r) rows"

definition rowcount :: "('r \<Rightarrow> bool) \<Rightarrow> 'r list \<Rightarrow> nat" where
  "rowcount p rows = length (filter p rows)"

definition exists_row :: "('r \<Rightarrow> bool) \<Rightarrow> 'r list \<Rightarrow> bool" where
  "exists_row p rows = list_ex p rows"

text \<open>\<open>ORDER BY k DESC LIMIT 1\<close>: a row with the greatest key, if there is a row.\<close>

fun max_row :: "('r \<Rightarrow> 'k::linorder) \<Rightarrow> 'r list \<Rightarrow> 'r option" where
  "max_row k [] = None"
| "max_row k (r # rs) =
     (case max_row k rs of None \<Rightarrow> Some r | Some m \<Rightarrow> Some (if k m \<le> k r then r else m))"

lemma update_where_simps [simp]:
  "update_where p f [] = []"
  "update_where p f (r # rows) = (if p r then f r else r) # update_where p f rows"
  by (simp_all add: update_where_def)

lemma update_where_append [simp]:
  "update_where p f (rows @ rows') = update_where p f rows @ update_where p f rows'"
  by (simp add: update_where_def)

lemma rowcount_simps [simp]:
  "rowcount p [] = 0"
  "rowcount p (r # rows) = (if p r then Suc (rowcount p rows) else rowcount p rows)"
  by (simp_all add: rowcount_def)

lemma rowcount_append [simp]: "rowcount p (rows @ rows') = rowcount p rows + rowcount p rows'"
  by (simp add: rowcount_def)

lemma exists_row_iff [table_simps]: "exists_row p rows \<longleftrightarrow> (\<exists>r \<in> set rows. p r)"
  by (simp add: exists_row_def list_ex_iff)

lemma set_update_where [table_simps]:
  "set (update_where p f rows) = (\<lambda>r. if p r then f r else r) ` set rows"
  by (simp add: update_where_def)

lemma in_update_where:
  "r \<in> set (update_where p f rows) \<longleftrightarrow>
     (\<exists>q \<in> set rows. (p q \<and> r = f q) \<or> (\<not> p q \<and> r = q))"
  by (auto simp: update_where_def)

lemma set_delete_where [table_simps]: "set (delete_where p rows) = {r \<in> set rows. \<not> p r}"
  by (auto simp: delete_where_def)

lemma length_update_where [simp]: "length (update_where p f rows) = length rows"
  by (simp add: update_where_def)

lemma length_delete_where: "length (delete_where p rows) + rowcount p rows = length rows"
  by (induction rows) (auto simp: delete_where_def rowcount_def)

lemma update_where_none:
  "(\<And>r. r \<in> set rows \<Longrightarrow> \<not> p r) \<Longrightarrow> update_where p f rows = rows"
  by (auto simp: update_where_def intro: map_idI)

lemma map_update_where:
  "(\<And>r. r \<in> set rows \<Longrightarrow> p r \<Longrightarrow> k (f r) = k r) \<Longrightarrow>
     map k (update_where p f rows) = map k rows"
  by (auto simp: update_where_def)

lemma rowcount_0: "rowcount p rows = 0 \<longleftrightarrow> (\<forall>r \<in> set rows. \<not> p r)"
  by (auto simp: rowcount_def filter_empty_conv)

lemma rowcount_distinct_key:
  assumes "distinct (map k rows)"
  shows "rowcount (\<lambda>r. k r = x) rows \<le> 1"
  using assms
proof (induction rows)
  case Nil
  then show ?case by (simp add: rowcount_def)
next
  case (Cons r rows)
  then have "k r = x \<Longrightarrow> filter (\<lambda>r. k r = x) rows = []"
    by (auto simp: filter_empty_conv) (metis image_eqI)
  with Cons show ?case by (auto simp: rowcount_def)
qed

lemma find_in_set: "find p rows = Some r \<Longrightarrow> r \<in> set rows \<and> p r"
  by (induction rows) (auto split: if_splits)

lemma find_None_all: "find p rows = None \<longleftrightarrow> (\<forall>r \<in> set rows. \<not> p r)"
  by (induction rows) auto

lemma find_unique:
  assumes "distinct (map k rows)" and "r \<in> set rows"
  shows "find (\<lambda>q. k q = k r) rows = Some r"
  using assms by (induction rows) auto

lemma distinct_key_eq:
  "distinct (map k rows) \<Longrightarrow> r \<in> set rows \<Longrightarrow> q \<in> set rows \<Longrightarrow> k r = k q \<Longrightarrow> r = q"
  by (auto simp: distinct_map dest: inj_onD)

lemma max_row_None: "max_row k rows = None \<longleftrightarrow> rows = []"
  by (cases rows) (auto split: option.splits)

lemma max_row_in: "max_row k rows = Some r \<Longrightarrow> r \<in> set rows"
  by (induction rows arbitrary: r) (auto split: option.splits if_splits)

lemma max_row_max: "max_row k rows = Some m \<Longrightarrow> r \<in> set rows \<Longrightarrow> k r \<le> k m"
proof (induction rows arbitrary: m)
  case Nil
  then show ?case by simp
next
  case (Cons x rows)
  show ?case
  proof (cases "max_row k rows")
    case None
    with Cons.prems show ?thesis by (auto simp: max_row_None)
  next
    case (Some n)
    with Cons.prems Cons.IH [OF Some] show ?thesis
      by (auto split: if_splits intro: order_trans)
  qed
qed

lemma max_row_filter_in: "max_row k (filter p rows) = Some r \<Longrightarrow> r \<in> set rows \<and> p r"
  by (drule max_row_in) simp

lemma max_row_filter_None: "max_row k (filter p rows) = None \<longleftrightarrow> (\<forall>r \<in> set rows. \<not> p r)"
  by (auto simp: max_row_None filter_empty_conv)

lemma map_fst_Inr: "map_sum (\<lambda>e. e) fst r = Inr db' \<longleftrightarrow> (\<exists>x. r = Inr (db', x))"
  by (cases r) auto

subsection \<open>Transactional operations\<close>

text \<open>
  The contract several repositories share: operations on a state that either fail
  (and leave the state to the caller) or return a new state.  \<open>exec_all\<close> is what
  clients of the repository observe: a failed operation is rolled back.
\<close>

definition commit :: "'s \<Rightarrow> error + 's \<Rightarrow> 's" where
  "commit s r = (case r of Inl _ \<Rightarrow> s | Inr s' \<Rightarrow> s')"

fun exec_all :: "('op \<Rightarrow> 's \<Rightarrow> error + 's) \<Rightarrow> 'op list \<Rightarrow> 's \<Rightarrow> 's" where
  "exec_all step [] s = s"
| "exec_all step (c # cs) s = exec_all step cs (commit s (step c s))"

lemma commit_simps [simp]: "commit s (Inl e) = s" "commit s (Inr t) = t"
  by (simp_all add: commit_def)

locale transactional =
  fixes step :: "'op \<Rightarrow> 's \<Rightarrow> error + 's"
    and inv :: "'s \<Rightarrow> bool"
    and allowed :: "'op \<Rightarrow> bool"
  assumes step_inv: "inv s \<Longrightarrow> allowed c \<Longrightarrow> step c s = Inr t \<Longrightarrow> inv t"
begin

lemma commit_inv: "inv s \<Longrightarrow> allowed c \<Longrightarrow> inv (commit s (step c s))"
  by (cases "step c s") (auto intro: step_inv)

lemma exec_all_inv: "inv s \<Longrightarrow> list_all allowed cs \<Longrightarrow> inv (exec_all step cs s)"
  by (induction cs arbitrary: s) (auto intro: commit_inv)

end

text \<open>
  A transactional component whose successful operations also move each observed value
  along a relation (a status automaton, an order that only grows).
\<close>

locale transactional_order = transactional step inv allowed
  for step :: "'op \<Rightarrow> 's \<Rightarrow> error + 's" and inv allowed +
  fixes rel :: "'s \<Rightarrow> 's \<Rightarrow> bool"
  assumes rel_refl: "rel s s"
    and rel_trans: "rel s t \<Longrightarrow> rel t u \<Longrightarrow> rel s u"
    and step_rel: "inv s \<Longrightarrow> allowed c \<Longrightarrow> step c s = Inr t \<Longrightarrow> rel s t"
begin

lemma commit_rel: "inv s \<Longrightarrow> allowed c \<Longrightarrow> rel s (commit s (step c s))"
  by (cases "step c s") (auto intro: step_rel rel_refl)

lemma exec_all_rel: "inv s \<Longrightarrow> list_all allowed cs \<Longrightarrow> rel s (exec_all step cs s)"
proof (induction cs arbitrary: s)
  case Nil
  show ?case by (simp add: rel_refl)
next
  case (Cons c cs)
  from Cons.prems have "rel s (commit s (step c s))" and "inv (commit s (step c s))"
    by (auto intro: commit_rel commit_inv)
  with Cons show ?case by (auto intro: rel_trans)
qed

end

end
