(* ===== verification/Calendar.thy ===== *)
theory Calendar
  imports Prelude
begin

section \<open>Dates and times of the Python standard library\<close>

text \<open>
  What the code uses of Python's \<open>datetime\<close> and \<open>calendar\<close> modules.

  A \<open>date\<close> is its proleptic Gregorian ordinal (\<open>date.toordinal()\<close>): day 1 is
  0001-01-01, a Monday.  Differences, comparisons and \<open>timedelta(days=n)\<close> are then
  integer arithmetic.  \<open>ymd2ord\<close> and \<open>ord2ymd\<close> are the conversions of
  CPython's \<open>datetime\<close>.

  A \<open>timestamp\<close> is an aware datetime in UTC, in microseconds since the epoch
  (the resolution of \<open>datetime\<close> and of \<open>TIMESTAMPTZ\<close>).  A \<open>pydatetime\<close> is a
  value of \<open>datetime\<close> as the code receives it: naive, or aware with an offset.
\<close>

type_synonym date = int
type_synonym timestamp = int

subsection \<open>The Gregorian calendar\<close>

definition is_leap :: "int \<Rightarrow> bool" where
  "is_leap y \<longleftrightarrow> y mod 4 = 0 \<and> (y mod 100 \<noteq> 0 \<or> y mod 400 = 0)"

definition days_in_month :: "int \<Rightarrow> int \<Rightarrow> int" where
  "days_in_month y m =
     (if m = 2 then (if is_leap y then 29 else 28)
      else if m = 4 \<or> m = 6 \<or> m = 9 \<or> m = 11 then 30 else 31)"

definition days_before_year :: "int \<Rightarrow> int" where
  "days_before_year y =
     (let k = y - 1 in k * 365 + k div 4 - k div 100 + k div 400)"

definition month_offset :: "int \<Rightarrow> int" where
  "month_offset m =
     (if m = 1 then 0 else if m = 2 then 31 else if m = 3 then 59 else if m = 4 then 90
      else if m = 5 then 120 else if m = 6 then 151 else if m = 7 then 181
      else if m = 8 then 212 else if m = 9 then 243 else if m = 10 then 273
      else if m = 11 then 304 else if m = 12 then 334 else 365)"

definition days_before_month :: "int \<Rightarrow> int \<Rightarrow> int" where
  "days_before_month y m = month_offset m + (if 2 < m \<and> is_leap y then 1 else 0)"

definition ymd2ord :: "int \<Rightarrow> int \<Rightarrow> int \<Rightarrow> date" where
  "ymd2ord y m d = days_before_year y + days_before_month y m + d"

definition ord2ymd :: "date \<Rightarrow> int \<times> int \<times> int" where
  "ord2ymd o0 =
     (let n = o0 - 1;
          n400 = n div 146097; n = n mod 146097;
          n100 = n div 36524; n = n mod 36524;
          n4 = n div 1461; n = n mod 1461;
          n1 = n div 365; n = n mod 365;
          y = n400 * 400 + 1 + n100 * 100 + n4 * 4 + n1
      in if n1 = 4 \<or> n100 = 4 then (y - 1, 12, 31)
         else let m0 = (n + 50) div 32;
                  m = (if n < days_before_month y m0 then m0 - 1 else m0)
              in (y, m, n - days_before_month y m + 1))"

definition year_of :: "date \<Rightarrow> int" where "year_of d = fst (ord2ymd d)"
definition month_of :: "date \<Rightarrow> int" where "month_of d = fst (snd (ord2ymd d))"
definition day_of :: "date \<Rightarrow> int" where "day_of d = snd (snd (ord2ymd d))"

text \<open>\<open>date.weekday()\<close>: Monday is 0.\<close>

definition weekday :: "date \<Rightarrow> int" where "weekday d = (d + 6) mod 7"

definition valid_ymd :: "int \<Rightarrow> int \<Rightarrow> int \<Rightarrow> bool" where
  "valid_ymd y m d \<longleftrightarrow> 1 \<le> m \<and> m \<le> 12 \<and> 1 \<le> d \<and> d \<le> days_in_month y m"

lemmas calendar_defs = is_leap_def days_in_month_def days_before_year_def month_offset_def
  days_before_month_def ymd2ord_def ord2ymd_def weekday_def valid_ymd_def

lemma weekday_range: "0 \<le> weekday d \<and> weekday d < 7"
  by (simp add: weekday_def)

lemma weekday_add: "weekday (d + k) = (weekday d + k) mod 7"
  unfolding weekday_def by presburger

lemma weekday_add_7 [simp]: "weekday (d + 7) = weekday d" "weekday (d - 7) = weekday d"
  using mod_add_self2 [of "d + 6" 7] minus_mod_self2 [of "d + 6" 7]
  by (simp_all add: weekday_def algebra_simps)

lemma weekday_start_of_week [simp]: "weekday (d - weekday d) = 0"
proof -
  have "((d + 6) - (d + 6) mod 7) mod 7 = ((d + 6) - (d + 6)) mod 7"
    by (rule mod_diff_right_eq)
  then show ?thesis by (simp add: weekday_def algebra_simps)
qed

subsection \<open>The conversions are inverse\<close>

lemma div_add_1:
  fixes k n :: int
  assumes "0 < n"
  shows "(k + 1) div n = k div n + (if (k + 1) mod n = 0 then 1 else 0)"
proof -
  have k: "k = n * (k div n) + k mod n" by simp
  have b: "0 \<le> k mod n" "k mod n < n" using assms by simp_all
  show ?thesis
  proof (cases "k mod n = n - 1")
    case True
    then have "k + 1 = n * (k div n + 1) + 0" using k by (simp only: distrib_left)
    then have "(k + 1) div n = k div n + 1" "(k + 1) mod n = 0"
      using assms int_div_pos_eq int_mod_pos_eq by blast+
    then show ?thesis by simp
  next
    case False
    then have e: "k + 1 = n * (k div n) + (k mod n + 1)" "0 \<le> k mod n + 1" "k mod n + 1 < n"
      using k b by auto
    then have "(k + 1) div n = k div n" "(k + 1) mod n = k mod n + 1"
      using int_div_pos_eq int_mod_pos_eq by blast+
    with b show ?thesis by simp
  qed
qed

lemma days_before_year_Suc:
  "days_before_year (y + 1) = days_before_year y + (if is_leap y then 366 else 365)"
proof -
  have d: "y mod 100 = 0 \<Longrightarrow> y mod 4 = 0" "y mod 400 = 0 \<Longrightarrow> y mod 100 = 0"
    using mod_mod_cancel [of 4 100 y] mod_mod_cancel [of 100 400 y] by auto
  have e: "y div 4 = (y - 1) div 4 + (if y mod 4 = 0 then 1 else 0)"
    "y div 100 = (y - 1) div 100 + (if y mod 100 = 0 then 1 else 0)"
    "y div 400 = (y - 1) div 400 + (if y mod 400 = 0 then 1 else 0)"
    using div_add_1 [of _ "y - 1"] by simp_all
  show ?thesis using d
    unfolding days_before_year_def is_leap_def Let_def add_diff_cancel_right' e
    by (cases "y mod 4 = 0"; cases "y mod 100 = 0"; cases "y mod 400 = 0") simp_all
qed

lemma month_cases:
  fixes m :: int
  assumes "1 \<le> m" and "m \<le> 12"
  obtains "m = 1" | "m = 2" | "m = 3" | "m = 4" | "m = 5" | "m = 6"
    | "m = 7" | "m = 8" | "m = 9" | "m = 10" | "m = 11" | "m = 12"
proof -
  have "m \<in> {1..12}" using assms by simp
  also have "{1..12::int} = {1,2,3,4,5,6,7,8,9,10,11,12}" by code_simp
  finally show thesis using that by blast
qed

lemma days_before_month_Suc:
  assumes "1 \<le> m" and "m \<le> 11"
  shows "days_before_month y (m + 1) = days_before_month y m + days_in_month y m"
proof -
  from assms have "1 \<le> m" "m \<le> 12" by simp_all
  then show ?thesis using assms(2)
    by (cases m rule: month_cases) (simp_all add: days_before_month_def month_offset_def days_in_month_def)
qed

lemma year_split:
  fixes a b c d :: int
  assumes "0 \<le> b" "b < 4" "0 \<le> c" "c < 25" "0 \<le> d" "d < 4"
  shows "days_before_year (400 * a + 100 * b + 4 * c + d + 1) = 146097 * a + 36524 * b + 1461 * c + 365 * d"
proof -
  have "(400 * a + 100 * b + 4 * c + d) div 4 = 100 * a + 25 * b + c"
    using assms by (intro int_div_pos_eq [of _ _ _ d]) auto
  moreover have "(400 * a + 100 * b + 4 * c + d) div 100 = 4 * a + b"
    using assms by (intro int_div_pos_eq [of _ _ _ "4 * c + d"]) auto
  moreover have "(400 * a + 100 * b + 4 * c + d) div 400 = a"
    using assms by (intro int_div_pos_eq [of _ _ _ "100 * b + 4 * c + d"]) auto
  ultimately show ?thesis by (simp add: days_before_year_def Let_def)
qed

lemma month_guess:
  assumes n: "0 \<le> n" "n < (if is_leap y then 366 else 365)"
    and m0: "m0 = (n + 50) div 32"
    and m: "m = (if n < days_before_month y m0 then m0 - 1 else m0)"
  shows "1 \<le> m \<and> m \<le> 12 \<and> days_before_month y m \<le> n \<and> n < days_before_month y m + days_in_month y m"
proof -
  have q: "32 * m0 \<le> n + 50" "n + 50 < 32 * m0 + 32" using m0 by auto
  then have "1 \<le> m0" "m0 \<le> 12" using n by (auto split: if_splits)
  then show ?thesis using n q m
    by (cases m0 rule: month_cases)
       (auto simp: days_before_month_def month_offset_def days_in_month_def split: if_splits)
qed

lemma days_before_month_13: "days_before_month y 12 + 31 = (if is_leap y then 366 else 365)"
  by (simp add: days_before_month_def month_offset_def)

lemma is_leap_multiple_400: "is_leap (400 * a)"
  by (simp add: is_leap_def)

lemma is_leap_in_cycle:
  assumes "1 \<le> c" and "c \<le> 24"
  shows "is_leap (400 * a + 100 * b + 4 * c)"
proof -
  have "(400 * a + 100 * b + 4 * c) mod 4 = 0" by presburger
  moreover have "(400 * a + 100 * b + 4 * c) mod 100 = 4 * c"
    using assms by (intro int_mod_pos_eq [of _ _ "4 * a + b"]) auto
  ultimately show ?thesis using assms by (simp add: is_leap_def)
qed

lemma year_end:
  assumes "is_leap y"
  shows "valid_ymd y 12 31 \<and> ymd2ord y 12 31 = days_before_year (y + 1)"
  using assms days_before_month_13 [of y]
  by (simp add: valid_ymd_def days_in_month_def ymd2ord_def days_before_year_Suc)

lemma ord2ymd_correct:
  assumes eq: "ord2ymd k = (y, m, d)"
  shows "valid_ymd y m d \<and> ymd2ord y m d = k"
proof -
  define n where "n = k - 1"
  define a r1 where "a = n div 146097" and "r1 = n mod 146097"
  define b r2 where "b = r1 div 36524" and "r2 = r1 mod 36524"
  define c r3 where "c = r2 div 1461" and "r3 = r2 mod 1461"
  define q r4 where "q = r3 div 365" and "r4 = r3 mod 365"
  have n: "k = 146097 * a + 36524 * b + 1461 * c + 365 * q + r4 + 1"
    and s: "r1 = 36524 * b + r2" "r2 = 1461 * c + r3" "r3 = 365 * q + r4"
    by (simp_all add: n_def a_def r1_def b_def r2_def c_def r3_def q_def r4_def)
  have r: "0 \<le> r1" "r1 < 146097" "0 \<le> r2" "r2 < 36524" "0 \<le> r3" "r3 < 1461" "0 \<le> r4" "r4 < 365"
    by (simp_all add: r1_def r2_def r3_def r4_def)
  have lo: "0 \<le> b" "0 \<le> c" "0 \<le> q" by (simp_all add: b_def c_def q_def r pos_imp_zdiv_nonneg_iff)
  have hi: "b \<le> 4" "c \<le> 24" "q \<le> 4" using s r by linarith+
  define z where "z = 400 * a + 100 * b + 4 * c + q + 1"
  define m0 where "m0 = (r4 + 50) div 32"
  define m' where "m' = (if r4 < days_before_month z m0 then m0 - 1 else m0)"
  have sel: "ord2ymd k = (if q = 4 \<or> b = 4 then (z - 1, 12, 31)
      else (z, m', r4 - days_before_month z m' + 1))"
    unfolding ord2ymd_def Let_def
    by (simp flip: n_def a_def r1_def b_def r2_def c_def r3_def q_def r4_def)
       (simp add: m0_def m'_def z_def algebra_simps)
  consider (century) "b = 4" | (leap) "b < 4" "q = 4" | (plain) "b < 4" "q < 4" using hi by linarith
  then show ?thesis
  proof cases
    case century
    with s r lo have "r2 = 0" "c = 0" "q = 0" "r4 = 0" by linarith+
    with century n have z: "z - 1 = 400 * (a + 1)" "k = 146097 * (a + 1)" by (simp_all add: z_def)
    have "days_before_year (400 * (a + 1) + 1) = k"
      using year_split [of 0 0 0 "a + 1"] z by simp
    then show ?thesis using eq sel century z year_end [OF is_leap_multiple_400 [of "a + 1"]] by simp
  next
    case leap
    with s r lo have "r4 = 0" "c < 24" by linarith+
    with leap n have z: "z - 1 = 400 * a + 100 * b + 4 * (c + 1)" "k = 146097 * a + 36524 * b + 1461 * (c + 1)"
      by (simp_all add: z_def)
    have "days_before_year (400 * a + 100 * b + 4 * (c + 1) + 1) = k"
      using year_split [of b "c + 1" 0 a] z lo leap \<open>c < 24\<close> by simp
    then show ?thesis
      using eq sel leap z year_end [OF is_leap_in_cycle [of "c + 1" a b]] lo \<open>c < 24\<close> by simp
  next
    case plain
    have g: "1 \<le> m' \<and> m' \<le> 12 \<and> days_before_month z m' \<le> r4 \<and> r4 < days_before_month z m' + days_in_month z m'"
      using month_guess [of r4 z m0 m'] r m0_def m'_def by auto
    have "(y, m, d) = (z, m', r4 - days_before_month z m' + 1)"
      using eq sel plain by auto
    moreover have "days_before_year z = 146097 * a + 36524 * b + 1461 * c + 365 * q"
      using year_split [of b c q a] plain lo hi by (simp add: z_def)
    ultimately show ?thesis using g n by (simp add: valid_ymd_def ymd2ord_def)
  qed
qed

lemma days_before_month_mono:
  assumes "1 \<le> m" and "m < m'" and "m' \<le> 12"
  shows "days_before_month y m + days_in_month y m \<le> days_before_month y m'"
proof -
  have b: "1 \<le> m" "m \<le> 12" "1 \<le> m'" "m' \<le> 12" using assms by auto
  show ?thesis using assms(2)
    by - (rule month_cases [OF b(1,2)]; rule month_cases [OF b(3,4)];
       simp add: days_before_month_def month_offset_def days_in_month_def)
qed

lemma days_before_year_mono:
  assumes "y < y'"
  shows "days_before_year y + (if is_leap y then 366 else 365) \<le> days_before_year y'"
proof -
  have "days_before_year (y + 1) \<le> days_before_year (y + 1 + int k)" for k
  proof (induction k)
    case (Suc k)
    then show ?case using days_before_year_Suc [of "y + 1 + int k"]
      by (simp add: algebra_simps split: if_splits)
  qed simp
  from this [of "nat (y' - y - 1)"] assms show ?thesis
    by (simp add: days_before_year_Suc)
qed

lemma day_in_year:
  assumes "valid_ymd y m d"
  shows "0 < days_before_month y m + d \<and> days_before_month y m + d \<le> (if is_leap y then 366 else 365)"
proof -
  have v: "1 \<le> m" "m \<le> 12" "1 \<le> d" "d \<le> days_in_month y m" using assms by (auto simp: valid_ymd_def)
  have "days_before_month y m + days_in_month y m \<le> (if is_leap y then 366 else 365)"
    and "0 \<le> days_before_month y m"
    using v(1,2) by (cases m rule: month_cases,
      simp_all add: days_before_month_def month_offset_def days_in_month_def)+
  with v show ?thesis by linarith
qed

text \<open>The ordinal is strictly increasing in (year, month, day): the order of dates.\<close>

lemma ymd2ord_less:
  assumes v: "valid_ymd y m d" "valid_ymd y' m' d'"
    and l: "y < y' \<or> (y = y' \<and> (m < m' \<or> (m = m' \<and> d < d')))"
  shows "ymd2ord y m d < ymd2ord y' m' d'"
proof -
  consider "y < y'" | "y = y'" "m < m'" | "y = y'" "m = m'" "d < d'" using l by blast
  then show ?thesis
  proof cases
    case 1
    then show ?thesis using days_before_year_mono [OF 1] day_in_year [OF v(1)] day_in_year [OF v(2)]
      unfolding ymd2ord_def by linarith
  next
    case 2
    then show ?thesis using v days_before_month_mono [of m m' y]
      by (auto simp: valid_ymd_def ymd2ord_def)
  qed (simp add: ymd2ord_def)
qed

lemma ord2ymd_ymd2ord:
  assumes "valid_ymd y m d"
  shows "ord2ymd (ymd2ord y m d) = (y, m, d)"
proof -
  obtain y' m' d' where e: "ord2ymd (ymd2ord y m d) = (y', m', d')" by (cases "ord2ymd (ymd2ord y m d)")
  with ord2ymd_correct [OF e] have v: "valid_ymd y' m' d'" "ymd2ord y' m' d' = ymd2ord y m d" by auto
  then show ?thesis
    using ymd2ord_less [OF v(1) assms] ymd2ord_less [OF assms v(1)] e
    by (metis less_irrefl linorder_neqE)
qed


lemma ymd_of_date:
  "valid_ymd (year_of d) (month_of d) (day_of d) \<and> ymd2ord (year_of d) (month_of d) (day_of d) = d"
  using ord2ymd_correct [of d "year_of d" "month_of d" "day_of d"]
  by (simp add: year_of_def month_of_def day_of_def)

lemma date_of_ymd:
  assumes "valid_ymd y m d"
  shows "year_of (ymd2ord y m d) = y" and "month_of (ymd2ord y m d) = m"
    and "day_of (ymd2ord y m d) = d"
  using ord2ymd_ymd2ord [OF assms] by (simp_all add: year_of_def month_of_def day_of_def)

lemma month_of_range: "1 \<le> month_of d \<and> month_of d \<le> 12"
  using ymd_of_date [of d] by (simp add: valid_ymd_def)

text \<open>A date of an earlier month is earlier.\<close>

lemma month_order:
  assumes "year_of d < year_of d' \<or> (year_of d = year_of d' \<and> month_of d < month_of d')"
  shows "d < d'"
  using ymd2ord_less [of "year_of d" "month_of d" "day_of d" "year_of d'" "month_of d'" "day_of d'"]
    ymd_of_date [of d] ymd_of_date [of d'] assms by auto

lemma days_in_month_range: "28 \<le> days_in_month y m \<and> days_in_month y m \<le> 31"
  by (simp add: days_in_month_def)

subsection \<open>Instants\<close>

definition usec_per_second :: int where "usec_per_second = 1000000"
definition usec_per_day :: int where "usec_per_day = 86400000000"

text \<open>\<open>date(1970, 1, 1).toordinal()\<close>.\<close>

definition epoch_ordinal :: date where "epoch_ordinal = 719163"

definition date_of :: "timestamp \<Rightarrow> date" where
  "date_of t = epoch_ordinal + t div usec_per_day"

definition time_of :: "timestamp \<Rightarrow> int" where
  "time_of t = t mod usec_per_day"

text \<open>\<open>datetime.combine(d, clock, UTC)\<close>, the clock in microseconds after midnight.\<close>

definition combine :: "date \<Rightarrow> int \<Rightarrow> timestamp" where
  "combine d clock = (d - epoch_ordinal) * usec_per_day + clock"

definition seconds :: "int \<Rightarrow> int" where "seconds n = n * usec_per_second"
definition days :: "int \<Rightarrow> int" where "days n = n * usec_per_day"

text \<open>
  A \<open>datetime\<close> of the code: without a zone (its wall clock), or with one (the instant
  and the offset of its zone at that instant).
\<close>

datatype pydatetime = Naive timestamp | Aware timestamp int

text \<open>\<open>x.replace(tzinfo=UTC) if x.tzinfo is None else x.astimezone(UTC)\<close>.\<close>

fun as_utc :: "pydatetime \<Rightarrow> timestamp" where
  "as_utc (Naive w) = w"
| "as_utc (Aware u offset) = u"

text \<open>\<open>x.date()\<close> is the date on the wall clock.\<close>

fun wall_date :: "pydatetime \<Rightarrow> date" where
  "wall_date (Naive w) = date_of w"
| "wall_date (Aware u offset) = date_of (u + offset)"

lemma combine_date_time: "combine (date_of t) (time_of t) = t"
  by (simp add: combine_def date_of_def time_of_def)

lemma date_of_combine: "0 \<le> c \<Longrightarrow> c < usec_per_day \<Longrightarrow> date_of (combine d c) = d"
  by (simp add: combine_def date_of_def usec_per_day_def)

lemma time_of_combine: "0 \<le> c \<Longrightarrow> c < usec_per_day \<Longrightarrow> time_of (combine d c) = c"
  by (simp only: combine_def time_of_def mod_mult_self3 mod_pos_pos_trivial)

lemma time_of_range: "0 \<le> time_of t \<and> time_of t < usec_per_day"
  by (simp add: time_of_def usec_per_day_def)

lemma combine_less_iff:
  assumes "0 \<le> c" "c < usec_per_day" "0 \<le> c'" "c' < usec_per_day"
  shows "combine d c < combine d' c' \<longleftrightarrow> d < d' \<or> (d = d' \<and> c < c')"
  using assms unfolding combine_def usec_per_day_def by (auto; presburger)

lemma date_of_mono: "s \<le> t \<Longrightarrow> date_of s \<le> date_of t"
  by (simp add: date_of_def usec_per_day_def zdiv_mono1)

lemma combine_add_days: "combine d c + days n = combine (d + n) c"
  by (simp add: combine_def days_def algebra_simps)

lemma date_of_add_days: "date_of (t + days n) = date_of t + n"
  by (simp add: date_of_def days_def usec_per_day_def)

end
