(* ===== verification/Report_Schedule.thy ===== *)
theory Report_Schedule
  imports Calendar
begin

section \<open>When a scheduled report is sent, and the window it covers\<close>

text \<open>
  The pure functions of \<open>api/services/report_schedule.py\<close>: the next delivery instant
  of a daily, weekly or monthly schedule, the completed reporting window, and the
  retry instant after a failed delivery.  SHA-256 is a parameter of the retry
  function.  \<open>delivery_instant\<close> is the specification of a schedule: the
  instants at which it is due.
\<close>

subsection \<open>The code\<close>

text \<open>A \<open>datetime.time\<close>, with a flag for an attached zone.\<close>

record pytime =
  pt_hour :: int
  pt_minute :: int
  pt_second :: int
  pt_microsecond :: int
  pt_zoned :: bool

definition valid_pytime :: "pytime \<Rightarrow> bool" where
  "valid_pytime t \<longleftrightarrow> 0 \<le> pt_hour t \<and> pt_hour t < 24 \<and> 0 \<le> pt_minute t \<and> pt_minute t < 60
     \<and> 0 \<le> pt_second t \<and> pt_second t < 60 \<and> 0 \<le> pt_microsecond t \<and> pt_microsecond t < 1000000"

definition clock_seconds :: "pytime \<Rightarrow> int" where
  "clock_seconds t = (pt_hour t * 3600 + pt_minute t * 60 + pt_second t) * usec_per_second"

definition clock_full :: "pytime \<Rightarrow> int" where
  "clock_full t = clock_seconds t + pt_microsecond t"

definition frequencies :: "string list" where
  "frequencies = [''daily'', ''weekly'', ''monthly'']"

definition report_range_presets :: "string list" where
  "report_range_presets =
     [''previous_period'', ''previous_day'', ''previous_week'', ''previous_month'',
      ''last_7_days'', ''last_30_days'']"

definition monthly_date :: "int \<Rightarrow> int \<Rightarrow> int \<Rightarrow> int" where
  "monthly_date year month month_day =
     (let last_day = days_in_month year month
      in if month_day = -1 then last_day else min month_day last_day)"

definition next_month :: "int \<Rightarrow> int \<Rightarrow> int \<times> int" where
  "next_month year month = (if month = 12 then (year + 1, 1) else (year, month + 1))"

definition monthly_candidate :: "int \<Rightarrow> int \<Rightarrow> int \<Rightarrow> pytime \<Rightarrow> timestamp" where
  "monthly_candidate year month month_day t =
     combine (ymd2ord year month (monthly_date year month month_day)) (clock_seconds t)"

definition next_report_delivery ::
  "pydatetime \<Rightarrow> string \<Rightarrow> pytime \<Rightarrow> int \<Rightarrow> int \<Rightarrow> error + timestamp" where
  "next_report_delivery after frequency delivery_time wday month_day =
     (if frequency \<notin> set frequencies then Inl (ValueError ''Invalid report frequency'')
      else if \<not> (0 \<le> wday \<and> wday \<le> 6) then
        Inl (ValueError ''Report weekday must be between 0 and 6'')
      else if month_day \<notin> {1, 15, -1} then
        Inl (ValueError ''Report month day must be 1, 15, or -1'')
      else if pt_zoned delivery_time then
        Inl (ValueError ''Report delivery time must be UTC without an offset'')
      else
        let observed = as_utc after; clock = clock_full delivery_time
        in if frequency = ''daily'' then
             let candidate = combine (date_of observed) clock
             in Inr (if candidate > observed then candidate else candidate + days 1)
           else if frequency = ''weekly'' then
             let days_ahead = (wday - weekday (date_of observed)) mod 7;
                 candidate = combine (date_of observed + days_ahead) clock
             in Inr (if candidate > observed then candidate else candidate + days 7)
           else
             let year = year_of (date_of observed); month = month_of (date_of observed);
                 candidate = monthly_candidate year month month_day delivery_time
             in if candidate > observed then Inr candidate
                else let (year', month') = next_month year month
                     in Inr (monthly_candidate year' month' month_day delivery_time))"

definition resolve_preset :: "string \<Rightarrow> string \<Rightarrow> string" where
  "resolve_preset frequency range_preset =
     (if range_preset = ''previous_period'' then
        (if frequency = ''daily'' then ''previous_day''
         else if frequency = ''weekly'' then ''previous_week'' else ''previous_month'')
      else range_preset)"

definition scheduled_report_window ::
  "pydatetime \<Rightarrow> string \<Rightarrow> string \<Rightarrow> error + (timestamp \<times> timestamp)" where
  "scheduled_report_window observed_at frequency range_preset =
     (if frequency \<notin> set frequencies then Inl (ValueError ''Invalid report frequency'')
      else if range_preset \<notin> set report_range_presets then
        Inl (ValueError ''Invalid report range'')
      else
        let observed = as_utc observed_at;
            today = combine (date_of observed) 0;
            preset = resolve_preset frequency range_preset
        in if preset = ''previous_day'' then Inr (today - days 1, today)
           else if preset = ''last_7_days'' then Inr (today - days 7, today)
           else if preset = ''last_30_days'' then Inr (today - days 30, today)
           else if preset = ''previous_week'' then
             let this_week = today - days (weekday (date_of today))
             in Inr (this_week - days 7, this_week)
           else
             let this_month = combine (ymd2ord (year_of (date_of today)) (month_of (date_of today)) 1) 0;
                 previous_day = this_month - days 1;
                 previous_month_start =
                   combine (ymd2ord (year_of (date_of previous_day)) (month_of (date_of previous_day)) 1) 0
             in Inr (previous_month_start, this_month))"

text \<open>\<open>int.from_bytes(digest[:2], "big") % 61\<close>.\<close>

definition retry_jitter :: "(string \<Rightarrow> nat list) \<Rightarrow> string \<Rightarrow> int" where
  "retry_jitter sha256 report_id =
     int (foldl (\<lambda>acc b. acc * 256 + b) 0 (take 2 (sha256 report_id))) mod 61"

definition scheduled_report_retry_at ::
  "(string \<Rightarrow> nat list) \<Rightarrow> pydatetime \<Rightarrow> int \<Rightarrow> string \<Rightarrow> error + timestamp" where
  "scheduled_report_retry_at sha256 failed_at consecutive_failures report_id =
     (if consecutive_failures < 0 then
        Inl (ValueError ''Consecutive failures cannot be negative'')
      else
        let observed = as_utc failed_at;
            exponent = nat (min consecutive_failures 16);
            delay_seconds = min (5 * 60 * 2 ^ exponent) (24 * 60 * 60)
        in Inr (observed + seconds (delay_seconds + retry_jitter sha256 report_id)))"

subsection \<open>What a schedule promises\<close>

definition delivery_instant :: "string \<Rightarrow> int \<Rightarrow> int \<Rightarrow> pytime \<Rightarrow> timestamp \<Rightarrow> bool" where
  "delivery_instant frequency wday month_day t x \<longleftrightarrow>
     (if frequency = ''daily'' then time_of x = clock_full t
      else if frequency = ''weekly'' then
        time_of x = clock_full t \<and> weekday (date_of x) = wday
      else
        time_of x = clock_seconds t \<and>
        day_of (date_of x) = monthly_date (year_of (date_of x)) (month_of (date_of x)) month_day)"

definition least_after :: "(timestamp \<Rightarrow> bool) \<Rightarrow> timestamp \<Rightarrow> timestamp \<Rightarrow> bool" where
  "least_after P observed r \<longleftrightarrow> P r \<and> observed < r \<and> (\<forall>x. P x \<longrightarrow> observed < x \<longrightarrow> r \<le> x)"

lemma clock_ranges:
  assumes "valid_pytime t"
  shows "0 \<le> clock_seconds t" "clock_seconds t < usec_per_day"
    and "0 \<le> clock_full t" "clock_full t < usec_per_day"
  using assms
  by (auto simp: valid_pytime_def clock_full_def clock_seconds_def usec_per_day_def usec_per_second_def)

text \<open>Instants of the same clock are ordered by their dates.\<close>

lemma same_clock_le:
  assumes "time_of x = c" "0 \<le> c" "c < usec_per_day"
  shows "combine d c \<le> x \<longleftrightarrow> d \<le> date_of x"
  using assms combine_less_iff [of c c "date_of x" d] combine_date_time [of x]
  by (auto simp flip: not_less)

lemma later_date:
  assumes "time_of x = c" "observed < x" "0 \<le> c" "c < usec_per_day"
  shows "date_of observed \<le> date_of x"
  using assms by (simp add: date_of_mono)

lemma at_clock_today:
  assumes "time_of x = c" "observed < x" "\<not> observed < combine (date_of observed) c"
  shows "date_of x \<noteq> date_of observed"
  using assms combine_date_time [of x] by auto

lemma combine_ge_next_day:
  assumes "0 \<le> c" "date_of observed < d"
  shows "observed < combine d c"
proof -
  have "observed < combine (date_of observed + 1) 0"
    using combine_date_time [of observed] time_of_range [of observed]
    by (simp add: combine_def usec_per_day_def algebra_simps)
  also have "\<dots> \<le> combine d c" using assms by (simp add: combine_def usec_per_day_def)
  finally show ?thesis .
qed

lemma daily_least:
  assumes c: "0 \<le> c" "c < usec_per_day"
  shows "least_after (\<lambda>x. time_of x = c) observed
     (if observed < combine (date_of observed) c then combine (date_of observed) c
      else combine (date_of observed) c + days 1)"
proof (cases "observed < combine (date_of observed) c")
  case True
  then show ?thesis
    using c by (auto simp: least_after_def time_of_combine same_clock_le later_date)
next
  case False
  then have "date_of observed + 1 \<le> date_of x" if "time_of x = c" "observed < x" for x
    using that later_date [OF that c] at_clock_today [OF that] by simp
  with False show ?thesis
    using c combine_ge_next_day [of c observed "date_of observed + 1"]
    by (auto simp: least_after_def combine_add_days time_of_combine same_clock_le)
qed

lemma weekday_ahead:
  assumes "0 \<le> w" "w \<le> 6" "weekday e = w" "d \<le> e"
  shows "d + (w - weekday d) mod 7 \<le> e"
proof -
  have "(w - weekday d) mod 7 = (e - d) mod 7"
    using assms(3) unfolding weekday_def by (auto simp: mod_simps)
  also have "\<dots> \<le> e - d" using assms(4) by (simp add: zmod_le_nonneg_dividend)
  finally show ?thesis by simp
qed

lemma weekday_shift: "0 \<le> w \<Longrightarrow> w \<le> 6 \<Longrightarrow> weekday (d + (w - weekday d) mod 7) = w"
proof -
  assume w: "0 \<le> w" "w \<le> 6"
  have "(d + 6 + (w - (d + 6) mod 7) mod 7) mod 7 = (d + 6 + (w - (d + 6))) mod 7"
    by (simp only: mod_simps)
  then show ?thesis using w by (simp add: weekday_def algebra_simps)
qed

lemma weekly_least:
  assumes c: "0 \<le> c" "c < usec_per_day" and w: "0 \<le> w" "w \<le> 6"
    and d: "d = date_of observed + (w - weekday (date_of observed)) mod 7"
  shows "least_after (\<lambda>x. time_of x = c \<and> weekday (date_of x) = w) observed
     (if observed < combine d c then combine d c else combine d c + days 7)"
proof (cases "observed < combine d c")
  case True
  then show ?thesis
    using c w d
    by (auto simp: least_after_def time_of_combine date_of_combine weekday_shift same_clock_le
        intro!: weekday_ahead later_date)
next
  case False
  have ge: "date_of observed \<le> d" using d by simp
  moreover have "\<not> date_of observed < d"
    using False c combine_ge_next_day [of c observed d] by blast
  ultimately have e: "d = date_of observed" by simp
  have "d + 7 \<le> date_of x" if x: "time_of x = c" "weekday (date_of x) = w" "observed < x" for x
  proof -
    have "date_of observed + 1 \<le> date_of x"
      using x False e later_date [OF x(1,3) c] at_clock_today [OF x(1,3)] by simp
    then have "date_of observed + 1 + (w - weekday (date_of observed + 1)) mod 7 \<le> date_of x"
      using weekday_ahead [OF w x(2)] by blast
    moreover have "weekday (date_of observed) = w" using weekday_shift [OF w, of "date_of observed"] d e by simp
    moreover have "(w - (w + 1) mod 7) mod 7 = 6" by (simp add: mod_simps)
    ultimately have "(w - weekday (date_of observed + 1)) mod 7 = 6" by (simp only: weekday_add)
    with \<open>date_of observed + 1 + _ \<le> date_of x\<close> show ?thesis using e by simp
  qed
  moreover have "weekday (d + 7) = w" using weekday_shift [OF w, of "date_of observed"] d
    by simp
  ultimately show ?thesis
    using False c e combine_ge_next_day [of c observed "d + 7"]
    by (auto simp: least_after_def combine_add_days time_of_combine date_of_combine same_clock_le)
qed


lemma monthly_date_valid:
  assumes "1 \<le> m" "m \<le> 12" "md \<in> {1, 15, -1}"
  shows "valid_ymd y m (monthly_date y m md)"
  using assms days_in_month_range [of y m] by (auto simp: valid_ymd_def monthly_date_def Let_def)

text \<open>The scheduled day of a month, and that it is the only one of its month.\<close>

definition monthly_day :: "int \<Rightarrow> int \<Rightarrow> int \<Rightarrow> date" where
  "monthly_day md y m = ymd2ord y m (monthly_date y m md)"

definition on_monthly_day :: "int \<Rightarrow> date \<Rightarrow> bool" where
  "on_monthly_day md d \<longleftrightarrow> day_of d = monthly_date (year_of d) (month_of d) md"

lemma monthly_day_parts:
  assumes "1 \<le> m" "m \<le> 12" "md \<in> {1, 15, -1}"
  shows "year_of (monthly_day md y m) = y" "month_of (monthly_day md y m) = m"
    "on_monthly_day md (monthly_day md y m)"
  using date_of_ymd [OF monthly_date_valid [OF assms]]
  by (simp_all add: monthly_day_def on_monthly_day_def)

lemma on_monthly_day_eq: "on_monthly_day md d \<Longrightarrow> d = monthly_day md (year_of d) (month_of d)"
  using ymd_of_date [of d] by (simp add: on_monthly_day_def monthly_day_def)

lemma next_month_parts:
  assumes "1 \<le> m" "m \<le> 12" and "next_month y m = (y', m')"
  shows "1 \<le> m' \<and> m' \<le> 12 \<and> (y < y' \<or> (y = y' \<and> m < m'))"
  using assms by (auto simp: next_month_def split: if_splits)

lemma between_months:
  assumes "1 \<le> m" "m \<le> 12" "1 \<le> n" "n \<le> 12" and "next_month y m = (y', m')"
    and "y < z \<or> (y = z \<and> m < n)"
  shows "(z = y' \<and> n = m') \<or> y' < z \<or> (y' = z \<and> m' < n)"
  using assms by (auto simp: next_month_def split: if_splits)

lemma monthly_least:
  assumes c: "0 \<le> c" "c < usec_per_day" and md: "md \<in> {1, 15, -1}"
    and y: "y = year_of (date_of observed)" and m: "m = month_of (date_of observed)"
    and n: "next_month y m = (y', m')"
  shows "least_after (\<lambda>x. time_of x = c \<and> on_monthly_day md (date_of x)) observed
     (if observed < combine (monthly_day md y m) c then combine (monthly_day md y m) c
      else combine (monthly_day md y' m') c)"
proof -
  have mr: "1 \<le> m" "m \<le> 12" using m month_of_range by auto
  then have mr': "1 \<le> m'" "m' \<le> 12" and later: "y < y' \<or> (y = y' \<and> m < m')"
    using next_month_parts [OF mr n] by auto
  note this_parts = monthly_day_parts [OF mr md, of y]
  note next_parts = monthly_day_parts [OF mr' md, of y']
  have here: "date_of x = monthly_day md y m \<or>
      y < year_of (date_of x) \<or> (y = year_of (date_of x) \<and> m < month_of (date_of x))"
    if x: "time_of x = c" "on_monthly_day md (date_of x)" "observed < x" for x
  proof -
    have "\<not> date_of x < date_of observed" using later_date [OF x(1,3) c] by simp
    then have "\<not> (year_of (date_of x) < y \<or> (year_of (date_of x) = y \<and> month_of (date_of x) < m))"
      using month_order [of "date_of x" "date_of observed"] y m by blast
    then show ?thesis using on_monthly_day_eq [OF x(2)] by (auto simp: not_less order.strict_iff_order)
  qed
  show ?thesis
  proof (cases "observed < combine (monthly_day md y m) c")
    case True
    have "monthly_day md y m \<le> date_of x"
      if "time_of x = c" "on_monthly_day md (date_of x)" "observed < x" for x
      using here [OF that] month_order [of "monthly_day md y m" "date_of x"] this_parts by auto
    with True this_parts show ?thesis
      using c by (auto simp: least_after_def time_of_combine date_of_combine same_clock_le)
  next
    case False
    have "date_of observed < monthly_day md y' m'"
      using month_order [of "date_of observed" "monthly_day md y' m'"] later next_parts y m by simp
    then have gt: "observed < combine (monthly_day md y' m') c"
      using combine_ge_next_day c by blast
    have "monthly_day md y' m' \<le> date_of x"
      if x: "time_of x = c" "on_monthly_day md (date_of x)" "observed < x" for x
    proof -
      have "date_of x \<noteq> monthly_day md y m" using x(1,3) False combine_date_time [of x] by auto
      then have "y < year_of (date_of x) \<or> (y = year_of (date_of x) \<and> m < month_of (date_of x))"
        using here [OF x] by simp
      from between_months [OF mr _ _ n this] month_of_range
      have "(year_of (date_of x) = y' \<and> month_of (date_of x) = m') \<or>
          y' < year_of (date_of x) \<or> (y' = year_of (date_of x) \<and> m' < month_of (date_of x))" by simp
      then show ?thesis
        using on_monthly_day_eq [OF x(2)] month_order [of "monthly_day md y' m'" "date_of x"] next_parts by auto
    qed
    with False gt next_parts show ?thesis
      using c by (auto simp: least_after_def time_of_combine date_of_combine same_clock_le)
  qed
qed

lemma next_report_delivery_least_lemma:
  assumes t: "valid_pytime t"
    and r: "next_report_delivery after frequency t wday month_day = Inr r"
  shows "least_after (delivery_instant frequency wday month_day t) (as_utc after) r"
proof -
  note c = clock_ranges [OF t]
  have g: "frequency \<in> set frequencies" "0 \<le> wday" "wday \<le> 6" "month_day \<in> {1, 15, -1}"
    using r by (auto simp: next_report_delivery_def split: if_splits)
  then consider "frequency = ''daily''" | "frequency = ''weekly''" | "frequency = ''monthly''"
    by (auto simp: frequencies_def)
  then show ?thesis
  proof cases
    case 1
    then show ?thesis using r daily_least [OF c(3,4), of "as_utc after"]
      by (auto simp: next_report_delivery_def delivery_instant_def [abs_def] Let_def split: if_splits)
  next
    case 2
    then show ?thesis using r weekly_least [OF c(3,4) g(2,3) refl, of "as_utc after"]
      by (auto simp: next_report_delivery_def delivery_instant_def [abs_def] Let_def split: if_splits)
  next
    case 3
    obtain y' m' where n: "next_month (year_of (date_of (as_utc after))) (month_of (date_of (as_utc after))) = (y', m')"
      by (metis surj_pair)
    from 3 show ?thesis using r monthly_least [OF c(1,2) g(4) refl refl n]
      by (auto simp: next_report_delivery_def delivery_instant_def [abs_def] Let_def n
          monthly_candidate_def monthly_day_def on_monthly_day_def split: if_splits)
  qed
qed

lemma scheduled_midnight: "date_of (combine d 0) = d" "time_of (combine d 0) = 0"
  by (simp_all add: date_of_combine time_of_combine usec_per_day_def)

lemma midnight_le: "combine (date_of t) 0 \<le> t"
  using combine_date_time [of t] time_of_range [of t] by (simp add: combine_def)

lemma midnight_minus_days: "combine d 0 - days n = combine (d - n) 0"
  by (simp add: combine_def days_def algebra_simps)

lemma combine_le_iff: "combine d c \<le> combine d' c \<longleftrightarrow> d \<le> d'" "combine d c < combine d' c \<longleftrightarrow> d < d'"
  by (simp_all add: combine_def usec_per_day_def)

lemmas midnight_simps = scheduled_midnight midnight_le midnight_minus_days combine_le_iff

text \<open>
  The window a preset names, for the day \<open>today\<close> of the run: whole days up to a
  midnight that is not in the future.
\<close>

definition window_spec :: "string \<Rightarrow> date \<Rightarrow> date \<Rightarrow> date \<Rightarrow> bool" where
  "window_spec preset today s e \<longleftrightarrow>
     (if preset = ''previous_day'' then e = today \<and> s = e - 1
      else if preset = ''last_7_days'' then e = today \<and> s = e - 7
      else if preset = ''last_30_days'' then e = today \<and> s = e - 30
      else if preset = ''previous_week'' then
        weekday e = 0 \<and> s = e - 7 \<and> e \<le> today \<and> today < e + 7
      else
        day_of s = 1 \<and> day_of e = 1 \<and> e \<le> today \<and> s < e \<and>
        (year_of e, month_of e) = (year_of today, month_of today) \<and>
        next_month (year_of s) (month_of s) = (year_of e, month_of e))"

lemma first_of_month:
  assumes "d = ymd2ord (year_of t) (month_of t) 1"
  shows "day_of d = 1" "year_of d = year_of t" "month_of d = month_of t" "d \<le> t"
proof -
  have v: "valid_ymd (year_of t) (month_of t) 1"
    using month_of_range [of t] days_in_month_range [of "year_of t" "month_of t"]
    by (simp add: valid_ymd_def)
  from date_of_ymd [OF v] assms
  show "day_of d = 1" "year_of d = year_of t" "month_of d = month_of t" by simp_all
  have "d = ymd2ord (year_of t) (month_of t) (day_of t) - (day_of t - 1)"
    using assms by (simp add: ymd2ord_def)
  then show "d \<le> t" using ymd_of_date [of t] by (simp add: valid_ymd_def)
qed

text \<open>The day before the first of a month is in the month before.\<close>

lemma day_before_first:
  assumes "day_of e = 1"
  shows "next_month (year_of (e - 1)) (month_of (e - 1)) = (year_of e, month_of e)"
proof -
  have v: "valid_ymd (year_of e) (month_of e) 1" and e: "e = ymd2ord (year_of e) (month_of e) 1"
    using ymd_of_date [of e] assms by simp_all
  show ?thesis
  proof (cases "month_of e = 1")
    case True
    have "e - 1 = ymd2ord (year_of e - 1) 12 31"
      using e True days_before_year_Suc [of "year_of e - 1"] days_before_month_13 [of "year_of e - 1"]
      by (simp add: ymd2ord_def days_before_month_def month_offset_def)
    moreover have "valid_ymd (year_of e - 1) 12 31" by (simp add: valid_ymd_def days_in_month_def)
    ultimately show ?thesis using True by (simp add: date_of_ymd next_month_def)
  next
    case False
    define m where "m = month_of e - 1"
    have m: "1 \<le> m" "m \<le> 11" using False month_of_range [of e] by (simp_all add: m_def)
    have "e - 1 = ymd2ord (year_of e) m (days_in_month (year_of e) m)"
      using e days_before_month_Suc [OF m, of "year_of e"] by (simp add: ymd2ord_def m_def)
    moreover have "valid_ymd (year_of e) m (days_in_month (year_of e) m)"
      using m days_in_month_range [of "year_of e" m] by (simp add: valid_ymd_def)
    ultimately show ?thesis using m by (simp add: date_of_ymd next_month_def m_def)
  qed
qed

lemma scheduled_report_window_parts:
  assumes "scheduled_report_window observed frequency range_preset = Inr (s, e)"
  shows "s < e" and "e \<le> as_utc observed" and "time_of s = 0" and "time_of e = 0"
    and "window_spec (resolve_preset frequency range_preset) (date_of (as_utc observed)) (date_of s) (date_of e)"
proof -
  define today where "today = date_of (as_utc observed)"
  define this_month where "this_month = ymd2ord (year_of today) (month_of today) 1"
  define prev where "prev = ymd2ord (year_of (this_month - 1)) (month_of (this_month - 1)) 1"
  note f = first_of_month [OF this_month_def] and p = first_of_month [OF prev_def]
  have w: "0 \<le> weekday today" "weekday today < 7" using weekday_range [of today] by auto
  have "prev < this_month" using p(4) by simp
  have nm: "next_month (year_of (this_month - 1)) (month_of (this_month - 1)) = (year_of today, month_of today)"
    using day_before_first [OF f(1)] f by simp
  have m: "combine today 0 \<le> as_utc observed" using midnight_le by (simp add: today_def)
  have p0: "resolve_preset frequency range_preset \<in>
      {''previous_day'', ''previous_week'', ''previous_month'', ''last_7_days'', ''last_30_days''}"
    using assms by (auto simp: scheduled_report_window_def resolve_preset_def
        report_range_presets_def frequencies_def split: if_splits)
  obtain a b where ab: "s = combine a 0" "e = combine b 0" "a < b" "b \<le> today"
    and spec: "window_spec (resolve_preset frequency range_preset) today a b"
  proof -
    from p0 consider "resolve_preset frequency range_preset = ''previous_day''"
      | "resolve_preset frequency range_preset = ''previous_week''"
      | "resolve_preset frequency range_preset = ''previous_month''"
      | "resolve_preset frequency range_preset = ''last_7_days''"
      | "resolve_preset frequency range_preset = ''last_30_days''" by blast
    then show ?thesis
    proof cases
      case 1 then show ?thesis using assms that [of "today - 1" today]
        by (auto simp: scheduled_report_window_def Let_def window_spec_def midnight_simps today_def split: if_splits)
    next
      case 2 then show ?thesis using assms w that [of "today - weekday today - 7" "today - weekday today"]
        by (auto simp: scheduled_report_window_def Let_def window_spec_def midnight_simps simp flip: today_def split: if_splits)
    next
      case 3 then show ?thesis using assms f p nm \<open>prev < this_month\<close> that [of prev this_month]
        by (auto simp: scheduled_report_window_def Let_def window_spec_def midnight_simps simp flip: today_def this_month_def prev_def split: if_splits)
    next
      case 4 then show ?thesis using assms that [of "today - 7" today]
        by (auto simp: scheduled_report_window_def Let_def window_spec_def midnight_simps today_def split: if_splits)
    next
      case 5 then show ?thesis using assms that [of "today - 30" today]
        by (auto simp: scheduled_report_window_def Let_def window_spec_def midnight_simps today_def split: if_splits)
    qed
  qed
  from ab spec m show "s < e" "time_of s = 0" "time_of e = 0"
    "window_spec (resolve_preset frequency range_preset) (date_of (as_utc observed)) (date_of s) (date_of e)"
    by (simp_all add: midnight_simps today_def)
  have "e \<le> combine today 0" using ab by (simp add: midnight_simps)
  with m show "e \<le> as_utc observed" by simp
qed

lemma retry_jitter_range: "0 \<le> retry_jitter h i \<and> retry_jitter h i \<le> 60"
proof -
  have "retry_jitter h i < 61" unfolding retry_jitter_def by (rule pos_mod_bound) simp
  then show ?thesis by (simp add: retry_jitter_def)
qed

lemma retry_delay_range:
  "300 \<le> min (5 * 60 * 2 ^ k) (24 * 60 * 60 :: int)" "min (5 * 60 * 2 ^ k) (24 * 60 * 60 :: int) \<le> 86400"
proof -
  have "(300::int) * 1 \<le> 300 * 2 ^ k" by (intro mult_left_mono) simp_all
  then show "300 \<le> min (5 * 60 * 2 ^ k) (24 * 60 * 60 :: int)" by simp
qed simp

lemma scheduled_report_retry_range:
  assumes "scheduled_report_retry_at sha256 failed_at failures report_id = Inr t"
  shows "as_utc failed_at + seconds (5 * 60) \<le> t" and "t \<le> as_utc failed_at + seconds (24 * 60 * 60 + 60)"
proof -
  define delay where "delay = min (5 * 60 * 2 ^ nat (min failures 16)) (24 * 60 * 60 :: int)"
  have t: "t = as_utc failed_at + seconds (delay + retry_jitter sha256 report_id)"
    using assms by (simp add: scheduled_report_retry_at_def Let_def delay_def split: if_splits)
  have "300 \<le> delay" "delay \<le> 86400" unfolding delay_def by (rule retry_delay_range)+
  then show "as_utc failed_at + seconds (5 * 60) \<le> t" "t \<le> as_utc failed_at + seconds (24 * 60 * 60 + 60)"
    using retry_jitter_range [of sha256 report_id] unfolding t seconds_def usec_per_second_def by simp_all
qed


text \<open>
  The instant of the current day, week or month at which the schedule was due;
  \<open>period_due\<close> says it has passed.
\<close>

definition period_due :: "string \<Rightarrow> int \<Rightarrow> int \<Rightarrow> pytime \<Rightarrow> timestamp \<Rightarrow> bool" where
  "period_due frequency wday month_day t observed \<longleftrightarrow>
     (let d = date_of observed
      in if frequency = ''daily'' then combine d (clock_full t) \<le> observed
         else if frequency = ''weekly'' then combine (d - weekday d + wday) (clock_full t) \<le> observed
         else monthly_candidate (year_of d) (month_of d) month_day t \<le> observed)"

lemma next_weekly_after_due:
  assumes c: "0 \<le> c" "c < usec_per_day" and w: "0 \<le> w" "w \<le> 6"
    and due: "combine (date_of x - weekday (date_of x) + w) c \<le> x"
    and d: "d = date_of x + (w - weekday (date_of x)) mod 7"
  shows "(if x < combine d c then combine d c else combine d c + days 7) =
    combine (date_of x - weekday (date_of x) + w + 7) c"
proof -
  note r = weekday_range [of "date_of x"]
  have "\<not> weekday (date_of x) < w"
    using due combine_ge_next_day [of c x "date_of x - weekday (date_of x) + w"] c by auto
  then have le: "w \<le> weekday (date_of x)" by simp
  show ?thesis
  proof (cases "w = weekday (date_of x)")
    case True
    then show ?thesis using due d by (simp add: combine_add_days)
  next
    case False
    then have "(w - weekday (date_of x)) mod 7 = w - weekday (date_of x) + 7"
      using le r w by (intro int_mod_pos_eq [of _ 7 "-1"]) auto
    with False le d have "d = date_of x - weekday (date_of x) + w + 7" "date_of x < d" using r w by simp_all
    then show ?thesis using combine_ge_next_day [of c x d] c by simp
  qed
qed

lemma window_of_previous_period:
  "scheduled_report_window (Aware x z) ''daily'' ''previous_period'' =
     Inr (combine (date_of x - 1) 0, combine (date_of x) 0)"
  "scheduled_report_window (Aware x z) ''weekly'' ''previous_period'' =
     Inr (combine (date_of x - weekday (date_of x) - 7) 0, combine (date_of x - weekday (date_of x)) 0)"
  "scheduled_report_window (Aware x z) ''monthly'' ''previous_period'' =
     (let e = ymd2ord (year_of (date_of x)) (month_of (date_of x)) 1
      in Inr (combine (ymd2ord (year_of (e - 1)) (month_of (e - 1)) 1) 0, combine e 0))"
  by (simp_all add: scheduled_report_window_def frequencies_def report_range_presets_def
      resolve_preset_def Let_def midnight_simps)

lemma consecutive_windows_lemma:
  assumes t: "valid_pytime t" and due: "period_due frequency wday month_day t x"
    and r: "next_report_delivery (Aware x z) frequency t wday month_day = Inr r"
    and w: "scheduled_report_window (Aware x z) frequency ''previous_period'' = Inr (s, e)"
    and w': "scheduled_report_window (Aware r z') frequency ''previous_period'' = Inr (s', e')"
  shows "s' = e"
proof -
  note c = clock_ranges [OF t]
  have g: "frequency \<in> set frequencies" "0 \<le> wday" "wday \<le> 6" "month_day \<in> {1, 15, -1}"
    using r by (auto simp: next_report_delivery_def split: if_splits)
  then consider "frequency = ''daily''" | "frequency = ''weekly''" | "frequency = ''monthly''"
    by (auto simp: frequencies_def)
  then show ?thesis
  proof cases
    case 1
    with due r have "r = combine (date_of x + 1) (clock_full t)"
      by (auto simp: period_due_def Let_def next_report_delivery_def combine_add_days split: if_splits)
    with 1 w w' c show ?thesis by (simp add: window_of_previous_period date_of_combine)
  next
    case 2
    with due have "combine (date_of x - weekday (date_of x) + wday) (clock_full t) \<le> x"
      by (simp add: period_due_def Let_def)
    from next_weekly_after_due [OF c(3,4) g(2,3) this refl] 2 r
    have "r = combine (date_of x - weekday (date_of x) + wday + 7) (clock_full t)"
      by (auto simp: next_report_delivery_def Let_def split: if_splits)
    moreover have "weekday (date_of x - weekday (date_of x) + wday) = wday"
      using g weekday_add [of "date_of x - weekday (date_of x)" wday] by simp
    ultimately show ?thesis using 2 w w' c
      by (simp add: window_of_previous_period date_of_combine)
  next
    case 3
    define y m where "y = year_of (date_of x)" and "m = month_of (date_of x)"
    obtain y' m' where n: "next_month y m = (y', m')" by (metis surj_pair)
    have mr: "1 \<le> m" "m \<le> 12" using month_of_range by (simp_all add: m_def)
    then have mr': "1 \<le> m'" "m' \<le> 12" using next_month_parts [OF mr n] by auto
    from due r 3 n have r': "r = combine (monthly_day month_day y' m') (clock_seconds t)"
      by (auto simp: period_due_def Let_def next_report_delivery_def monthly_candidate_def monthly_day_def
          y_def m_def split: if_splits)
    define first where "first = ymd2ord y' m' 1"
    have "valid_ymd y' m' 1" using mr' days_in_month_range [of y' m'] by (simp add: valid_ymd_def)
    then have f: "day_of first = 1" "year_of first = y'" "month_of first = m'"
      by (simp_all add: first_def date_of_ymd)
    then have "next_month (year_of (first - 1)) (month_of (first - 1)) = next_month y m"
      using day_before_first [of first] n by simp
    then have "year_of (first - 1) = y \<and> month_of (first - 1) = m"
      using mr month_of_range [of "first - 1"] by (auto simp: next_month_def split: if_splits)
    then show ?thesis
      using 3 w w' r' c monthly_day_parts [OF mr' g(4), of y']
      by (auto simp: window_of_previous_period date_of_combine Let_def simp flip: first_def y_def m_def)
  qed
qed

subsection \<open>Properties\<close>

text \<open>C38. For valid arguments \<open>next_report_delivery\<close> returns the first instant strictly after
  the observed time at which the schedule is due: it is a delivery instant, it is later than
  the observation, and no delivery instant lies between (so nothing is skipped).\<close>

theorem next_report_delivery_least:
  assumes "valid_pytime t"
    and "next_report_delivery after frequency t wday month_day = Inr r"
  shows "least_after (delivery_instant frequency wday month_day t) (as_utc after) r"
  using assms by (rule next_report_delivery_least_lemma)

theorem next_report_delivery_least_witness:
  "next_report_delivery (Aware 1706693400000000 0) ''monthly'' \<lparr>pt_hour = 9, pt_minute = 0,
      pt_second = 0, pt_microsecond = 0, pt_zoned = False\<rparr> 0 (-1) = Inr 1709197200000000
   \<and> least_after (delivery_instant ''monthly'' 0 (-1) \<lparr>pt_hour = 9, pt_minute = 0,
      pt_second = 0, pt_microsecond = 0, pt_zoned = False\<rparr>) (as_utc (Aware 1706693400000000 0)) 1709197200000000"
proof -
  have r: "next_report_delivery (Aware 1706693400000000 0) ''monthly'' \<lparr>pt_hour = 9, pt_minute = 0,
      pt_second = 0, pt_microsecond = 0, pt_zoned = False\<rparr> 0 (-1) = Inr 1709197200000000"
    by code_simp
  have "valid_pytime \<lparr>pt_hour = 9, pt_minute = 0, pt_second = 0, pt_microsecond = 0, pt_zoned = False\<rparr>"
    by (simp add: valid_pytime_def)
  from next_report_delivery_least [OF this r] r show ?thesis by simp
qed

text \<open>\<open>next_report_delivery\<close> returns an instant exactly for a known frequency, a weekday 0 to 6,
  a month day 1, 15 or -1 and a zone-less clock; every other call is the \<open>ValueError\<close> of its first
  failing check.\<close>

theorem next_report_delivery_defined:
  "(\<exists>r. next_report_delivery after frequency t wday month_day = Inr r) \<longleftrightarrow>
     frequency \<in> set frequencies \<and> wday \<in> {0..6} \<and> month_day \<in> {1, 15, -1} \<and> \<not> pt_zoned t"
  by (auto simp: next_report_delivery_def Let_def split: prod.splits if_splits)

text \<open>A reporting window is a non-empty half-open range of whole UTC days that ended by
  the time of the run, and it is the day, week, month or day range its preset names.\<close>

theorem scheduled_report_window_completed:
  assumes "scheduled_report_window observed frequency range_preset = Inr (s, e)"
  shows "s < e \<and> e \<le> as_utc observed \<and> time_of s = 0 \<and> time_of e = 0 \<and>
    window_spec (resolve_preset frequency range_preset) (date_of (as_utc observed)) (date_of s) (date_of e)"
  using scheduled_report_window_parts [OF assms] by blast

theorem scheduled_report_window_completed_witness:
  "scheduled_report_window (Naive 1709197200000000) ''monthly'' ''previous_period'' =
     Inr (1704067200000000, 1706745600000000)
   \<and> window_spec ''previous_month'' (date_of 1709197200000000) (date_of 1704067200000000) (date_of 1706745600000000)"
proof -
  have w: "scheduled_report_window (Naive 1709197200000000) ''monthly'' ''previous_period'' =
     Inr (1704067200000000, 1706745600000000)" by code_simp
  have "resolve_preset ''monthly'' ''previous_period'' = ''previous_month''" by code_simp
  with scheduled_report_window_completed [OF w] w show ?thesis by simp
qed

text \<open>Consecutive runs of a \<open>previous_period\<close> schedule neither overlap nor leave a gap: when the
  instant of the current period has passed, the window of the next delivery starts where the
  window of this run ends.\<close>

theorem consecutive_windows_meet:
  assumes "valid_pytime t" and "period_due frequency wday month_day t x"
    and "next_report_delivery (Aware x z) frequency t wday month_day = Inr r"
    and "scheduled_report_window (Aware x z) frequency ''previous_period'' = Inr (s, e)"
    and "scheduled_report_window (Aware r z') frequency ''previous_period'' = Inr (s', e')"
  shows "s' = e"
  using assms by (rule consecutive_windows_lemma)

theorem consecutive_windows_meet_witness:
  "\<exists>s e s' e'. scheduled_report_window (Aware 1709110800000000 0) ''weekly'' ''previous_period'' = Inr (s, e)
     \<and> scheduled_report_window (Aware 1709715600000000 0) ''weekly'' ''previous_period'' = Inr (s', e')
     \<and> s' = e"
proof -
  let ?t = "\<lparr>pt_hour = 9, pt_minute = 0, pt_second = 0, pt_microsecond = 0, pt_zoned = False\<rparr>"
  have t: "valid_pytime ?t" by (simp add: valid_pytime_def)
  have d: "period_due ''weekly'' 2 1 ?t 1709110800000000" by code_simp
  have r: "next_report_delivery (Aware 1709110800000000 0) ''weekly'' ?t 2 1 = Inr 1709715600000000"
    by code_simp
  have w: "scheduled_report_window (Aware 1709110800000000 0) ''weekly'' ''previous_period'' =
     Inr (1708300800000000, 1708905600000000)" by code_simp
  have w': "scheduled_report_window (Aware 1709715600000000 0) ''weekly'' ''previous_period'' =
     Inr (1708905600000000, 1709510400000000)" by code_simp
  from consecutive_windows_meet [OF t d r w w'] w w' show ?thesis by blast
qed

text \<open>The retry delay stays between five minutes and a day (plus at most a minute of jitter)
  and never shrinks as failures accumulate, whatever the digest of the report id.\<close>

theorem scheduled_report_retry_backoff:
  assumes "scheduled_report_retry_at sha256 failed_at m report_id = Inr t"
    and "scheduled_report_retry_at sha256 failed_at n report_id = Inr u" and "m \<le> n"
  shows "as_utc failed_at + seconds 300 \<le> t \<and> t \<le> u \<and> u \<le> as_utc failed_at + seconds (86400 + 60)"
proof -
  have "(2::int) ^ nat (min m 16) \<le> 2 ^ nat (min n 16)"
    using assms(3) by (intro power_increasing) auto
  then have "t \<le> u" using assms(1,2)
    by (auto simp: scheduled_report_retry_at_def Let_def seconds_def usec_per_second_def min_le_iff_disj
        split: if_splits)
  then show ?thesis using scheduled_report_retry_range [OF assms(1)] scheduled_report_retry_range [OF assms(2)]
    by simp
qed

theorem scheduled_report_retry_backoff_witness:
  "as_utc (Aware 0 0) + seconds 300 \<le> 1210000000 \<and> (1210000000::int) \<le> 2410000000"
proof -
  have a: "scheduled_report_retry_at (\<lambda>_. [0, 10]) (Aware 0 0) 2 ''r'' = Inr 1210000000" by code_simp
  have b: "scheduled_report_retry_at (\<lambda>_. [0, 10]) (Aware 0 0) 3 ''r'' = Inr 2410000000" by code_simp
  from scheduled_report_retry_backoff [OF a b] show ?thesis by simp
qed

end
