(* ===== verification/Money.thy ===== *)
theory Money
  imports Complex_Main Prelude
begin

section \<open>Decimal amounts\<close>

text \<open>
  Python's \<open>Decimal\<close> in its default context (28 significant digits, ties to even) and the
  rounding of PostgreSQL's \<open>NUMERIC(p,2)\<close> columns (ties away from zero).  Amounts are
  rationals; \<open>sig_round\<close> is what the context does to the exact result of an operation.
\<close>

definition round_half_even :: "rat \<Rightarrow> int" where
  "round_half_even x =
     (let f = \<lfloor>x\<rfloor>; d = x - of_int f
      in if d < 1 / 2 \<or> (d = 1 / 2 \<and> f mod 2 = 0) then f else f + 1)"

text \<open>\<open>x.quantize(Decimal("0.01"))\<close>.\<close>

definition quantize_cents :: "rat \<Rightarrow> rat" where
  "quantize_cents x = of_int (round_half_even (x * 100)) / 100"

text \<open>What a \<open>NUMERIC(14,2)\<close> column stores.\<close>

definition numeric_cents :: "rat \<Rightarrow> rat" where
  "numeric_cents x = (if 0 \<le> x then of_int \<lfloor>x * 100 + 1 / 2\<rfloor> else - of_int \<lfloor>- x * 100 + 1 / 2\<rfloor>) / 100"

fun digit_count :: "nat \<Rightarrow> nat" where
  "digit_count n = (if n < 10 then 1 else Suc (digit_count (n div 10)))"

declare digit_count.simps [simp del]

definition ten_power :: "int \<Rightarrow> rat" where
  "ten_power k = (if 0 \<le> k then 10 ^ nat k else 1 / 10 ^ nat (- k))"

text \<open>The exponent of the leading digit: \<open>10^e <= |x| < 10^(e+1)\<close>.\<close>

definition leading_exponent :: "rat \<Rightarrow> int" where
  "leading_exponent x =
     (let (p, q) = quotient_of \<bar>x\<bar>;
          e = int (digit_count (nat p)) - int (digit_count (nat q))
      in if \<bar>x\<bar> < ten_power e then e - 1 else e)"

definition sig_round :: "rat \<Rightarrow> rat" where
  "sig_round x =
     (if x = 0 then 0
      else let k = 27 - leading_exponent x
           in of_int (round_half_even (x * ten_power k)) / ten_power k)"

definition dec_mult :: "rat \<Rightarrow> rat \<Rightarrow> rat" where "dec_mult x y = sig_round (x * y)"
definition dec_div :: "rat \<Rightarrow> rat \<Rightarrow> rat" where "dec_div x y = sig_round (x / y)"
definition dec_add :: "rat \<Rightarrow> rat \<Rightarrow> rat" where "dec_add x y = sig_round (x + y)"

lemma round_half_even_near: "\<bar>of_int (round_half_even x) - x\<bar> \<le> 1 / 2"
proof -
  have f: "of_int \<lfloor>x\<rfloor> \<le> x" "x < of_int \<lfloor>x\<rfloor> + 1" by linarith+
  have "round_half_even x = \<lfloor>x\<rfloor> \<and> x - of_int \<lfloor>x\<rfloor> \<le> 1 / 2 \<or>
      round_half_even x = \<lfloor>x\<rfloor> + 1 \<and> 1 / 2 \<le> x - of_int \<lfloor>x\<rfloor>"
    by (auto simp: round_half_even_def Let_def)
  with f show ?thesis by (auto simp: abs_le_iff)
qed

lemma quantize_cents_near: "\<bar>quantize_cents x - x\<bar> \<le> 1 / 200"
proof -
  have "quantize_cents x * 100 = of_int (round_half_even (x * 100))" by (simp add: quantize_cents_def)
  with round_half_even_near [of "x * 100"] have "\<bar>quantize_cents x * 100 - x * 100\<bar> \<le> 1 / 2"
    by simp
  then show ?thesis by linarith
qed

lemma round_half_even_nonneg: "0 \<le> x \<Longrightarrow> 0 \<le> round_half_even x"
  by (auto simp: round_half_even_def Let_def)

lemma quantize_cents_nonneg: "0 \<le> x \<Longrightarrow> 0 \<le> quantize_cents x"
  by (simp add: quantize_cents_def round_half_even_nonneg)

lemma ten_power_pos: "0 < ten_power k"
  by (simp add: ten_power_def)

lemma sig_round_nonneg: "0 \<le> x \<Longrightarrow> 0 \<le> sig_round x"
  by (simp add: sig_round_def Let_def round_half_even_nonneg ten_power_pos less_imp_le)

lemma round_half_even_int: "round_half_even (of_int k) = k"
  by (simp add: round_half_even_def)

lemma numeric_cents_near: "\<bar>numeric_cents x - x\<bar> \<le> 1 / 200"
proof -
  have n: "\<bar>of_int \<lfloor>y * 100 + 1 / 2\<rfloor> / 100 - y\<bar> \<le> 1 / 200" for y :: rat
  proof -
    have "of_int \<lfloor>y * 100 + 1 / 2\<rfloor> \<le> y * 100 + 1 / 2" "y * 100 + 1 / 2 < of_int \<lfloor>y * 100 + 1 / 2\<rfloor> + 1"
      by linarith+
    then have "of_int \<lfloor>y * 100 + 1 / 2\<rfloor> / 100 - y \<le> 1 / 200"
      and "- (of_int \<lfloor>y * 100 + 1 / 2\<rfloor> / 100 - y) \<le> 1 / 200" by linarith+
    then show ?thesis by (rule abs_leI)
  qed
  show ?thesis
  proof (cases "0 \<le> x")
    case True
    with n [of x] show ?thesis by (simp add: numeric_cents_def)
  next
    case False
    have "numeric_cents x - x = - (of_int \<lfloor>- x * 100 + 1 / 2\<rfloor> / 100 - (- x))"
      using False by (simp add: numeric_cents_def)
    with n [of "- x"] show ?thesis by (simp only: abs_minus_cancel)
  qed
qed

end
