(* ===== verification/Schema.thy ===== *)
theory Schema
  imports Complex_Main Calendar
begin

section \<open>The tables of the database\<close>

text \<open>
  The rows of the PostgreSQL tables the modelled repositories read and write, as
  \<open>api/migrations.py\<close> creates them (columns no modelled statement touches are
  left out), and the record \<open>db\<close> of all tables.  A table is the list of its rows in
  insertion order.  Amounts (\<open>NUMERIC\<close>, \<open>Decimal\<close>) are rationals.  Row ids are the
  \<open>uuid.uuid4()\<close> values the code draws, given to each operation as an argument, as is
  the clock.  Foreign keys are not modelled.
\<close>

subsection \<open>People, projects and devices\<close>

datatype role = Admin | Manager | Member | Viewer

datatype tracker_kind = Desktop | Mobile | Web

record user =
  us_id :: uuid
  us_email :: string
  us_full_name :: string
  us_role :: role
  us_enabled :: bool
  us_daily_limit :: int
  us_weekly_limit :: int
  us_pay_rate :: rat
  us_require_approval :: bool

record device =
  dv_id :: uuid
  dv_owner :: "uuid option"
  dv_project :: "uuid option"
  dv_enabled :: bool
  dv_kind :: tracker_kind

record project =
  pr_id :: uuid
  pr_name :: string
  pr_enabled :: bool

record project_member =
  pm_project :: uuid
  pm_user :: uuid
  pm_role :: string

record task =
  tk_id :: uuid
  tk_project :: uuid
  tk_name :: string
  tk_description :: string
  tk_billable :: bool
  tk_status :: string
  tk_created_by :: uuid
  tk_read_only :: bool

subsection \<open>Tracked time\<close>

datatype session_status = Active | Paused | Stopped

record work_session =
  ws_id :: uuid
  ws_user :: "uuid option"
  ws_device :: uuid
  ws_project :: "uuid option"
  ws_task :: "uuid option"
  ws_status :: session_status
  ws_note :: string
  ws_started :: timestamp
  ws_ended :: "timestamp option"
  ws_created :: timestamp
  ws_updated :: timestamp

record segment =
  sg_id :: uuid
  sg_session :: uuid
  sg_started :: timestamp
  sg_ended :: "timestamp option"

record work_break =
  wb_id :: uuid
  wb_user :: uuid
  wb_session :: "uuid option"
  wb_started :: timestamp
  wb_ended :: "timestamp option"
  wb_paid :: bool

record state_event =
  ev_id :: uuid
  ev_device :: uuid
  ev_observed :: timestamp
  ev_received :: timestamp
  ev_status :: session_status
  ev_task :: "uuid option"
  ev_project :: "uuid option"
  ev_note :: string
  ev_idle :: int
  ev_heartbeat :: int
  ev_session :: "uuid option"

subsection \<open>Timesheets and requests for approval\<close>

datatype sheet_status = Open | Submitted | Approved | Rejected

record timesheet =
  sh_id :: uuid
  sh_user :: uuid
  sh_start :: date
  sh_end :: date
  sh_status :: sheet_status
  sh_submitted :: "timestamp option"
  sh_reviewed :: "timestamp option"
  sh_reviewer :: "uuid option"
  sh_note :: string
  sh_created :: timestamp
  sh_updated :: timestamp

text \<open>Rows of \<open>manual_time_entries\<close>, \<open>time_off_requests\<close> and \<open>expenses\<close>; their
  status is the text the code writes.\<close>

record manual_entry =
  me_id :: uuid
  me_user :: uuid
  me_project :: uuid
  me_task :: "uuid option"
  me_started :: timestamp
  me_ended :: timestamp
  me_note :: string
  me_status :: string
  me_reviewer :: "uuid option"
  me_reviewed :: "timestamp option"

record time_off =
  to_id :: uuid
  to_user :: uuid
  to_category :: string
  to_starts :: date
  to_ends :: date
  to_minutes :: int
  to_reason :: string
  to_status :: string
  to_reviewer :: "uuid option"
  to_reviewed :: "timestamp option"

record expense =
  ex_id :: uuid
  ex_user :: uuid
  ex_project :: "uuid option"
  ex_incurred :: date
  ex_category :: string
  ex_amount :: rat
  ex_currency :: string
  ex_description :: string
  ex_status :: string
  ex_reviewer :: "uuid option"
  ex_reviewed :: "timestamp option"

record shift =
  sf_id :: uuid
  sf_user :: uuid
  sf_project :: "uuid option"
  sf_starts :: timestamp
  sf_ends :: timestamp
  sf_notes :: string
  sf_created_by :: uuid
  sf_created :: timestamp

record holiday =
  hd_id :: uuid
  hd_name :: string
  hd_date :: date
  hd_paid_minutes :: int
  hd_created :: timestamp

record notification =
  nt_id :: uuid
  nt_user :: uuid
  nt_kind :: string
  nt_title :: string
  nt_body :: string
  nt_created :: timestamp

subsection \<open>Policies\<close>

record organization =
  og_allowed_apps :: string
  og_pay_period :: string
  og_week_starts_on :: int
  og_overtime_enabled :: bool
  og_weekly_overtime_minutes :: int
  og_overtime_multiplier :: rat
  og_timezone :: string

record tracking_override =
  tr_user :: uuid
  tr_allowed_apps :: "string option"

subsection \<open>Money\<close>

datatype pay_status = Draft | Processing | Paid | Failed | Reversed

text \<open>A client invoice: its status is the text the code writes.\<close>

record client_invoice =
  ci_id :: uuid
  ci_status :: string

record payroll_payment =
  pp_id :: uuid
  pp_user :: uuid
  pp_start :: date
  pp_end :: date
  pp_regular :: int
  pp_overtime :: int
  pp_rate :: rat
  pp_multiplier :: rat
  pp_gross :: rat
  pp_currency :: string
  pp_provider :: string
  pp_recipient :: string
  pp_recipient_currency :: string
  pp_timesheet :: "uuid option"
  pp_delivery_started :: "timestamp option"
  pp_status :: pay_status
  pp_reference :: string
  pp_failure :: string
  pp_paid_at :: "timestamp option"
  pp_reversed_at :: "timestamp option"
  pp_next_reconcile :: "timestamp option"
  pp_reconcile_until :: "timestamp option"
  pp_attempts :: int
  pp_last_error :: string
  pp_event_at :: "timestamp option"
  pp_provider_status :: string
  pp_failure_code :: string
  pp_failure_description :: string
  pp_updated :: timestamp

record payroll_destination =
  pd_user :: uuid
  pd_provider :: string
  pd_recipient :: string
  pd_currency :: string

datatype invoice_status = Invoice_Draft | Invoice_Submitted | Partially_Paid | Invoice_Paid | Invoice_Void

record team_invoice =
  ti_id :: uuid
  ti_number :: string
  ti_user :: uuid
  ti_issued :: date
  ti_due :: date
  ti_status :: invoice_status
  ti_currency :: string
  ti_purchase_order :: string
  ti_notes :: string
  ti_paid :: rat
  ti_submitted :: "timestamp option"
  ti_document_key :: string
  ti_document_version :: "string option"
  ti_document_sha256 :: string
  ti_sealed :: "timestamp option"
  ti_created :: timestamp
  ti_updated :: timestamp

record invoice_line =
  il_id :: uuid
  il_invoice :: uuid
  il_project :: "uuid option"
  il_description :: string
  il_quantity :: rat
  il_price :: rat
  il_tracked :: bool
  il_start :: "date option"
  il_end :: "date option"

text \<open>Tracked time an invoice line bills: a segment or a manual entry, at most once.\<close>

datatype source_kind = Segment_Source | Manual_Source

record time_source =
  so_line :: uuid
  so_kind :: source_kind
  so_id :: uuid
  so_seconds :: int

record invoice_payment =
  ip_id :: uuid
  ip_invoice :: uuid
  ip_amount :: rat
  ip_paid_on :: date
  ip_reference :: string
  ip_recorder :: uuid
  ip_created :: timestamp

record audit_event =
  au_action :: string
  au_target :: uuid
  au_details :: string

subsection \<open>All tables\<close>

record db =
  users :: "user list"
  devices :: "device list"
  projects :: "project list"
  project_members :: "project_member list"
  tasks :: "task list"
  sessions :: "work_session list"
  segments :: "segment list"
  breaks :: "work_break list"
  state_events :: "state_event list"
  timesheets :: "timesheet list"
  manual_entries :: "manual_entry list"
  time_off_requests :: "time_off list"
  expenses :: "expense list"
  shifts :: "shift list"
  holidays :: "holiday list"
  notifications :: "notification list"
  settings :: organization
  overrides :: "tracking_override list"
  payrolls :: "payroll_payment list"
  destinations :: "payroll_destination list"
  client_invoices :: "client_invoice list"
  team_invoices :: "team_invoice list"
  invoice_lines :: "invoice_line list"
  time_sources :: "time_source list"
  invoice_payments :: "invoice_payment list"
  audit :: "audit_event list"

text \<open>The database after the migrations, before any request.\<close>

definition empty_db :: db where
  "empty_db = \<lparr>users = [], devices = [], projects = [], project_members = [], tasks = [],
     sessions = [], segments = [], breaks = [], state_events = [], timesheets = [],
     manual_entries = [], time_off_requests = [], expenses = [], shifts = [], holidays = [], notifications = [],
     settings = \<lparr>og_allowed_apps = [], og_pay_period = ''weekly'', og_week_starts_on = 1,
       og_overtime_enabled = False, og_weekly_overtime_minutes = 2400, og_overtime_multiplier = 3 / 2,
       og_timezone = ''UTC''\<rparr>,
     overrides = [], payrolls = [], destinations = [], client_invoices = [], team_invoices = [],
     invoice_lines = [], time_sources = [], invoice_payments = [], audit = []\<rparr>"

end
