(* ===== verification/Timesheets.thy ===== *)
theory Timesheets
  imports Schema
begin

section \<open>Timesheets: pay periods, submission and review\<close>

text \<open>
  \<open>api/repositories/timesheets.py\<close> and \<open>api/services/timesheets.py\<close>.  A timesheet is
  opened for the current pay period, submitted by its owner, and approved or rejected by
  a reviewer; an approved sheet locks its days.  The life of a sheet is specified by the
  relation \<open>sheet_step\<close>; the operations refine it, and every sequence of operations
  keeps \<open>sheet_inv\<close> and every approved sheet.
\<close>

subsection \<open>Pay periods\<close>

text \<open>\<open>d.replace(day=k)\<close>.\<close>

definition replace_day :: "date \<Rightarrow> int \<Rightarrow> date" where
  "replace_day d k = ymd2ord (year_of d) (month_of d) k"

definition biweekly_anchor :: date where
  "biweekly_anchor = ymd2ord 1970 1 5"

definition week_first_day :: "int \<Rightarrow> int" where
  "week_first_day week_start = (if week_start = 0 then 6 else week_start - 1)"

definition pay_period :: "string \<Rightarrow> int \<Rightarrow> date \<Rightarrow> date \<times> date" where
  "pay_period frequency week_starts_on today =
     (if frequency = ''monthly'' then
        let period_start = replace_day today 1;
            next_month = replace_day (replace_day period_start 28 + 4) 1
        in (period_start, next_month - 1)
      else if frequency = ''biweekly'' then
        let period_start = biweekly_anchor + ((today - biweekly_anchor) div 14) * 14
        in (period_start, period_start + 13)
      else
        let period_start =
              today - (weekday today - week_first_day week_starts_on) mod 7
        in (period_start, period_start + 6))"

subsection \<open>Repository operations\<close>

text \<open>\<open>INSERT INTO timesheets\<close>: the table's CHECK, PRIMARY KEY and UNIQUE constraints.\<close>

definition insert_timesheet :: "timesheet \<Rightarrow> db \<Rightarrow> error + db" where
  "insert_timesheet s db =
     (if sh_end s < sh_start s \<or> 31 < sh_end s - sh_start s then Inl CheckViolation
      else if exists_row (\<lambda>r. sh_id r = sh_id s \<or>
             (sh_user r = sh_user s \<and> sh_start r = sh_start s \<and> sh_end r = sh_end s)) (timesheets db)
      then Inl UniqueViolation
      else Inr (db\<lparr>timesheets := timesheets db @ [s]\<rparr>))"

text \<open>The rows the two \<open>INSERT\<close> statements write, and what the two \<open>UPDATE\<close> statements set.\<close>

definition new_sheet ::
  "uuid \<Rightarrow> uuid \<Rightarrow> date \<Rightarrow> date \<Rightarrow> sheet_status \<Rightarrow> timestamp option \<Rightarrow> timestamp \<Rightarrow> timesheet" where
  "new_sheet new_id user_id period_start period_end status submitted_at now =
     \<lparr>sh_id = new_id, sh_user = user_id, sh_start = period_start, sh_end = period_end,
      sh_status = status, sh_submitted = submitted_at, sh_reviewed = None, sh_reviewer = None,
      sh_note = [], sh_created = now, sh_updated = now\<rparr>"

definition mark_submitted :: "timestamp \<Rightarrow> timesheet \<Rightarrow> timesheet" where
  "mark_submitted now r =
     r\<lparr>sh_status := Submitted, sh_submitted := Some now, sh_reviewed := None,
       sh_reviewer := None, sh_note := [], sh_updated := now\<rparr>"

definition mark_reviewed :: "sheet_status \<Rightarrow> uuid \<Rightarrow> string \<Rightarrow> timestamp \<Rightarrow> timesheet \<Rightarrow> timesheet" where
  "mark_reviewed status reviewer note now r =
     r\<lparr>sh_status := status, sh_reviewed := Some now, sh_reviewer := Some reviewer,
       sh_note := take 500 (strip note), sh_updated := now\<rparr>"

text \<open>The loop of \<open>generate_open_timesheets\<close>: one \<open>INSERT ... ON CONFLICT DO NOTHING\<close> per
  member; \<open>draw i\<close> is the id drawn in round \<open>i\<close>.\<close>

fun open_sheets ::
  "(nat \<Rightarrow> uuid) \<Rightarrow> date \<Rightarrow> date \<Rightarrow> timestamp \<Rightarrow> nat \<Rightarrow> user list \<Rightarrow> db \<Rightarrow> nat \<Rightarrow> error + (db \<times> nat)" where
  "open_sheets draw period_start period_end now i [] db created = Inr (db, created)"
| "open_sheets draw period_start period_end now i (u # us) db created =
     (if exists_row (\<lambda>r. sh_user r = us_id u \<and> sh_start r = period_start \<and> sh_end r = period_end)
           (timesheets db)
      then open_sheets draw period_start period_end now (Suc i) us db created
      else case insert_timesheet (new_sheet (draw i) (us_id u) period_start period_end Open None now) db of
             Inl e \<Rightarrow> Inl e
           | Inr db' \<Rightarrow> open_sheets draw period_start period_end now (Suc i) us db' (Suc created))"

definition generate_open_timesheets ::
  "date \<Rightarrow> timestamp \<Rightarrow> (nat \<Rightarrow> uuid) \<Rightarrow> db \<Rightarrow> error + (db \<times> nat)" where
  "generate_open_timesheets today now draw db =
     (let (period_start, period_end) =
            pay_period (og_pay_period (settings db)) (og_week_starts_on (settings db)) today
      in open_sheets draw period_start period_end now 0
           (filter (\<lambda>u. us_enabled u \<and> us_require_approval u) (users db)) db 0)"

definition has_open_session :: "uuid \<Rightarrow> db \<Rightarrow> bool" where
  "has_open_session user_id db \<longleftrightarrow>
     exists_row (\<lambda>w. ws_user w = Some user_id \<and> ws_status w \<in> {Active, Paused}) (sessions db)"

definition pending_manual :: "uuid \<Rightarrow> date \<Rightarrow> date \<Rightarrow> db \<Rightarrow> bool" where
  "pending_manual user_id period_start period_end db \<longleftrightarrow>
     exists_row (\<lambda>m. me_user m = user_id \<and> me_status m = ''pending'' \<and>
       period_start \<le> date_of (me_started m) \<and> date_of (me_started m) \<le> period_end) (manual_entries db)"

definition pending_time_off :: "uuid \<Rightarrow> date \<Rightarrow> date \<Rightarrow> db \<Rightarrow> bool" where
  "pending_time_off user_id period_start period_end db \<longleftrightarrow>
     exists_row (\<lambda>t. to_user t = user_id \<and> to_status t = ''pending'' \<and>
       to_starts t \<le> period_end \<and> period_start \<le> to_ends t) (time_off_requests db)"

definition submit_timesheet ::
  "uuid \<Rightarrow> date \<Rightarrow> date \<Rightarrow> timestamp \<Rightarrow> uuid \<Rightarrow> db \<Rightarrow> error + (db \<times> uuid)" where
  "submit_timesheet user_id period_start period_end now new_id db =
     (if has_open_session user_id db then
        Inl (ValueError ''Stop the active work session before submitting'')
      else if pending_manual user_id period_start period_end db \<or>
              pending_time_off user_id period_start period_end db then
        Inl (ValueError ''Resolve pending manual-time and time-off requests before submitting'')
      else
        case find (\<lambda>r. sh_user r = user_id \<and> sh_start r = period_start \<and> sh_end r = period_end)
               (timesheets db) of
          Some existing \<Rightarrow>
            (if sh_status existing = Approved then Inl (ValueError ''Approved timesheets are locked'')
             else Inr (db\<lparr>timesheets := update_where (\<lambda>r. sh_id r = sh_id existing) (mark_submitted now)
                    (timesheets db)\<rparr>, sh_id existing))
        | None \<Rightarrow>
            (case insert_timesheet (new_sheet new_id user_id period_start period_end Submitted (Some now) now) db of
               Inl e \<Rightarrow> Inl e
             | Inr db' \<Rightarrow> Inr (db', new_id)))"

definition decision_status :: "string \<Rightarrow> sheet_status option" where
  "decision_status decision =
     (if decision = ''approved'' then Some Approved
      else if decision = ''rejected'' then Some Rejected else None)"

definition review_timesheet ::
  "uuid \<Rightarrow> uuid \<Rightarrow> string \<Rightarrow> string \<Rightarrow> timestamp \<Rightarrow> db \<Rightarrow> error + db" where
  "review_timesheet timesheet_id reviewer decision note now db =
     (case decision_status decision of
        None \<Rightarrow> Inl (ValueError ''Decision must be approved or rejected'')
      | Some status \<Rightarrow>
          (case find (\<lambda>r. sh_id r = timesheet_id) (timesheets db) of
             None \<Rightarrow> Inl (ValueError ''Timesheet not found'')
           | Some current \<Rightarrow>
               if sh_status current \<noteq> Submitted then
                 Inl (ValueError ''Only submitted timesheets can be reviewed'')
               else Inr (db\<lparr>timesheets := update_where (\<lambda>r. sh_id r = timesheet_id)
                      (mark_reviewed status reviewer note now) (timesheets db)\<rparr>)))"

definition get_timesheet :: "uuid \<Rightarrow> db \<Rightarrow> timesheet option" where
  "get_timesheet timesheet_id db = find (\<lambda>r. sh_id r = timesheet_id) (timesheets db)"

definition is_period_locked :: "uuid \<Rightarrow> date \<Rightarrow> db \<Rightarrow> bool" where
  "is_period_locked user_id work_date db \<longleftrightarrow>
     exists_row (\<lambda>r. sh_user r = user_id \<and> sh_status r = Approved \<and>
       sh_start r \<le> work_date \<and> work_date \<le> sh_end r) (timesheets db)"

subsection \<open>The service\<close>

text \<open>\<open>TimesheetService.parse_period\<close>; the arguments are what \<open>date.fromisoformat\<close> makes of
  the two strings (\<open>None\<close> where it raises).\<close>

definition parse_period :: "date option \<Rightarrow> date option \<Rightarrow> error + (date \<times> date)" where
  "parse_period start_date end_date =
     (case (start_date, end_date) of
        (Some s, Some e) \<Rightarrow>
          (if e < s then Inl (ValueError ''Period end cannot be before its start'')
           else if 31 < e - s then Inl (ValueError ''A timesheet period cannot exceed 32 days'')
           else Inr (s, e))
      | _ \<Rightarrow> Inl (ValueError ''Enter valid start and end dates''))"

definition add_audit_event :: "string \<Rightarrow> uuid \<Rightarrow> string \<Rightarrow> db \<Rightarrow> db" where
  "add_audit_event action target details db =
     db\<lparr>audit := audit db @ [\<lparr>au_action = action, au_target = target, au_details = details\<rparr>]\<rparr>"

text \<open>\<open>isoformat\<close> is \<open>date.isoformat\<close>, used for the text of the audit record only.\<close>

definition service_submit ::
  "(date \<Rightarrow> string) \<Rightarrow> uuid \<Rightarrow> date option \<Rightarrow> date option \<Rightarrow> timestamp \<Rightarrow> uuid \<Rightarrow> db \<Rightarrow> error + (db \<times> uuid)" where
  "service_submit isoformat user_id start_date end_date now new_id db =
     (case parse_period start_date end_date of
        Inl e \<Rightarrow> Inl e
      | Inr (s, e) \<Rightarrow>
          (case submit_timesheet user_id s e now new_id db of
             Inl err \<Rightarrow> Inl err
           | Inr (db', sheet) \<Rightarrow>
               Inr (add_audit_event ''timesheet.submitted'' sheet
                      (isoformat s @ ''..'' @ isoformat e) db', sheet)))"

definition service_review ::
  "uuid \<Rightarrow> uuid \<Rightarrow> string \<Rightarrow> string \<Rightarrow> timestamp \<Rightarrow> db \<Rightarrow> error + db" where
  "service_review admin timesheet_id decision note now db =
     (case review_timesheet timesheet_id admin decision note now db of
        Inl e \<Rightarrow> Inl e
      | Inr db' \<Rightarrow> Inr (add_audit_event (''timesheet.'' @ decision) timesheet_id note db'))"

text \<open>The operations of the component, for statements about sequences of them.\<close>

datatype sheet_op =
    Generate date timestamp "nat \<Rightarrow> uuid"
  | Submit uuid "date option" "date option" timestamp uuid
  | Review uuid uuid string string timestamp

fun sheet_exec :: "(date \<Rightarrow> string) \<Rightarrow> sheet_op \<Rightarrow> db \<Rightarrow> error + db" where
  "sheet_exec isof (Generate today now draw) db =
     (case generate_open_timesheets today now draw db of Inl err \<Rightarrow> Inl err | Inr (db', _) \<Rightarrow> Inr db')"
| "sheet_exec isof (Submit user s e now new_id) db =
     (case service_submit isof user s e now new_id db of Inl err \<Rightarrow> Inl err | Inr (db', _) \<Rightarrow> Inr db')"
| "sheet_exec isof (Review admin sheet decision note now) db =
     service_review admin sheet decision note now db"

subsection \<open>What pay periods are\<close>

lemma mod_start:
  fixes today anchor n :: int
  assumes "0 < n" and p: "p = today - (today - anchor) mod n"
    and "p \<le> x" "x < p + n"
  shows "x - (x - anchor) mod n = p"
proof -
  have "(p - anchor) mod n = (today - anchor - (today - anchor) mod n) mod n"
    by (simp add: p algebra_simps)
  also have "\<dots> = 0" using mod_diff_right_eq [of "today - anchor" "today - anchor" n] by simp
  finally have "(x - anchor) mod n = (x - p + 0) mod n"
    using mod_add_right_eq [of "x - p" "p - anchor" n] by (simp add: algebra_simps)
  also have "\<dots> = x - p" using assms by simp
  finally show ?thesis by simp
qed

lemma biweekly_as_mod: "biweekly_anchor + (t - biweekly_anchor) div 14 * 14 = t - (t - biweekly_anchor) mod 14"
  using minus_mod_eq_div_mult [of "t - biweekly_anchor" 14] by (simp add: algebra_simps)

lemma weekly_as_mod: "t - (weekday t - w) mod 7 = t - (t - (w - 6)) mod 7"
  unfolding weekday_def using mod_diff_left_eq [of "t + 6" 7 w] by (simp add: algebra_simps)

text \<open>The last day of the month of a first of month, as the code finds it.\<close>

lemma replace_day_valid:
  assumes "1 \<le> k" "k \<le> 28"
  shows "year_of (replace_day d k) = year_of d" "month_of (replace_day d k) = month_of d"
    "day_of (replace_day d k) = k"
proof -
  have "valid_ymd (year_of d) (month_of d) k"
    using assms month_of_range [of d] days_in_month_range [of "year_of d" "month_of d"]
    by (simp add: valid_ymd_def)
  from date_of_ymd [OF this]
  show "year_of (replace_day d k) = year_of d" "month_of (replace_day d k) = month_of d"
    "day_of (replace_day d k) = k" by (simp_all add: replace_day_def)
qed

lemma first_of_next_month:
  assumes "1 \<le> m" "m \<le> 12" "(y', m') = (if m = 12 then (y + 1, 1) else (y, m + 1))"
  shows "ymd2ord y' m' 1 = ymd2ord y m 1 + days_in_month y m"
proof (cases "m = 12")
  case True
  with assms have e: "y' = y + 1" "m' = 1" by simp_all
  show ?thesis unfolding e True ymd2ord_def days_before_year_Suc
    using days_before_month_13 [of y]
    by (auto simp: days_before_month_def month_offset_def days_in_month_def split: if_splits)
next
  case False
  with assms have "y' = y" "m' = m + 1" "m \<le> 11" by auto
  with assms days_before_month_Suc [of m y] show ?thesis by (simp add: ymd2ord_def)
qed

lemma monthly_next:
  assumes p: "p = replace_day t 1"
  shows "replace_day (replace_day p 28 + 4) 1 = p + days_in_month (year_of t) (month_of t)"
proof -
  define y m where "y = year_of t" and "m = month_of t"
  define y' m' where "y' = (if m = 12 then y + 1 else y)" and "m' = (if m = 12 then 1 else m + 1)"
  have m: "1 \<le> m" "m \<le> 12" using month_of_range [of t] by (simp_all add: m_def)
  have p': "p = ymd2ord y m 1" "replace_day p 28 = ymd2ord y m 28"
    using replace_day_valid [of 1 t] by (simp_all add: p replace_day_def y_def m_def)
  have n: "ymd2ord y' m' 1 = p + days_in_month y m"
    using first_of_next_month [OF m, of y' m' y] by (simp add: p' y'_def m'_def)
  define k where "k = replace_day p 28 + 4 - ymd2ord y' m' 1 + 1"
  have "k = 33 - days_in_month y m - 1"
    using n unfolding k_def p'(2) by (simp add: p'(1)) (simp add: ymd2ord_def)
  then have "1 \<le> k" "k \<le> 28" using days_in_month_range [of y m] by simp_all
  then have "valid_ymd y' m' k"
    using m days_in_month_range [of y' m'] by (auto simp: valid_ymd_def m'_def)
  moreover have "replace_day p 28 + 4 = ymd2ord y' m' k" by (simp add: k_def ymd2ord_def)
  ultimately have "replace_day (replace_day p 28 + 4) 1 = ymd2ord y' m' 1"
    by (simp add: replace_day_def date_of_ymd)
  with n show ?thesis by (simp add: y_def m_def)
qed

lemma month_period:
  assumes p: "p = replace_day t 1" and x: "p \<le> x" "x < p + days_in_month (year_of t) (month_of t)"
  shows "replace_day x 1 = p \<and> year_of x = year_of t \<and> month_of x = month_of t"
proof -
  have "valid_ymd (year_of t) (month_of t) (x - p + 1)"
    using x month_of_range [of t] by (simp add: valid_ymd_def)
  moreover have "x = ymd2ord (year_of t) (month_of t) (x - p + 1)"
    by (simp add: p replace_day_def ymd2ord_def)
  ultimately have "year_of x = year_of t" "month_of x = month_of t" using date_of_ymd by metis+
  then show ?thesis by (simp add: p replace_day_def)
qed

lemma day_in_its_month:
  "replace_day t 1 \<le> t \<and> t < replace_day t 1 + days_in_month (year_of t) (month_of t)"
proof -
  have "t = replace_day t 1 + day_of t - 1" using ymd_of_date [of t]
    by (simp add: replace_day_def ymd2ord_def)
  with ymd_of_date [of t] show ?thesis by (simp add: valid_ymd_def)
qed

lemma pay_period_monthly:
  "pay_period ''monthly'' w t =
     (replace_day t 1, replace_day t 1 + days_in_month (year_of t) (month_of t) - 1)"
  by (simp add: pay_period_def Let_def monthly_next)

lemma pay_period_partition_lemma:
  assumes "pay_period f w t = (a, b)"
  shows "a \<le> t \<and> t \<le> b \<and> b \<le> a + 31 \<and> (\<forall>x. a \<le> x \<longrightarrow> x \<le> b \<longrightarrow> pay_period f w x = (a, b))"
proof -
  consider "f = ''monthly''" | "f = ''biweekly''" | "f \<noteq> ''monthly''" "f \<noteq> ''biweekly''" by blast
  then show ?thesis
  proof cases
    case 1
    with assms have ab: "a = replace_day t 1" "b = a + days_in_month (year_of t) (month_of t) - 1"
      by (simp_all add: pay_period_monthly)
    have "pay_period f w x = (a, b)" if "a \<le> x" "x \<le> b" for x
      using month_period [OF ab(1), of x] that 1 ab by (simp add: pay_period_monthly)
    then show ?thesis using day_in_its_month [of t] ab days_in_month_range [of "year_of t" "month_of t"]
      by auto
  next
    case 2
    with assms have ab: "a = t - (t - biweekly_anchor) mod 14" "b = a + 13"
      by (simp_all add: pay_period_def biweekly_as_mod Let_def)
    have "pay_period f w x = (a, b)" if "a \<le> x" "x \<le> b" for x
      using mod_start [OF _ ab(1), of x] that 2 ab by (simp add: pay_period_def biweekly_as_mod Let_def)
    moreover have "a \<le> t" "t \<le> b"
      using pos_mod_bound [of 14 "t - biweekly_anchor"] pos_mod_sign [of 14 "t - biweekly_anchor"] unfolding ab
      by linarith+
    ultimately show ?thesis using ab by auto
  next
    case 3
    define c where "c = week_first_day w - 6"
    from assms 3 have ab: "a = t - (t - c) mod 7" "b = a + 6"
      by (simp_all add: pay_period_def weekly_as_mod c_def Let_def)
    have "pay_period f w x = (a, b)" if "a \<le> x" "x \<le> b" for x
      using mod_start [OF _ ab(1), of x] that 3 ab by (simp add: pay_period_def weekly_as_mod c_def Let_def)
    moreover have "a \<le> t" "t \<le> b"
      using pos_mod_bound [of 7 "t - c"] pos_mod_sign [of 7 "t - c"] unfolding ab by linarith+
    ultimately show ?thesis using ab by auto
  qed
qed

text \<open>The pay period of a day contains the day, is at most 32 days long (a valid sheet period),
  and is the pay period of each of its days: the periods of a frequency partition the calendar.\<close>

theorem pay_period_partition:
  assumes "pay_period f w t = (a, b)"
  shows "a \<le> t \<and> t \<le> b \<and> parse_period (Some a) (Some b) = Inr (a, b) \<and>
    (\<forall>x. a \<le> x \<and> x \<le> b \<longrightarrow> pay_period f w x = (a, b))"
  using pay_period_partition_lemma [OF assms] by (auto simp: parse_period_def)

theorem pay_period_partition_witness:
  "pay_period ''monthly'' 0 (ymd2ord 2024 2 10) = (ymd2ord 2024 2 1, ymd2ord 2024 2 29) \<and>
   pay_period ''monthly'' 0 (ymd2ord 2024 2 29) = (ymd2ord 2024 2 1, ymd2ord 2024 2 29)"
proof -
  have e: "pay_period ''monthly'' 0 (ymd2ord 2024 2 10) = (ymd2ord 2024 2 1, ymd2ord 2024 2 29)"
    by code_simp
  have "ymd2ord 2024 2 1 \<le> ymd2ord 2024 2 29" by code_simp
  with e pay_period_partition [OF e] show ?thesis by blast
qed

subsection \<open>The life of a sheet\<close>

inductive sheet_step :: "timesheet \<Rightarrow> timesheet \<Rightarrow> bool" where
  submitted: "sh_status r \<noteq> Approved \<Longrightarrow>
    sheet_step r (mark_submitted now r)"
| reviewed: "sh_status r = Submitted \<Longrightarrow> decision_status decision = Some st \<Longrightarrow>
    sheet_step r (mark_reviewed st reviewer note now r)"

inductive_cases sheet_stepE: "sheet_step r r'"
lemmas sheet_row_defs = mark_submitted_def mark_reviewed_def new_sheet_def

text \<open>Every sheet of \<open>db\<close> is in \<open>db'\<close>, with its key, in a state it can reach.\<close>

definition sheets_evolve :: "db \<Rightarrow> db \<Rightarrow> bool" where
  "sheets_evolve db db' \<longleftrightarrow> (\<forall>r \<in> set (timesheets db). \<exists>r' \<in> set (timesheets db'). sheet_step\<^sup>*\<^sup>* r r')"

definition sheet_key :: "timesheet \<Rightarrow> uuid \<times> date \<times> date" where
  "sheet_key r = (sh_user r, sh_start r, sh_end r)"

definition sheet_ok :: "timesheet \<Rightarrow> bool" where
  "sheet_ok r \<longleftrightarrow> sh_start r \<le> sh_end r \<and> sh_end r - sh_start r \<le> 31
     \<and> (sh_submitted r = None \<longleftrightarrow> sh_status r = Open)
     \<and> (sh_reviewed r \<noteq> None \<longleftrightarrow> sh_status r \<in> {Approved, Rejected})
     \<and> (sh_reviewer r \<noteq> None \<longleftrightarrow> sh_status r \<in> {Approved, Rejected})
     \<and> length (sh_note r) \<le> 500"

definition sheet_inv :: "db \<Rightarrow> bool" where
  "sheet_inv db \<longleftrightarrow> distinct (map sh_id (timesheets db)) \<and> distinct (map sheet_key (timesheets db))
     \<and> (\<forall>r \<in> set (timesheets db). sheet_ok r)"

lemma decision_status_range: "decision_status d = Some st \<Longrightarrow> st \<in> {Approved, Rejected}"
  by (auto simp: decision_status_def split: if_splits)

lemma sheet_step_key: "sheet_step r r' \<Longrightarrow> sh_id r' = sh_id r \<and> sheet_key r' = sheet_key r"
  by (auto elim!: sheet_stepE simp: sheet_key_def sheet_row_defs)

lemma sheet_step_ok: "sheet_step r r' \<Longrightarrow> sheet_ok r \<Longrightarrow> sheet_ok r'"
  by (erule sheet_stepE) (auto simp: sheet_ok_def sheet_row_defs dest: decision_status_range)

lemma sheet_step_not_approved: "sheet_step r r' \<Longrightarrow> sh_status r \<noteq> Approved"
  by (auto elim: sheet_stepE)

lemma approved_final: "sheet_step\<^sup>*\<^sup>* r r' \<Longrightarrow> sh_status r = Approved \<Longrightarrow> r' = r"
  by (induction rule: converse_rtranclp_induct) (auto dest: sheet_step_not_approved)

lemma sheets_evolve_refl: "sheets_evolve db db"
  by (auto simp: sheets_evolve_def)

lemma sheets_evolve_trans: "sheets_evolve db db' \<Longrightarrow> sheets_evolve db' db'' \<Longrightarrow> sheets_evolve db db''"
  unfolding sheets_evolve_def by (meson rtranclp_trans)

text \<open>A step of one sheet, found by its id, is a step of the table.\<close>

lemma sheet_update:
  assumes inv: "sheet_inv db" and r: "find (\<lambda>q. P q) (timesheets db) = Some r"
    and s: "sheet_step r (f r)"
  shows "sheet_inv (db\<lparr>timesheets := update_where (\<lambda>q. sh_id q = sh_id r) f (timesheets db)\<rparr>)"
    and "sheets_evolve db (db\<lparr>timesheets := update_where (\<lambda>q. sh_id q = sh_id r) f (timesheets db)\<rparr>)"
proof -
  note in_t = find_in_set [OF r]
  have only: "q = r" if "q \<in> set (timesheets db)" "sh_id q = sh_id r" for q
    using inv in_t that distinct_key_eq [of sh_id "timesheets db" q r] by (simp add: sheet_inv_def)
  have st: "sheet_step q (f q)" if "q \<in> set (timesheets db)" "sh_id q = sh_id r" for q
    using only [OF that] s by simp
  have keys: "map sh_id (update_where (\<lambda>q. sh_id q = sh_id r) f (timesheets db)) = map sh_id (timesheets db)"
    "map sheet_key (update_where (\<lambda>q. sh_id q = sh_id r) f (timesheets db)) = map sheet_key (timesheets db)"
    using sheet_step_key [OF st] by (auto intro!: map_update_where)
  show "sheet_inv (db\<lparr>timesheets := update_where (\<lambda>q. sh_id q = sh_id r) f (timesheets db)\<rparr>)"
    using inv keys sheet_step_ok [OF st] by (auto simp: sheet_inv_def table_simps)
  show "sheets_evolve db (db\<lparr>timesheets := update_where (\<lambda>q. sh_id q = sh_id r) f (timesheets db)\<rparr>)"
    unfolding sheets_evolve_def
  proof
    fix q assume q: "q \<in> set (timesheets db)"
    show "\<exists>q' \<in> set (timesheets (db\<lparr>timesheets := update_where (\<lambda>q. sh_id q = sh_id r) f (timesheets db)\<rparr>)).
        sheet_step\<^sup>*\<^sup>* q q'"
    proof (cases "sh_id q = sh_id r")
      case True
      with q st [OF q] show ?thesis by (intro bexI [of _ "f q"]) (auto simp: table_simps)
    next
      case False
      with q show ?thesis by (intro bexI [of _ q]) (auto simp: table_simps)
    qed
  qed
qed

lemma insert_timesheet_inv:
  assumes "sheet_inv db" and "insert_timesheet r db = Inr db'"
    and "sheet_ok r \<or> sh_end r < sh_start r \<or> 31 < sh_end r - sh_start r"
  shows "sheet_inv db'" and "sheets_evolve db db'"
proof -
  have db': "db' = db\<lparr>timesheets := timesheets db @ [r]\<rparr>"
    and new: "sh_id r \<notin> sh_id ` set (timesheets db)" "sheet_key r \<notin> sheet_key ` set (timesheets db)"
    and ok: "sheet_ok r"
    using assms(2,3) by (auto simp: insert_timesheet_def sheet_key_def table_simps split: if_splits)
  show "sheet_inv db'" using assms(1) new ok by (simp add: sheet_inv_def db')
  show "sheets_evolve db db'" by (auto simp: sheets_evolve_def db')
qed

lemma insert_timesheet_ok_iff:
  "(\<exists>db'. insert_timesheet r db = Inr db') \<longleftrightarrow> sh_start r \<le> sh_end r \<and> sh_end r - sh_start r \<le> 31 \<and>
     sh_id r \<notin> sh_id ` set (timesheets db) \<and> sheet_key r \<notin> sheet_key ` set (timesheets db)"
  by (auto simp: insert_timesheet_def table_simps sheet_key_def image_iff eq_commute)

lemma open_sheets_inv:
  assumes "sheet_inv db" and "open_sheets draw a b now i us db n = Inr (db', n')"
  shows "sheet_inv db' \<and> sheets_evolve db db'"
  using assms
proof (induction draw a b now i us db n rule: open_sheets.induct)
  case (1 draw a b now i db n)
  then show ?case by (simp add: sheets_evolve_refl)
next
  case (2 draw a b now i u us db n)
  show ?case
  proof (cases "exists_row (\<lambda>r. sh_user r = us_id u \<and> sh_start r = a \<and> sh_end r = b) (timesheets db)")
    case True
    with 2 show ?thesis by simp
  next
    case False
    let ?r = "new_sheet (draw i) (us_id u) a b Open None now"
    from False 2(4) obtain db1 where ins: "insert_timesheet ?r db = Inr db1"
      and rest: "open_sheets draw a b now (Suc i) us db1 (Suc n) = Inr (db', n')"
      by (auto split: sum.splits)
    have ok: "sheet_ok ?r \<or> sh_end ?r < sh_start ?r \<or> 31 < sh_end ?r - sh_start ?r"
      by (auto simp: sheet_ok_def new_sheet_def)
    note i = insert_timesheet_inv [OF 2(3) ins ok]
    from 2(2) [OF False ins i(1) rest] i(2) show ?thesis by (blast intro: sheets_evolve_trans)
  qed
qed

lemma submit_timesheet_inv:
  assumes inv: "sheet_inv db" and r: "submit_timesheet u a b now new_id db = Inr (db', sheet)"
  shows "sheet_inv db' \<and> sheets_evolve db db'"
proof (cases "find (\<lambda>r. sh_user r = u \<and> sh_start r = a \<and> sh_end r = b) (timesheets db)")
  case None
  let ?r = "new_sheet new_id u a b Submitted (Some now) now"
  from None r have ins: "insert_timesheet ?r db = Inr db'"
    by (auto simp: submit_timesheet_def split: if_splits sum.splits)
  have ok: "sheet_ok ?r \<or> sh_end ?r < sh_start ?r \<or> 31 < sh_end ?r - sh_start ?r"
    by (auto simp: sheet_ok_def new_sheet_def)
  show ?thesis using insert_timesheet_inv [OF inv ins ok] by blast
next
  case (Some q)
  with r have na: "sh_status q \<noteq> Approved" and db': "db' = db\<lparr>timesheets := update_where (\<lambda>r. sh_id r = sh_id q)
                    (mark_submitted now)
                    (timesheets db)\<rparr>"
    by (auto simp: submit_timesheet_def split: if_splits)
  show ?thesis unfolding db'
    using sheet_update [OF inv Some, of "mark_submitted now"] sheet_step.submitted [OF na]
    by blast
qed

lemma review_timesheet_inv:
  assumes inv: "sheet_inv db" and r: "review_timesheet tid reviewer decision note now db = Inr db'"
  shows "sheet_inv db' \<and> sheets_evolve db db'"
proof -
  from r obtain st q where d: "decision_status decision = Some st"
    and f: "find (\<lambda>r. sh_id r = tid) (timesheets db) = Some q" and sub: "sh_status q = Submitted"
    and db': "db' = db\<lparr>timesheets := update_where (\<lambda>r. sh_id r = tid)
                      (mark_reviewed st reviewer note now) (timesheets db)\<rparr>"
    by (auto simp: review_timesheet_def split: option.splits if_splits)
  have id: "tid = sh_id q" using find_in_set [OF f] by simp
  show ?thesis unfolding db' unfolding id
    using sheet_update [OF inv f, of "mark_reviewed st reviewer note now"] sheet_step.reviewed [OF sub d]
    by blast
qed

lemma audit_frame [simp]:
  "timesheets (add_audit_event a b c db) = timesheets db"
  "sheet_inv (add_audit_event a b c db) = sheet_inv db"
  "sheets_evolve db (add_audit_event a b c db') = sheets_evolve db db'"
  by (simp_all add: add_audit_event_def sheet_inv_def sheets_evolve_def)

fun_cases exec_GenerateE: "sheet_exec isof (Generate today now draw) db = Inr db'"
fun_cases exec_SubmitE: "sheet_exec isof (Submit u a b now k) db = Inr db'"
fun_cases exec_ReviewE: "sheet_exec isof (Review ad tid d n now) db = Inr db'"

lemma generate_inv:
  assumes "sheet_inv db" and "generate_open_timesheets today now draw db = Inr (db', n)"
  shows "sheet_inv db' \<and> sheets_evolve db db'"
  using assms unfolding generate_open_timesheets_def
  by (auto simp: Let_def split: prod.splits dest: open_sheets_inv)

lemma service_submit_inv:
  assumes "sheet_inv db" and "service_submit isof u a b now k db = Inr (db', sheet)"
  shows "sheet_inv db' \<and> sheets_evolve db db'"
proof -
  from assms(2) obtain s e db1 where p: "parse_period a b = Inr (s, e)"
    and r: "submit_timesheet u s e now k db = Inr (db1, sheet)"
    and d: "db' = add_audit_event ''timesheet.submitted'' sheet (isof s @ ''..'' @ isof e) db1"
    by (auto simp: service_submit_def split: sum.splits)
  from submit_timesheet_inv [OF assms(1) r] show ?thesis unfolding d by simp
qed

lemma service_review_inv:
  "sheet_inv db \<Longrightarrow> service_review ad tid d n now db = Inr db' \<Longrightarrow> sheet_inv db' \<and> sheets_evolve db db'"
  by (auto simp: service_review_def split: sum.splits dest: review_timesheet_inv)

lemma sheet_exec_inv:
  assumes "sheet_inv db" and "sheet_exec isof c db = Inr db'"
  shows "sheet_inv db' \<and> sheets_evolve db db'"
proof (cases c)
  case (Generate today now draw)
  with assms show ?thesis by (auto elim!: exec_GenerateE split: sum.splits dest: generate_inv)
next
  case (Submit u a b now k)
  with assms show ?thesis
    by (auto elim!: exec_SubmitE split: sum.splits dest: service_submit_inv)
next
  case (Review ad tid d n now)
  with assms show ?thesis
    by (auto elim!: exec_ReviewE dest: service_review_inv)
qed

interpretation ts: transactional_order "sheet_exec isof" sheet_inv "\<lambda>_. True" sheets_evolve
  by unfold_locales (auto dest: sheet_exec_inv intro: sheets_evolve_refl sheets_evolve_trans)

lemma locked_stays_locked:
  assumes "sheet_inv db" and "is_period_locked u d db"
  shows "is_period_locked u d (exec_all (sheet_exec isof) cs db)"
proof -
  from assms(2) obtain r where r: "r \<in> set (timesheets db)" "sh_status r = Approved"
    "sh_user r = u" "sh_start r \<le> d" "d \<le> sh_end r"
    by (auto simp: is_period_locked_def table_simps)
  have "sheets_evolve db (exec_all (sheet_exec isof) cs db)"
    by (rule ts.exec_all_rel [OF assms(1)]) (simp add: list_all_iff)
  with r(1) obtain r' where "r' \<in> set (timesheets (exec_all (sheet_exec isof) cs db))"
    "sheet_step\<^sup>*\<^sup>* r r'" by (auto simp: sheets_evolve_def)
  with r approved_final [of r r'] show ?thesis by (auto simp: is_period_locked_def table_simps)
qed

text \<open>C35. Over any sequence of generate, submit and review requests, failed ones included, the
  table stays well formed (unique ids, one sheet per user and period, ordered periods, review
  data exactly on reviewed sheets), every sheet only moves along \<open>sheet_step\<close>, and a day that
  is locked by an approved sheet stays locked.\<close>

theorem timesheet_runs:
  assumes "sheet_inv db"
  shows "sheet_inv (exec_all (sheet_exec isof) cs db) \<and>
    (\<forall>r \<in> set (timesheets db). \<exists>r' \<in> set (timesheets (exec_all (sheet_exec isof) cs db)).
       sheet_step\<^sup>*\<^sup>* r r' \<and> (sh_status r = Approved \<longrightarrow> r' = r)) \<and>
    (is_period_locked u d db \<longrightarrow> is_period_locked u d (exec_all (sheet_exec isof) cs db))"
  using ts.exec_all_inv [OF assms, of cs isof] ts.exec_all_rel [OF assms, of cs isof]
    locked_stays_locked [OF assms, of u d isof cs] approved_final
  by (fastforce simp: list_all_iff sheets_evolve_def)

text \<open>C39. A submission succeeds exactly when the user has no open session, no pending
  manual-time or time-off request of the period, no approved sheet for it, and (for a new sheet)
  the period has at most 32 days; the sheet of the period is then the submitted one and every
  other sheet is as before.\<close>

theorem submit_ok_iff:
  assumes inv: "sheet_inv db" and fresh: "new_id \<notin> sh_id ` set (timesheets db)"
  shows "(\<exists>db' sheet. submit_timesheet u a b now new_id db = Inr (db', sheet)) \<longleftrightarrow>
     \<not> has_open_session u db \<and> \<not> pending_manual u a b db \<and> \<not> pending_time_off u a b db \<and>
     (u, a, b) \<notin> sheet_key ` {r \<in> set (timesheets db). sh_status r = Approved} \<and> a \<le> b \<and> b - a \<le> 31"
proof (cases "find (\<lambda>r. sh_user r = u \<and> sh_start r = a \<and> sh_end r = b) (timesheets db)")
  case None
  then have "(u, a, b) \<notin> sheet_key ` set (timesheets db)" by (auto simp: find_None_all sheet_key_def)
  note nokey = this
  have no: "(u, a, b) \<notin> sheet_key ` {r \<in> set (timesheets db). sh_status r = Approved}"
    using nokey by blast
  have "sheet_key (new_sheet new_id u a b Submitted (Some now) now) = (u, a, b)"
    by (simp add: sheet_key_def new_sheet_def)
  then have ins: "(\<exists>db'. insert_timesheet (new_sheet new_id u a b Submitted (Some now) now) db = Inr db')
      \<longleftrightarrow> a \<le> b \<and> b - a \<le> 31"
    unfolding insert_timesheet_ok_iff using fresh nokey by (simp add: new_sheet_def)
  show ?thesis unfolding ins [symmetric] submit_timesheet_def None
    using no by (cases "insert_timesheet (new_sheet new_id u a b Submitted (Some now) now) db") simp_all
next
  case (Some r)
  have r: "r \<in> set (timesheets db)" "sheet_key r = (u, a, b)"
    using find_in_set [OF Some] by (auto simp: sheet_key_def)
  have one: "q = r" if "q \<in> set (timesheets db)" "sheet_key q = (u, a, b)" for q
    using inv r that distinct_key_eq [of sheet_key "timesheets db" q r] by (simp add: sheet_inv_def)
  have "(u, a, b) \<in> sheet_key ` {r \<in> set (timesheets db). sh_status r = Approved} \<longleftrightarrow> sh_status r = Approved"
    using one r by (metis (mono_tags, lifting) imageE image_eqI mem_Collect_eq)
  moreover have "a \<le> b \<and> b - a \<le> 31"
    using inv r by (auto simp: sheet_inv_def sheet_ok_def sheet_key_def)
  ultimately show ?thesis unfolding submit_timesheet_def Some by simp
qed

definition sample_sheets :: db where
  "sample_sheets = empty_db\<lparr>timesheets :=
     [(new_sheet ''s1'' ''u'' 738000 738006 Submitted (Some 5) 5)
        \<lparr>sh_status := Approved, sh_reviewed := Some 9, sh_reviewer := Some ''m''\<rparr>,
      new_sheet ''s2'' ''u'' 738007 738013 Open None 5]\<rparr>"

theorem timesheet_runs_witness:
  "is_period_locked ''u'' 738003 (exec_all (sheet_exec (\<lambda>_. []))
     [Submit ''u'' (Some 738000) (Some 738006) 20 ''s3'', Submit ''u'' (Some 738007) (Some 738013) 20 ''s4'',
      Review ''m'' ''s2'' ''approved'' [] 30] sample_sheets)"
proof -
  have "sheet_inv sample_sheets" and "is_period_locked ''u'' 738003 sample_sheets" by code_simp+
  then show ?thesis using timesheet_runs [of sample_sheets "\<lambda>_. []"] by blast
qed

theorem submit_ok_iff_witness:
  "(\<exists>db' sheet. submit_timesheet ''u'' 738007 738013 20 ''s3'' sample_sheets = Inr (db', sheet))"
proof -
  have "sheet_inv sample_sheets" and "''s3'' \<notin> sh_id ` set (timesheets sample_sheets)"
    and "\<not> has_open_session ''u'' sample_sheets" "\<not> pending_manual ''u'' 738007 738013 sample_sheets"
    "\<not> pending_time_off ''u'' 738007 738013 sample_sheets"
    "(''u'', 738007, 738013) \<notin> sheet_key ` {r \<in> set (timesheets sample_sheets). sh_status r = Approved}"
    by code_simp+
  then show ?thesis
    using submit_ok_iff [of sample_sheets "''s3''" "''u''" 738007 738013 20] by simp
qed

end
