(* ===== verification/Work_Sessions.thy ===== *)
theory Work_Sessions
  imports Timesheets
begin

section \<open>Work sessions: the timers of the devices\<close>

text \<open>
  \<open>api/repositories/work.py\<close>, with the operations of the accounts, devices, projects and
  workforce repositories that end work.  A session is the stretch of time a device works on
  one project and task; its segments are the intervals the timer actually ran.  Devices
  report their state in events that may be replayed, late or repeated.

  \<open>timer\<close> is the abstract view: what each device is doing now.  \<open>work_inv\<close> is the
  invariant every operation keeps.  The clock is read once per operation; ties of
  \<open>ORDER BY ... LIMIT 1\<close> go to the oldest row.
\<close>

subsection \<open>Statements shared by the operations\<close>

definition is_open :: "work_session \<Rightarrow> bool" where
  "is_open w \<longleftrightarrow> ws_status w \<in> {Active, Paused}"

definition start_segment :: "uuid \<Rightarrow> uuid \<Rightarrow> timestamp \<Rightarrow> db \<Rightarrow> error + db" where
  "start_segment new_id session_id started_at db =
     (if exists_row (\<lambda>g. sg_id g = new_id) (segments db) then Inl UniqueViolation
      else Inr (db\<lparr>segments := segments db @
        [\<lparr>sg_id = new_id, sg_session = session_id, sg_started = started_at, sg_ended = None\<rparr>]\<rparr>))"

definition close_segment :: "uuid \<Rightarrow> timestamp \<Rightarrow> db \<Rightarrow> db" where
  "close_segment session_id ended_at db =
     db\<lparr>segments := update_where (\<lambda>g. sg_session g = session_id \<and> sg_ended g = None)
          (\<lambda>g. g\<lparr>sg_ended := Some (max (sg_started g) ended_at)\<rparr>) (segments db)\<rparr>"

definition stop_session :: "uuid \<Rightarrow> timestamp \<Rightarrow> db \<Rightarrow> db" where
  "stop_session session_id ended_at db =
     (let db1 = close_segment session_id ended_at db
      in db1\<lparr>sessions := update_where (\<lambda>w. ws_id w = session_id)
           (\<lambda>w. w\<lparr>ws_status := Stopped, ws_ended := Some ended_at, ws_updated := ended_at\<rparr>)
           (sessions db1)\<rparr>)"

definition session_in_connection :: "uuid \<Rightarrow> db \<Rightarrow> work_session option" where
  "session_in_connection session_id db = find (\<lambda>w. ws_id w = session_id) (sessions db)"

definition get_work_session :: "uuid \<Rightarrow> db \<Rightarrow> work_session option" where
  "get_work_session session_id db = find (\<lambda>w. ws_id w = session_id) (sessions db)"

definition get_task :: "uuid \<Rightarrow> db \<Rightarrow> task option" where
  "get_task task_id db = find (\<lambda>t. tk_id t = task_id) (tasks db)"

definition get_user :: "uuid \<Rightarrow> db \<Rightarrow> user option" where
  "get_user user_id db = find (\<lambda>u. us_id u = user_id \<and> us_enabled u) (users db)"

text \<open>\<open>INSERT INTO work_sessions\<close>: the primary key and the two partial unique indexes
  (one open session per device, one per user).\<close>

definition insert_session :: "work_session \<Rightarrow> db \<Rightarrow> error + db" where
  "insert_session w db =
     (if exists_row (\<lambda>v. ws_id v = ws_id w \<or>
           (is_open v \<and> is_open w \<and> (ws_device v = ws_device w \<or>
              (ws_user w \<noteq> None \<and> ws_user v = ws_user w)))) (sessions db)
      then Inl UniqueViolation
      else Inr (db\<lparr>sessions := sessions db @ [w]\<rparr>))"

definition insert_state_event :: "state_event \<Rightarrow> db \<Rightarrow> error + db" where
  "insert_state_event ev db =
     (if ev_idle ev < 0 \<or> ev_heartbeat ev < 15 \<or> 3600 < ev_heartbeat ev then Inl CheckViolation
      else if exists_row (\<lambda>e. ev_device e = ev_device ev \<and> ev_id e = ev_id ev) (state_events db)
      then Inl UniqueViolation
      else Inr (db\<lparr>state_events := state_events db @ [ev]\<rparr>))"

text \<open>\<open>UPDATE work_breaks SET ended_at\<close> with the table's check that a break ends after it
  started; \<open>p\<close> is the \<open>WHERE\<close> clause beside \<open>ended_at IS NULL\<close>.\<close>

definition end_breaks ::
  "(work_break \<Rightarrow> bool) \<Rightarrow> (work_break \<Rightarrow> timestamp) \<Rightarrow> db \<Rightarrow> error + db" where
  "end_breaks p ended db =
     (if exists_row (\<lambda>b. wb_ended b = None \<and> p b \<and> ended b \<le> wb_started b) (breaks db)
      then Inl CheckViolation
      else Inr (db\<lparr>breaks := update_where (\<lambda>b. wb_ended b = None \<and> p b)
             (\<lambda>b. b\<lparr>wb_ended := Some (ended b)\<rparr>) (breaks db)\<rparr>))"

text \<open>The \<open>EXISTS\<close>/\<open>IN\<close> sub-select on the session a row refers to.\<close>

definition of_session :: "(work_session \<Rightarrow> bool) \<Rightarrow> uuid \<Rightarrow> db \<Rightarrow> bool" where
  "of_session p session_id db \<longleftrightarrow> exists_row (\<lambda>w. ws_id w = session_id \<and> p w) (sessions db)"

definition end_segments :: "(uuid \<Rightarrow> bool) \<Rightarrow> (segment \<Rightarrow> timestamp) \<Rightarrow> db \<Rightarrow> db" where
  "end_segments p ended db =
     db\<lparr>segments := update_where (\<lambda>g. sg_ended g = None \<and> p (sg_session g))
          (\<lambda>g. g\<lparr>sg_ended := Some (ended g)\<rparr>) (segments db)\<rparr>"

definition end_sessions :: "(work_session \<Rightarrow> bool) \<Rightarrow> (work_session \<Rightarrow> timestamp) \<Rightarrow> timestamp \<Rightarrow> db \<Rightarrow> db" where
  "end_sessions p ended now db =
     db\<lparr>sessions := update_where p
          (\<lambda>w. w\<lparr>ws_status := Stopped, ws_ended := Some (ended w), ws_updated := now\<rparr>) (sessions db)\<rparr>"

subsection \<open>Tasks\<close>

definition create_task ::
  "uuid \<Rightarrow> uuid \<Rightarrow> string \<Rightarrow> string \<Rightarrow> uuid \<Rightarrow> bool \<Rightarrow> db \<Rightarrow> error + db" where
  "create_task new_id project_id name description created_by billable db =
     (let t = \<lparr>tk_id = new_id, tk_project = project_id, tk_name = strip name,
               tk_description = strip description, tk_billable = billable,
               tk_status = ''active'', tk_created_by = created_by, tk_read_only = False\<rparr>
      in if exists_row (\<lambda>r. tk_id r = new_id \<or>
              (tk_project r = project_id \<and> str_lower (tk_name r) = str_lower (tk_name t))) (tasks db)
         then Inl (ValueError ''That task already exists in this project'')
         else Inr (db\<lparr>tasks := tasks db @ [t]\<rparr>))"

definition set_task_status :: "uuid \<Rightarrow> string \<Rightarrow> timestamp \<Rightarrow> db \<Rightarrow> error + db" where
  "set_task_status task_id task_status now db =
     (if task_status \<noteq> ''active'' \<and> task_status \<noteq> ''archived'' then
        Inl (ValueError ''Invalid task status'')
      else case find (\<lambda>t. tk_id t = task_id) (tasks db) of
        None \<Rightarrow> Inl (ValueError ''Task not found'')
      | Some t \<Rightarrow>
          if tk_read_only t then
            Inl (ValueError ''This task is managed by an external integration'')
          else
            let db1 = db\<lparr>tasks := update_where (\<lambda>t. tk_id t = task_id)
                              (\<lambda>t. t\<lparr>tk_status := task_status\<rparr>) (tasks db)\<rparr>
            in if task_status \<noteq> ''archived'' then Inr db1
               else
                 let p = (\<lambda>w. ws_task w = Some task_id \<and> ws_ended w = None);
                     db2 = end_segments (\<lambda>i. of_session p i db1) (\<lambda>_. now) db1
                 in case end_breaks (\<lambda>b. case wb_session b of None \<Rightarrow> False
                                          | Some i \<Rightarrow> of_session p i db2) (\<lambda>_. now) db2 of
                      Inl e \<Rightarrow> Inl e
                    | Inr db3 \<Rightarrow> Inr (end_sessions p (\<lambda>_. now) now db3))"

subsection \<open>Who may track\<close>

definition tracked_usec :: "uuid \<Rightarrow> (date \<Rightarrow> bool) \<Rightarrow> timestamp \<Rightarrow> db \<Rightarrow> int" where
  "tracked_usec user_id on_day now db =
     sum_list (map (\<lambda>g. (case sg_ended g of Some e \<Rightarrow> e | None \<Rightarrow> now) - sg_started g)
       (filter (\<lambda>g. on_day (date_of (sg_started g)) \<and>
                    of_session (\<lambda>w. ws_user w = Some user_id) (sg_session g) db) (segments db)))"

text \<open>A limit in minutes is reached; \<open>0\<close> is no limit.\<close>

definition limit_reached :: "int \<Rightarrow> int \<Rightarrow> bool" where
  "limit_reached limit_minutes usec \<longleftrightarrow> limit_minutes \<noteq> 0 \<and> seconds (limit_minutes * 60) \<le> usec"

definition check_project :: "user \<Rightarrow> uuid option \<Rightarrow> db \<Rightarrow> error + unit" where
  "check_project owner project_id db =
     (case find (\<lambda>p. project_id = Some (pr_id p)) (projects db) of
        None \<Rightarrow> Inl (ValueError ''The selected project is unavailable'')
      | Some p \<Rightarrow>
          let membership = map_option pm_role
                (find (\<lambda>m. pm_project m = pr_id p \<and> pm_user m = us_id owner) (project_members db))
          in if \<not> pr_enabled p then Inl (ValueError ''The selected project is unavailable'')
             else if us_role owner = Member \<and> membership \<notin> {Some ''worker'', Some ''manager''}
             then Inl (ValueError ''This member cannot track time for the selected project'')
             else Inr ())"

definition check_limits :: "user \<Rightarrow> date \<Rightarrow> timestamp \<Rightarrow> db \<Rightarrow> error + unit" where
  "check_limits owner check_date now db =
     (let monday = check_date - weekday check_date;
          daily = tracked_usec (us_id owner) (\<lambda>d. d = check_date) now db;
          weekly = tracked_usec (us_id owner) (\<lambda>d. monday \<le> d \<and> d \<le> monday + 6) now db
      in if limit_reached (us_daily_limit owner) daily then
           Inl (ValueError ''Daily tracking limit reached'')
         else if limit_reached (us_weekly_limit owner) weekly then
           Inl (ValueError ''Weekly tracking limit reached'')
         else Inr ())"

definition check_task :: "uuid option \<Rightarrow> uuid option \<Rightarrow> uuid option \<Rightarrow> db \<Rightarrow> error + uuid option" where
  "check_task task_id project_id selected_project_id db =
     (if \<not> truthy task_id then Inr project_id
      else case get_task (the task_id) db of
        None \<Rightarrow> Inl (ValueError ''Task is not active'')
      | Some t \<Rightarrow>
          if tk_status t \<noteq> ''active'' then Inl (ValueError ''Task is not active'')
          else if truthy project_id \<and> Some (tk_project t) \<noteq> project_id then
            Inl (ValueError (if \<not> truthy selected_project_id
              then ''Task is not active in this device's project''
              else ''Task does not belong to the selected project''))
          else Inr (Some (tk_project t)))"

definition sync_authorize ::
  "device \<Rightarrow> session_status \<Rightarrow> uuid option \<Rightarrow> uuid option \<Rightarrow> pydatetime option \<Rightarrow> timestamp \<Rightarrow>
   db \<Rightarrow> error + (user option \<times> uuid option)" where
  "sync_authorize dev status task_id selected_project_id observed_at now db =
     (let check_date = (case observed_at of None \<Rightarrow> date_of now | Some t \<Rightarrow> wall_date t);
          project_id = py_or selected_project_id (dv_project dev);
          owner = (if truthy (dv_owner dev) then get_user (the (dv_owner dev)) db else None)
      in if status = Active \<and> truthy (dv_owner dev) \<and>
            is_period_locked (the (dv_owner dev)) check_date db then
           Inl (ValueError ''The current timesheet period is approved and locked'')
         else if status = Active \<and> (case owner of None \<Rightarrow> False | Some u \<Rightarrow> us_role u = Viewer) then
           Inl (ValueError ''Project viewers cannot track time'')
         else if status = Active \<and> owner = None then
           Inl (ValueError ''The device owner is unavailable'')
         else case (if status = Active then check_project (the owner) project_id db else Inr ()) of
           Inl e \<Rightarrow> Inl e
         | Inr _ \<Rightarrow>
             (case (if status = Active \<and> us_role (the owner) = Member
                    then check_limits (the owner) check_date now db else Inr ()) of
                Inl e \<Rightarrow> Inl e
              | Inr _ \<Rightarrow>
                  (case check_task task_id project_id selected_project_id db of
                     Inl e \<Rightarrow> Inl e
                   | Inr project \<Rightarrow> Inr (owner, project))))"

subsection \<open>Synchronising a device\<close>

definition allowed_apps :: "uuid \<Rightarrow> db \<Rightarrow> string" where
  "allowed_apps user_id db =
     (case find (\<lambda>r. tr_user r = user_id) (overrides db) of
        Some r \<Rightarrow> (case tr_allowed_apps r of Some a \<Rightarrow> a | None \<Rightarrow> og_allowed_apps (settings db))
      | None \<Rightarrow> og_allowed_apps (settings db))"

definition desktop_required :: "device \<Rightarrow> user option \<Rightarrow> session_status \<Rightarrow> db \<Rightarrow> bool" where
  "desktop_required dev owner status db \<longleftrightarrow> status = Active \<and> owner \<noteq> None \<and> dv_kind dev \<noteq> Desktop \<and>
     allowed_apps (us_id (the owner)) db = ''desktop_only''"

text \<open>The latest event of the device, and the observation clamped to it.\<close>

definition previous_event :: "uuid \<Rightarrow> db \<Rightarrow> state_event option" where
  "previous_event device_id db =
     max_row ev_observed (filter (\<lambda>e. ev_device e = device_id) (state_events db))"

definition clamp_observed :: "state_event option \<Rightarrow> timestamp \<Rightarrow> timestamp" where
  "clamp_observed previous observed =
     (case previous of None \<Rightarrow> observed | Some p \<Rightarrow> max observed (ev_observed p))"

definition device_session :: "uuid \<Rightarrow> db \<Rightarrow> work_session option" where
  "device_session device_id db =
     max_row ws_started (filter (\<lambda>w. ws_device w = device_id \<and> is_open w) (sessions db))"

definition other_session :: "uuid \<Rightarrow> uuid \<Rightarrow> db \<Rightarrow> work_session option" where
  "other_session user_id device_id db =
     max_row ws_started
       (filter (\<lambda>w. ws_user w = Some user_id \<and> ws_device w \<noteq> device_id \<and> is_open w) (sessions db))"

definition switch_device :: "device \<Rightarrow> session_status \<Rightarrow> bool \<Rightarrow> timestamp \<Rightarrow> db \<Rightarrow> error + db" where
  "switch_device dev status transition observed db =
     (if status \<in> {Active, Paused} \<and> truthy (dv_owner dev) then
        (case other_session (the (dv_owner dev)) (dv_id dev) db of
           None \<Rightarrow> Inr db
         | Some other \<Rightarrow>
             if \<not> transition then
               Inl (ValueError ''Another device is tracking; press Start to switch devices'')
             else if observed < ws_started other then
               Inl (ValueError ''Another device is already tracking newer time'')
             else Inr (stop_session (ws_id other) observed db))
      else Inr db)"

definition lease_seconds :: "state_event \<Rightarrow> int \<Rightarrow> int" where
  "lease_seconds previous heartbeat_interval =
     max 90 (max (ev_heartbeat previous * 2) (heartbeat_interval * 2))"

definition expire_lease ::
  "state_event option \<Rightarrow> work_session option \<Rightarrow> timestamp \<Rightarrow> int \<Rightarrow> db \<Rightarrow> db \<times> work_session option" where
  "expire_lease previous session observed heartbeat_interval db =
     (case (previous, session) of
        (Some p, Some w) \<Rightarrow>
          if ev_status p = Active \<and>
             seconds (lease_seconds p heartbeat_interval) < observed - ev_observed p
          then (stop_session (ws_id w) (ev_observed p + seconds (ev_heartbeat p)) db, None)
          else (db, session)
      | _ \<Rightarrow> (db, session))"

definition leave_task ::
  "work_session option \<Rightarrow> uuid option \<Rightarrow> uuid option \<Rightarrow> timestamp \<Rightarrow> db \<Rightarrow> db \<times> work_session option" where
  "leave_task session task_id project_id observed db =
     (case session of
        Some w \<Rightarrow>
          if ws_task w \<noteq> task_id \<or> ws_project w \<noteq> project_id
          then (stop_session (ws_id w) observed db, None) else (db, session)
      | None \<Rightarrow> (db, None))"

text \<open>What a report carries, beside the device: the arguments of the method and the ids drawn.\<close>

record report =
  rq_status :: session_status
  rq_task :: "uuid option"
  rq_project :: "uuid option"
  rq_note :: string
  rq_event :: "uuid option"
  rq_observed :: timestamp
  rq_idle :: int
  rq_heartbeat :: int
  rq_transition :: bool
  rq_session_id :: uuid
  rq_segment_id :: uuid

definition open_session :: "device \<Rightarrow> report \<Rightarrow> timestamp \<Rightarrow> timestamp \<Rightarrow> db \<Rightarrow> error + db" where
  "open_session dev rq observed now db =
     (case insert_session
        \<lparr>ws_id = rq_session_id rq, ws_user = dv_owner dev, ws_device = dv_id dev,
         ws_project = rq_project rq, ws_task = rq_task rq, ws_status = rq_status rq,
         ws_note = take 500 (strip (rq_note rq)), ws_started = observed, ws_ended = None,
         ws_created = now, ws_updated = now\<rparr> db of
        Inl e \<Rightarrow> Inl e
      | Inr db1 \<Rightarrow> if rq_status rq = Active
                  then start_segment (rq_segment_id rq) (rq_session_id rq) observed db1 else Inr db1)"

definition continue_session :: "work_session \<Rightarrow> report \<Rightarrow> timestamp \<Rightarrow> timestamp \<Rightarrow> db \<Rightarrow> error + db" where
  "continue_session w rq observed now db =
     (let moved =
            (if rq_status rq = Paused \<and> ws_status w = Active
             then Inr (close_segment (ws_id w) (observed - seconds (rq_idle rq)) db)
             else if rq_status rq = Active \<and> ws_status w = Paused
             then start_segment (rq_segment_id rq) (ws_id w) observed db
             else Inr db)
      in case moved of
           Inl e \<Rightarrow> Inl e
         | Inr db1 \<Rightarrow> Inr (db1\<lparr>sessions := update_where (\<lambda>v. ws_id v = ws_id w)
              (\<lambda>v. v\<lparr>ws_status := rq_status rq, ws_note := take 500 (strip (rq_note rq)),
                     ws_updated := now\<rparr>) (sessions db1)\<rparr>))"

definition log_event ::
  "device \<Rightarrow> report \<Rightarrow> timestamp \<Rightarrow> timestamp \<Rightarrow> uuid option \<Rightarrow> db \<Rightarrow> error + db" where
  "log_event dev rq observed now session_id db =
     (if truthy (rq_event rq) then insert_state_event
        \<lparr>ev_id = the (rq_event rq), ev_device = dv_id dev, ev_observed = observed,
         ev_received = now, ev_status = rq_status rq, ev_task = rq_task rq,
         ev_project = rq_project rq, ev_note = take 500 (strip (rq_note rq)),
         ev_idle = rq_idle rq, ev_heartbeat = rq_heartbeat rq, ev_session = session_id\<rparr> db
      else Inr db)"

text \<open>From the lookup of the device's session to the end of the transaction.\<close>

definition apply_report ::
  "device \<Rightarrow> report \<Rightarrow> state_event option \<Rightarrow> timestamp \<Rightarrow> timestamp \<Rightarrow> db \<Rightarrow>
   error + (db \<times> work_session option)" where
  "apply_report dev rq previous observed now db =
     (let session = device_session (dv_id dev) db
      in case switch_device dev (rq_status rq) (rq_transition rq) observed db of
        Inl e \<Rightarrow> Inl e
      | Inr db1 \<Rightarrow>
          (let (db2, session2) = expire_lease previous session observed (rq_heartbeat rq) db1;
               (db3, session3) = leave_task session2 (rq_task rq) (rq_project rq) observed db2
           in if rq_status rq = Stopped then
                (let db4 = (case session3 of None \<Rightarrow> db3
                            | Some w \<Rightarrow> stop_session (ws_id w) observed db3)
                 in case log_event dev rq observed now None db4 of
                      Inl e \<Rightarrow> Inl e
                    | Inr db5 \<Rightarrow> Inr (db5, None))
              else
                (case (case session3 of None \<Rightarrow> open_session dev rq observed now db3
                       | Some w \<Rightarrow> continue_session w rq observed now db3) of
                   Inl e \<Rightarrow> Inl e
                 | Inr db4 \<Rightarrow>
                     (let session_id = (case session3 of None \<Rightarrow> rq_session_id rq | Some w \<Rightarrow> ws_id w)
                      in case log_event dev rq observed now (Some session_id) db4 of
                           Inl e \<Rightarrow> Inl e
                         | Inr db5 \<Rightarrow> Inr (db5, session_in_connection session_id db5)))))"

definition sync_transaction ::
  "device \<Rightarrow> user option \<Rightarrow> report \<Rightarrow> timestamp \<Rightarrow> db \<Rightarrow> error + (db \<times> work_session option)" where
  "sync_transaction dev owner rq now db =
     (if desktop_required dev owner (rq_status rq) db then
        Inl (ValueError ''Desktop tracking is required by policy'')
      else if truthy (rq_event rq) then
        (case find (\<lambda>e. ev_device e = dv_id dev \<and> ev_id e = the (rq_event rq)) (state_events db) of
           Some duplicate \<Rightarrow>
             Inr (db, case ev_session duplicate of None \<Rightarrow> None
                      | Some session_id \<Rightarrow> session_in_connection session_id db)
         | None \<Rightarrow>
             (let previous = previous_event (dv_id dev) db
              in apply_report dev rq previous (clamp_observed previous (rq_observed rq)) now db))
      else apply_report dev rq None (rq_observed rq) now db)"

definition parse_status :: "string \<Rightarrow> session_status option" where
  "parse_status s =
     (if s = ''active'' then Some Active else if s = ''paused'' then Some Paused
      else if s = ''stopped'' then Some Stopped else None)"

definition sync_work_session ::
  "device \<Rightarrow> string \<Rightarrow> uuid option \<Rightarrow> uuid option \<Rightarrow> string \<Rightarrow> uuid option \<Rightarrow> pydatetime option \<Rightarrow>
   int \<Rightarrow> int \<Rightarrow> bool \<Rightarrow> timestamp \<Rightarrow> uuid \<Rightarrow> uuid \<Rightarrow> db \<Rightarrow> error + (db \<times> work_session option)" where
  "sync_work_session dev status task_id selected_project_id note event_id observed_at idle
       heartbeat transition now session_id segment_id db =
     (case parse_status status of
        None \<Rightarrow> Inr (db, None)
      | Some st \<Rightarrow>
          (case sync_authorize dev st task_id selected_project_id observed_at now db of
             Inl e \<Rightarrow> Inl e
           | Inr (owner, project_id) \<Rightarrow>
               (case (case observed_at of None \<Rightarrow> Aware now 0 | Some t \<Rightarrow> t) of
                  Naive _ \<Rightarrow> Inl (ValueError ''observed_at must include a timezone'')
                | Aware observed _ \<Rightarrow>
                    sync_transaction dev owner
                      \<lparr>rq_status = st, rq_task = task_id, rq_project = project_id, rq_note = note,
                       rq_event = event_id, rq_observed = observed, rq_idle = idle,
                       rq_heartbeat = heartbeat, rq_transition = transition,
                       rq_session_id = session_id, rq_segment_id = segment_id\<rparr> now db)))"

subsection \<open>Queries and compaction\<close>

definition get_work_session_for_capture :: "uuid \<Rightarrow> timestamp \<Rightarrow> db \<Rightarrow> work_session option" where
  "get_work_session_for_capture device_id captured_at db =
     map_option fst (max_row (\<lambda>(w, g). sg_started g)
       (concat (map (\<lambda>w. map (Pair w)
          (filter (\<lambda>g. sg_session g = ws_id w \<and> sg_started g \<le> captured_at \<and>
             (case sg_ended g of None \<Rightarrow> True | Some e \<Rightarrow> captured_at \<le> e)) (segments db)))
        (filter (\<lambda>w. ws_device w = device_id) (sessions db)))))"

definition delete_state_events_before :: "timestamp \<Rightarrow> db \<Rightarrow> db \<times> nat" where
  "delete_state_events_before cutoff db =
     (let p = (\<lambda>old. ev_received old < cutoff \<and>
                exists_row (\<lambda>newer. ev_device newer = ev_device old \<and> ev_observed old < ev_observed newer)
                  (state_events db))
      in (db\<lparr>state_events := delete_where p (state_events db)\<rparr>, rowcount p (state_events db)))"

subsection \<open>Breaks, and the operations that end work\<close>

definition start_break :: "uuid \<Rightarrow> uuid \<Rightarrow> uuid \<Rightarrow> bool \<Rightarrow> timestamp \<Rightarrow> db \<Rightarrow> error + (db \<times> uuid)" where
  "start_break new_id user_id session_id paid now db =
     (case find (\<lambda>b. wb_user b = user_id \<and> wb_ended b = None) (breaks db) of
        Some existing \<Rightarrow> Inr (db, wb_id existing)
      | None \<Rightarrow>
          if exists_row (\<lambda>b. wb_id b = new_id) (breaks db) then Inl UniqueViolation
          else Inr (db\<lparr>breaks := breaks db @
                 [\<lparr>wb_id = new_id, wb_user = user_id, wb_session = Some session_id,
                   wb_started = now, wb_ended = None, wb_paid = paid\<rparr>]\<rparr>, new_id))"

definition stop_break :: "uuid \<Rightarrow> timestamp \<Rightarrow> db \<Rightarrow> error + db" where
  "stop_break user_id now db = end_breaks (\<lambda>b. wb_user b = user_id) (\<lambda>_. now) db"

text \<open>\<open>_close_project_work\<close>; \<open>user_id\<close> narrows it to one member.\<close>

definition close_project_work :: "uuid \<Rightarrow> uuid option \<Rightarrow> timestamp \<Rightarrow> db \<Rightarrow> error + db" where
  "close_project_work project_id user_id now db =
     (let p = (\<lambda>w. ws_project w = Some project_id \<and> (truthy user_id \<longrightarrow> ws_user w = user_id));
          db1 = end_segments (\<lambda>i. of_session p i db) (\<lambda>g. max now (sg_started g)) db;
          db2 = end_sessions (\<lambda>w. p w \<and> is_open w) (\<lambda>w. max now (ws_started w)) now db1
      in end_breaks (\<lambda>b. (case wb_session b of None \<Rightarrow> False
             | Some i \<Rightarrow> of_session (\<lambda>w. ws_project w = Some project_id) i db2)
             \<and> (truthy user_id \<longrightarrow> Some (wb_user b) = user_id))
           (\<lambda>b. max now (wb_started b)) db2)"

definition set_project_enabled :: "uuid \<Rightarrow> bool \<Rightarrow> timestamp \<Rightarrow> db \<Rightarrow> error + db" where
  "set_project_enabled project_id enabled now db =
     (if rowcount (\<lambda>p. pr_id p = project_id) (projects db) \<noteq> 1 then
        Inl (ValueError ''Project not found'')
      else
        let db1 = db\<lparr>projects := update_where (\<lambda>p. pr_id p = project_id)
                         (\<lambda>p. p\<lparr>pr_enabled := enabled\<rparr>) (projects db)\<rparr>
        in if enabled then Inr db1
           else case close_project_work project_id None now db1 of
             Inl e \<Rightarrow> Inl e
           | Inr db2 \<Rightarrow> Inr (db2\<lparr>devices := update_where (\<lambda>d. dv_project d = Some project_id)
                  (\<lambda>d. d\<lparr>dv_project := None\<rparr>) (devices db2)\<rparr>))"

definition set_device_enabled :: "uuid \<Rightarrow> bool \<Rightarrow> timestamp \<Rightarrow> db \<Rightarrow> error + db" where
  "set_device_enabled device_id enabled now db =
     (if \<not> exists_row (\<lambda>d. dv_id d = device_id) (devices db) then Inr db
      else
        let db1 = db\<lparr>devices := update_where (\<lambda>d. dv_id d = device_id)
                         (\<lambda>d. d\<lparr>dv_enabled := enabled\<rparr>) (devices db)\<rparr>
        in if enabled then Inr db1
           else
             let p = (\<lambda>w. ws_device w = device_id);
                 db2 = end_segments (\<lambda>i. of_session p i db1) (\<lambda>g. max now (sg_started g)) db1
             in case end_breaks (\<lambda>b. case wb_session b of None \<Rightarrow> False
                                  | Some i \<Rightarrow> of_session p i db2) (\<lambda>b. max now (wb_started b)) db2 of
                  Inl e \<Rightarrow> Inl e
                | Inr db3 \<Rightarrow>
                    Inr (end_sessions (\<lambda>w. p w \<and> is_open w) (\<lambda>w. max now (ws_started w)) now db3))"

definition set_user_enabled :: "uuid \<Rightarrow> bool \<Rightarrow> timestamp \<Rightarrow> db \<Rightarrow> error + db" where
  "set_user_enabled user_id enabled now db =
     (if rowcount (\<lambda>u. us_id u = user_id) (users db) \<noteq> 1 then Inl (ValueError ''Member not found'')
      else
        let db1 = db\<lparr>users := update_where (\<lambda>u. us_id u = user_id)
                         (\<lambda>u. u\<lparr>us_enabled := enabled\<rparr>) (users db)\<rparr>
        in if enabled then Inr db1
           else
             let p = (\<lambda>w. ws_user w = Some user_id);
                 db2 = end_segments (\<lambda>i. of_session p i db1) (\<lambda>g. max now (sg_started g)) db1;
                 db3 = end_sessions (\<lambda>w. p w \<and> is_open w) (\<lambda>w. max now (ws_started w)) now db2
             in case end_breaks (\<lambda>b. wb_user b = user_id) (\<lambda>b. max now (wb_started b)) db3 of
                  Inl e \<Rightarrow> Inl e
                | Inr db4 \<Rightarrow> Inr (db4\<lparr>devices := update_where (\<lambda>d. dv_owner d = Some user_id)
                       (\<lambda>d. d\<lparr>dv_enabled := False\<rparr>) (devices db4)\<rparr>))"

definition stop_web_timer_sessions :: "uuid option \<Rightarrow> timestamp \<Rightarrow> db \<Rightarrow> error + (db \<times> nat)" where
  "stop_web_timer_sessions user_id now db =
     (let p = (\<lambda>w. ws_ended w = None
                 \<and> exists_row (\<lambda>d. dv_id d = ws_device w \<and> dv_kind d \<noteq> Desktop) (devices db)
                 \<and> (case ws_user w of None \<Rightarrow> og_allowed_apps (settings db)
                    | Some u \<Rightarrow> allowed_apps u db) = ''desktop_only''
                 \<and> (truthy user_id \<longrightarrow> ws_user w = user_id));
          db1 = end_segments (\<lambda>i. of_session p i db) (\<lambda>_. now) db
      in case end_breaks (\<lambda>b. case wb_session b of None \<Rightarrow> False | Some i \<Rightarrow> of_session p i db1)
                (\<lambda>_. now) db1 of
           Inl e \<Rightarrow> Inl e
         | Inr db2 \<Rightarrow> Inr (end_sessions p (\<lambda>_. now) now db2, rowcount p (sessions db2)))"

subsection \<open>The invariant\<close>

definition running :: "uuid \<Rightarrow> segment list \<Rightarrow> nat" where
  "running i gs = rowcount (\<lambda>g. sg_session g = i \<and> sg_ended g = None) gs"

definition sessions_ok :: "work_session list \<Rightarrow> bool" where
  "sessions_ok ws \<longleftrightarrow> distinct (map ws_id ws)
     \<and> distinct (map ws_device (filter is_open ws))
     \<and> distinct (map ws_user (filter (\<lambda>w. is_open w \<and> ws_user w \<noteq> None) ws))
     \<and> (\<forall>w \<in> set ws. ws_ended w = None \<longleftrightarrow> is_open w)"

definition segments_ok :: "work_session list \<Rightarrow> segment list \<Rightarrow> bool" where
  "segments_ok ws gs \<longleftrightarrow> distinct (map sg_id gs)
     \<and> (\<forall>g \<in> set gs. sg_session g \<in> ws_id ` set ws)
     \<and> (\<forall>w \<in> set ws. running (ws_id w) gs = (if ws_status w = Active then 1 else 0))"

definition events_ok :: "state_event list \<Rightarrow> bool" where
  "events_ok es \<longleftrightarrow> distinct (map (\<lambda>e. (ev_device e, ev_id e)) es)
     \<and> sorted_wrt (\<lambda>e e'. ev_device e = ev_device e' \<longrightarrow> ev_observed e \<le> ev_observed e') es"

definition work_inv :: "db \<Rightarrow> bool" where
  "work_inv db \<longleftrightarrow> sessions_ok (sessions db) \<and> segments_ok (sessions db) (segments db)
     \<and> events_ok (state_events db)"

text \<open>Closed segments do not end before they start.\<close>

definition segments_forward :: "db \<Rightarrow> bool" where
  "segments_forward db \<longleftrightarrow>
     (\<forall>g \<in> set (segments db). case sg_ended g of None \<Rightarrow> True | Some e \<Rightarrow> sg_started g \<le> e)"

text \<open>What a device is doing.\<close>

definition timer :: "db \<Rightarrow> uuid \<Rightarrow> (session_status \<times> uuid option \<times> uuid option) option" where
  "timer db d = map_option (\<lambda>w. (ws_status w, ws_project w, ws_task w))
     (find (\<lambda>w. is_open w \<and> ws_device w = d) (sessions db))"

subsection \<open>Closing sessions and their segments\<close>

definition stopped :: "(work_session \<Rightarrow> timestamp) \<Rightarrow> timestamp \<Rightarrow> work_session \<Rightarrow> work_session" where
  "stopped ended now w = w\<lparr>ws_status := Stopped, ws_ended := Some (ended w), ws_updated := now\<rparr>"

lemma stopped_simps [simp]:
  "ws_id (stopped f n w) = ws_id w" "ws_device (stopped f n w) = ws_device w"
  "ws_user (stopped f n w) = ws_user w" "ws_status (stopped f n w) = Stopped"
  "ws_ended (stopped f n w) = Some (f w)" "\<not> is_open (stopped f n w)"
  by (simp_all add: stopped_def is_open_def)

lemma filter_stop:
  "filter (\<lambda>w. is_open w \<and> R w) (update_where q (stopped f n) ws) =
     filter (\<lambda>w. (is_open w \<and> R w) \<and> \<not> q w) ws"
  by (induction ws) auto

lemma filter_open_stop:
  "filter is_open (update_where q (stopped f n) ws) = filter (\<lambda>w. is_open w \<and> \<not> q w) ws"
  using filter_stop [of "\<lambda>_. True" q f n ws] by simp

lemma running_end:
  "running i (update_where (\<lambda>g. sg_ended g = None \<and> p (sg_session g))
     (\<lambda>g. g\<lparr>sg_ended := Some (f g)\<rparr>) gs) = (if p i then 0 else running i gs)"
  by (induction gs) (auto simp: running_def)

lemma distinct_map_filter_conj:
  assumes "distinct (map f (filter P xs))"
  shows "distinct (map f (filter (\<lambda>x. P x \<and> Q x) xs))"
proof -
  have "filter (\<lambda>x. P x \<and> Q x) xs = filter Q (filter P xs)" by (simp add: conj_commute)
  with assms show ?thesis by (simp only: distinct_map_filter)
qed

lemma sessions_ok_stop:
  assumes "sessions_ok ws"
  shows "sessions_ok (update_where q (stopped f n) ws)"
proof -
  have "map ws_id (update_where q (stopped f n) ws) = map ws_id ws"
    by (rule map_update_where) simp
  moreover have "ws_ended w = None \<longleftrightarrow> is_open w" if "w \<in> set (update_where q (stopped f n) ws)" for w
    using that assms by (auto simp: sessions_ok_def in_update_where)
  moreover have "distinct (map ws_device (filter (\<lambda>w. is_open w \<and> \<not> q w) ws))"
    by (rule distinct_map_filter_conj [where P = is_open]) (use assms in \<open>simp add: sessions_ok_def\<close>)
  moreover have "distinct (map ws_user (filter (\<lambda>w. (is_open w \<and> ws_user w \<noteq> None) \<and> \<not> q w) ws))"
    by (rule distinct_map_filter_conj [where P = "\<lambda>w. is_open w \<and> ws_user w \<noteq> None"])
       (use assms in \<open>simp add: sessions_ok_def\<close>)
  ultimately show ?thesis
    unfolding sessions_ok_def filter_open_stop filter_stop using assms[unfolded sessions_ok_def] by simp
qed

lemma segments_ok_stop:
  assumes s: "segments_ok ws gs" and ok: "sessions_ok ws"
    and q: "\<And>w. w \<in> set ws \<Longrightarrow> q w \<longleftrightarrow> is_open w \<and> p (ws_id w)"
  shows "segments_ok (update_where q (stopped f n) ws)
    (update_where (\<lambda>g. sg_ended g = None \<and> p (sg_session g)) (\<lambda>g. g\<lparr>sg_ended := Some (h g)\<rparr>) gs)"
  unfolding segments_ok_def
proof (intro conjI ballI)
  let ?gs = "update_where (\<lambda>g. sg_ended g = None \<and> p (sg_session g)) (\<lambda>g. g\<lparr>sg_ended := Some (h g)\<rparr>) gs"
  have "map sg_id ?gs = map sg_id gs" by (rule map_update_where) simp
  with s show "distinct (map sg_id ?gs)" by (simp add: segments_ok_def)
  fix g assume "g \<in> set ?gs"
  then obtain g' where "g' \<in> set gs" "sg_session g = sg_session g'" by (auto simp: in_update_where)
  moreover have "ws_id ` set (update_where q (stopped f n) ws) = ws_id ` set ws"
    by (metis list.set_map map_update_where stopped_simps(1))
  ultimately show "sg_session g \<in> ws_id ` set (update_where q (stopped f n) ws)"
    using s by (auto simp: segments_ok_def)
next
  fix w assume "w \<in> set (update_where q (stopped f n) ws)"
  then obtain v where v: "v \<in> set ws" "w = (if q v then stopped f n v else v)"
    by (auto simp: table_simps)
  with s q [OF v(1)] show "running (ws_id w)
      (update_where (\<lambda>g. sg_ended g = None \<and> p (sg_session g)) (\<lambda>g. g\<lparr>sg_ended := Some (h g)\<rparr>) gs) =
      (if ws_status w = Active then 1 else 0)"
    unfolding running_end by (auto simp: segments_ok_def is_open_def)
qed

text \<open>The shape of every operation that ends work.\<close>

lemma work_inv_close:
  assumes inv: "work_inv db"
    and q: "\<And>w. w \<in> set (sessions db) \<Longrightarrow> q w \<longleftrightarrow> is_open w \<and> p (ws_id w)"
    and db': "sessions db' = update_where q (stopped f n) (sessions db)"
      "segments db' = update_where (\<lambda>g. sg_ended g = None \<and> p (sg_session g))
         (\<lambda>g. g\<lparr>sg_ended := Some (h g)\<rparr>) (segments db)"
      "state_events db' = state_events db"
  shows "work_inv db'"
  using inv sessions_ok_stop segments_ok_stop [OF _ _ q] by (simp add: work_inv_def db')

lemma end_breaks_frame:
  assumes "end_breaks p f db = Inr db'"
  shows "sessions db' = sessions db" "segments db' = segments db" "state_events db' = state_events db"
    "devices db' = devices db" "timesheets db' = timesheets db" "settings db' = settings db"
    "overrides db' = overrides db"
  using assms by (auto simp: end_breaks_def split: if_splits)

lemma end_segments_frame [simp]:
  "sessions (end_segments p f db) = sessions db" "state_events (end_segments p f db) = state_events db"
  "breaks (end_segments p f db) = breaks db" "devices (end_segments p f db) = devices db"
  "segments (end_segments p f db) = update_where (\<lambda>g. sg_ended g = None \<and> p (sg_session g))
     (\<lambda>g. g\<lparr>sg_ended := Some (f g)\<rparr>) (segments db)"
  by (simp_all add: end_segments_def)

lemma end_sessions_frame [simp]:
  "segments (end_sessions q f n db) = segments db" "state_events (end_sessions q f n db) = state_events db"
  "devices (end_sessions q f n db) = devices db" "breaks (end_sessions q f n db) = breaks db"
  "sessions (end_sessions q f n db) = update_where q (stopped f n) (sessions db)"
  by (simp_all add: end_sessions_def stopped_def [abs_def])

lemma of_session_own:
  assumes "sessions_ok ws" and "w \<in> set ws" and "sessions db = ws"
  shows "of_session p (ws_id w) db \<longleftrightarrow> p w"
proof -
  have "v = w" if "v \<in> set ws" "ws_id v = ws_id w" for v
    using assms(1,2) that distinct_key_eq [of ws_id ws v w] by (simp add: sessions_ok_def)
  with assms show ?thesis by (auto simp: of_session_def table_simps)
qed

text \<open>A stop of one session, as the sync does it.\<close>

lemma stop_session_eq:
  "stop_session i t db =
     end_sessions (\<lambda>w. ws_id w = i) (\<lambda>_. t) t (end_segments (\<lambda>j. j = i) (\<lambda>g. max (sg_started g) t) db)"
  by (simp add: stop_session_def close_segment_def end_sessions_def end_segments_def Let_def conj_commute)

lemma stop_session_frame [simp]:
  "state_events (stop_session i t db) = state_events db"
  "sessions (stop_session i t db) = update_where (\<lambda>w. ws_id w = i) (stopped (\<lambda>_. t) t) (sessions db)"
  by (simp_all add: stop_session_eq)

lemma stop_session_inv:
  assumes "work_inv db" and "w \<in> set (sessions db)" and "is_open w"
  shows "work_inv (stop_session (ws_id w) t db)"
proof (rule work_inv_close [OF assms(1), where p = "\<lambda>j. j = ws_id w"])
  fix v assume "v \<in> set (sessions db)"
  moreover have "v = w" if "ws_id v = ws_id w"
    using assms that \<open>v \<in> _\<close> distinct_key_eq [of ws_id "sessions db" v w]
    by (simp add: work_inv_def sessions_ok_def)
  ultimately show "ws_id v = ws_id w \<longleftrightarrow> is_open v \<and> ws_id v = ws_id w" using assms(3) by auto
qed (simp_all add: stop_session_eq)

text \<open>Nothing but segments matters for \<open>segments_forward\<close>.\<close>

lemma segments_forward_end:
  assumes "segments_forward db" and "\<And>g. g \<in> set (segments db) \<Longrightarrow> sg_started g \<le> f g"
    and "segments db' = update_where (\<lambda>g. sg_ended g = None \<and> p (sg_session g))
           (\<lambda>g. g\<lparr>sg_ended := Some (f g)\<rparr>) (segments db)"
  shows "segments_forward db'"
  using assms by (auto simp: segments_forward_def in_update_where)

lemma stop_session_forward: "segments_forward db \<Longrightarrow> segments_forward (stop_session i t db)"
  by (erule segments_forward_end [where p = "\<lambda>j. j = i" and f = "\<lambda>g. max (sg_started g) t"])
     (simp_all add: stop_session_eq)

subsection \<open>The stages of a report\<close>

lemma open_device_unique:
  assumes "work_inv db" "v \<in> set (sessions db)" "w \<in> set (sessions db)" "is_open v" "is_open w"
    and "ws_device v = ws_device w"
  shows "v = w"
  using assms distinct_key_eq [of ws_device "filter is_open (sessions db)" v w]
  by (simp add: work_inv_def sessions_ok_def)

lemma open_user_unique:
  assumes "work_inv db" "v \<in> set (sessions db)" "w \<in> set (sessions db)" "is_open v" "is_open w"
    and "ws_user v = ws_user w" "ws_user w \<noteq> None"
  shows "v = w"
  using assms distinct_key_eq [of ws_user "filter (\<lambda>w. is_open w \<and> ws_user w \<noteq> None) (sessions db)" v w]
  by (simp add: work_inv_def sessions_ok_def)

lemma session_id_unique:
  assumes "work_inv db" "v \<in> set (sessions db)" "w \<in> set (sessions db)" "ws_id v = ws_id w"
  shows "v = w"
  using assms distinct_key_eq [of ws_id "sessions db" v w]
  by (simp add: work_inv_def sessions_ok_def)

lemma find_cong_set: "(\<And>x. x \<in> set xs \<Longrightarrow> P x = Q x) \<Longrightarrow> find P xs = find Q xs"
  by (induction xs) auto

lemma find_stop:
  "find (\<lambda>w. is_open w \<and> P (ws_device w)) (update_where q (stopped f n) ws) =
     find (\<lambda>w. \<not> q w \<and> is_open w \<and> P (ws_device w)) ws"
  by (induction ws) auto

lemma timer_stop:
  assumes "work_inv db" "w \<in> set (sessions db)" "is_open w"
  shows "timer (stop_session (ws_id w) t db) = (timer db)(ws_device w := None)"
proof
  fix d
  let ?P = "\<lambda>v. ws_id v \<noteq> ws_id w \<and> is_open v \<and> ws_device v = d"
  have e: "timer (stop_session (ws_id w) t db) d =
      map_option (\<lambda>w. (ws_status w, ws_project w, ws_task w)) (find ?P (sessions db))"
    using find_stop [of "\<lambda>x. x = d" "\<lambda>v. ws_id v = ws_id w" "\<lambda>_. t" t "sessions db"]
    by (simp add: timer_def)
  show "timer (stop_session (ws_id w) t db) d = ((timer db)(ws_device w := None)) d"
  proof (cases "d = ws_device w")
    case True
    have "find ?P (sessions db) = None"
      using open_device_unique [OF assms(1) _ assms(2) _ assms(3)] True by (auto simp: find_None_all)
    with e True show ?thesis by simp
  next
    case False
    have "find ?P (sessions db) = find (\<lambda>v. is_open v \<and> ws_device v = d) (sessions db)"
      using session_id_unique [OF assms(1) _ assms(2)] False by (intro find_cong_set) auto
    with e False show ?thesis by (simp add: timer_def)
  qed
qed

text \<open>\<open>s\<close> is the session the device \<open>d\<close> has open.\<close>

definition on_device :: "db \<Rightarrow> uuid \<Rightarrow> work_session option \<Rightarrow> bool" where
  "on_device db d s \<longleftrightarrow> (case s of
      None \<Rightarrow> \<forall>w \<in> set (sessions db). is_open w \<longrightarrow> ws_device w \<noteq> d
    | Some w \<Rightarrow> w \<in> set (sessions db) \<and> is_open w \<and> ws_device w = d)"

lemma device_session_on: "on_device db d (device_session d db)"
  unfolding on_device_def device_session_def
  by (auto split: option.splits simp: max_row_filter_None dest!: max_row_filter_in)

lemma timer_on:
  assumes "work_inv db" "on_device db d s"
  shows "timer db d = map_option (\<lambda>w. (ws_status w, ws_project w, ws_task w)) s"
proof (cases s)
  case None
  with assms show ?thesis by (auto simp: on_device_def timer_def find_None_all)
next
  case (Some w)
  with assms have w: "w \<in> set (sessions db)" "is_open w" "ws_device w = d" by (simp_all add: on_device_def)
  then obtain v where v: "find (\<lambda>w. is_open w \<and> ws_device w = d) (sessions db) = Some v"
    using find_None_all [of "\<lambda>w. is_open w \<and> ws_device w = d" "sessions db"] by (auto simp del: not_None_eq)
  have "v = w" by (rule open_device_unique [OF assms(1)]) (use find_in_set [OF v] w in auto)
  with v Some show ?thesis by (simp add: timer_def)
qed

text \<open>A stage that leaves every other device alone.\<close>

definition stage :: "uuid \<Rightarrow> db \<Rightarrow> db \<Rightarrow> work_session option \<Rightarrow> bool" where
  "stage d db db' s' \<longleftrightarrow> work_inv db' \<and> on_device db' d s' \<and>
     (segments_forward db \<longrightarrow> segments_forward db') \<and> (\<forall>e. e \<noteq> d \<longrightarrow> timer db' e = timer db e) \<and>
     state_events db' = state_events db"

lemma stage_refl: "work_inv db \<Longrightarrow> on_device db d s \<Longrightarrow> stage d db db s"
  by (simp add: stage_def)

lemma stage_trans: "stage d db db1 s \<Longrightarrow> stage d db1 db2 s' \<Longrightarrow> stage d db db2 s'"
  by (simp add: stage_def)

lemma stage_stop:
  assumes inv: "work_inv db" and on: "on_device db d (Some w)"
  shows "stage d db (stop_session (ws_id w) t db) None"
proof -
  from on have w: "w \<in> set (sessions db)" "is_open w" "ws_device w = d" by (simp_all add: on_device_def)
  have "ws_device v \<noteq> d" if "v \<in> set (sessions (stop_session (ws_id w) t db))" "is_open v" for v
  proof -
    from that have "v \<in> set (sessions db)" "ws_id v \<noteq> ws_id w" by (auto simp: in_update_where)
    with open_device_unique [OF inv _ w(1) that(2) w(2)] w(3) show ?thesis by auto
  qed
  with stop_session_inv [OF inv w(1,2)] timer_stop [OF inv w(1,2), of t] stop_session_forward [of db "ws_id w" t] w(3)
  show ?thesis by (simp add: stage_def on_device_def)
qed

lemma expire_lease_stage:
  assumes "work_inv db" "on_device db d s" "expire_lease p s t h db = (db', s')"
  shows "stage d db db' s'"
  using assms stage_stop [OF assms(1)] stage_refl [OF assms(1)]
  by (auto simp: expire_lease_def split: option.splits if_splits)

lemma leave_task_stage:
  assumes "work_inv db" "on_device db d s" "leave_task s task project t db = (db', s')"
  shows "stage d db db' s'"
  using assms stage_stop [OF assms(1)] stage_refl [OF assms(1)]
  by (auto simp: leave_task_def split: option.splits if_splits)

lemma leave_task_same:
  "leave_task s task project t db = (db', Some w) \<Longrightarrow> ws_task w = task \<and> ws_project w = project"
  by (auto simp: leave_task_def split: option.splits if_splits)

text \<open>Taking over from another device of the owner.\<close>

definition taken_over :: "device \<Rightarrow> session_status \<Rightarrow> db \<Rightarrow> uuid \<Rightarrow> bool" where
  "taken_over dev status db d \<longleftrightarrow> status \<noteq> Stopped \<and> truthy (dv_owner dev) \<and> d \<noteq> dv_id dev \<and>
     exists_row (\<lambda>w. is_open w \<and> ws_device w = d \<and> ws_user w = dv_owner dev) (sessions db)"

lemma taken_over_other:
  assumes "work_inv db" "status \<noteq> Stopped" "truthy (dv_owner dev)"
  shows "taken_over dev status db d \<longleftrightarrow>
    (case other_session (the (dv_owner dev)) (dv_id dev) db of None \<Rightarrow> False | Some w \<Rightarrow> ws_device w = d)"
proof -
  obtain u where u: "dv_owner dev = Some u" using assms(3) by (auto simp: truthy_def split: option.splits)
  show ?thesis
  proof (cases "other_session u (dv_id dev) db")
    case None
    then show ?thesis using assms u
      by (auto simp: other_session_def max_row_filter_None taken_over_def table_simps)
  next
    case (Some w)
    then have w: "w \<in> set (sessions db)" "ws_user w = Some u" "ws_device w \<noteq> dv_id dev" "is_open w"
      by (auto simp: other_session_def dest!: max_row_filter_in)
    have "v = w" if "v \<in> set (sessions db)" "is_open v" "ws_user v = Some u" for v
      by (rule open_user_unique [OF assms(1)]) (use w that in auto)
    then have "(\<exists>v \<in> set (sessions db). is_open v \<and> ws_device v = d \<and> ws_user v = Some u) \<longleftrightarrow> ws_device w = d"
      using w by metis
    then have "taken_over dev status db d \<longleftrightarrow> ws_device w = d"
      using assms(2,3) u w(3) by (simp add: taken_over_def exists_row_iff) metis
    with u Some show ?thesis by simp
  qed
qed

lemma switch_device_stage:
  assumes inv: "work_inv db" and on: "on_device db (dv_id dev) s"
    and r: "switch_device dev status transition t db = Inr db'"
  shows "work_inv db' \<and> on_device db' (dv_id dev) s \<and> (segments_forward db \<longrightarrow> segments_forward db') \<and>
    state_events db' = state_events db \<and>
    timer db' = (\<lambda>d. if taken_over dev status db d then None else timer db d)"
proof (cases "status \<noteq> Stopped \<and> truthy (dv_owner dev)")
  case False
  with r have "db' = db" by (cases status) (auto simp: switch_device_def split: if_splits)
  with False inv on show ?thesis by (auto simp: taken_over_def)
next
  case True
  then have st: "status \<in> {Active, Paused}" by (cases status) auto
  note t = taken_over_other [OF inv] 
  show ?thesis
  proof (cases "other_session (the (dv_owner dev)) (dv_id dev) db")
    case None
    with r True st have "db' = db" by (auto simp: switch_device_def)
    with None True t inv on show ?thesis by auto
  next
    case (Some w)
    with r True st have db': "db' = stop_session (ws_id w) t db"
      by (auto simp: switch_device_def split: if_splits)
    from Some have w: "w \<in> set (sessions db)" "ws_device w \<noteq> dv_id dev" "is_open w"
      by (auto simp: other_session_def dest!: max_row_filter_in)
    have "on_device db' (dv_id dev) s"
      using on w session_id_unique [OF inv _ w(1)] unfolding db'
      by (auto simp: on_device_def in_update_where split: option.splits)
    with stop_session_inv [OF inv w(1,3)] timer_stop [OF inv w(1,3), of t] True Some t
      stop_session_forward [of db "ws_id w" t]
    show ?thesis unfolding db' by (auto simp: fun_upd_def)
  qed
qed

subsection \<open>Opening and continuing a session\<close>

lemma sessions_ok_insert:
  assumes ok: "sessions_ok ws" and o: "is_open w" "ws_ended w = None"
    and new: "\<not> exists_row (\<lambda>v. ws_id v = ws_id w \<or> (is_open v \<and> is_open w \<and> (ws_device v = ws_device w \<or>
              (ws_user w \<noteq> None \<and> ws_user v = ws_user w)))) ws"
  shows "sessions_ok (ws @ [w])"
proof -
  have "ws_id w \<notin> ws_id ` set ws" "ws_device w \<notin> ws_device ` set (filter is_open ws)"
    "ws_user w \<noteq> None \<Longrightarrow> ws_user w \<notin> ws_user ` set (filter (\<lambda>w. is_open w \<and> ws_user w \<noteq> None) ws)"
    using new o by (auto simp: table_simps)
  with ok o show ?thesis by (simp add: sessions_ok_def)
qed

lemma running_0: "i \<notin> sg_session ` set gs \<Longrightarrow> running i gs = 0"
  by (auto simp: running_def rowcount_0)

lemma running_append:
  "running i (gs @ [g]) = running i gs + (if sg_session g = i \<and> sg_ended g = None then 1 else 0)"
  by (simp add: running_def)

lemma start_segment_ok:
  assumes "start_segment k i t db = Inr db'"
  shows "sessions db' = sessions db" "state_events db' = state_events db"
    "segments db' = segments db @ [\<lparr>sg_id = k, sg_session = i, sg_started = t, sg_ended = None\<rparr>]"
    "k \<notin> sg_id ` set (segments db)"
  using assms by (auto simp: start_segment_def table_simps split: if_splits)

lemma insert_session_ok:
  assumes "insert_session w db = Inr db'"
  shows "sessions db' = sessions db @ [w]" "state_events db' = state_events db" "segments db' = segments db"
    "\<not> exists_row (\<lambda>v. ws_id v = ws_id w \<or> (is_open v \<and> is_open w \<and> (ws_device v = ws_device w \<or>
              (ws_user w \<noteq> None \<and> ws_user v = ws_user w)))) (sessions db)"
  using assms by (simp_all add: insert_session_def split: if_splits) auto

lemma segments_forward_start:
  "segments_forward db \<Longrightarrow> start_segment k i t db = Inr db' \<Longrightarrow> segments_forward db'"
  by (auto simp: segments_forward_def start_segment_ok(3))

lemma open_session_ok:
  assumes inv: "work_inv db" and st: "rq_status rq \<noteq> Stopped" and r: "open_session dev rq t now db = Inr db'"
  shows "work_inv db' \<and> (segments_forward db \<longrightarrow> segments_forward db') \<and> state_events db' = state_events db \<and>
    (\<exists>w. sessions db' = sessions db @ [w] \<and> is_open w \<and> ws_id w = rq_session_id rq \<and> ws_device w = dv_id dev \<and>
       ws_status w = rq_status rq \<and> ws_project w = rq_project rq \<and> ws_task w = rq_task rq)"
proof -
  define w where "w = \<lparr>ws_id = rq_session_id rq, ws_user = dv_owner dev, ws_device = dv_id dev,
         ws_project = rq_project rq, ws_task = rq_task rq, ws_status = rq_status rq,
         ws_note = take 500 (strip (rq_note rq)), ws_started = t, ws_ended = None,
         ws_created = now, ws_updated = now\<rparr>"
  have w: "ws_id w = rq_session_id rq" "ws_device w = dv_id dev" "ws_status w = rq_status rq"
    "ws_project w = rq_project rq" "ws_task w = rq_task rq" "is_open w" "ws_ended w = None"
    using st by (cases "rq_status rq"; simp add: w_def is_open_def)+
  from r obtain db1 where ins: "insert_session w db = Inr db1"
    and seg: "db' = db1 \<and> rq_status rq \<noteq> Active \<or>
              start_segment (rq_segment_id rq) (ws_id w) t db1 = Inr db' \<and> rq_status rq = Active"
    by (auto simp: open_session_def w_def split: sum.splits if_splits)
  note i = insert_session_ok [OF ins]
  have ss: "sessions_ok (sessions db1)"
    using inv sessions_ok_insert [OF _ w(6,7) i(4)] by (simp add: i work_inv_def)
  have fresh: "ws_id w \<notin> ws_id ` set (sessions db)" using i(4) by (auto simp: table_simps)
  with inv have none: "running (ws_id w) (segments db) = 0"
    by (intro running_0) (auto simp: work_inv_def segments_ok_def)
  have "segments_ok (sessions db1) (segments db') \<and> sessions db' = sessions db1 \<and> state_events db' = state_events db1"
    using seg
  proof (elim disjE conjE)
    assume "db' = db1" "rq_status rq \<noteq> Active"
    with inv none w show ?thesis by (auto simp: work_inv_def segments_ok_def i)
  next
    assume s: "start_segment (rq_segment_id rq) (ws_id w) t db1 = Inr db'" and a: "rq_status rq = Active"
    note g = start_segment_ok [OF s]
    have "running (ws_id v) (segments db') = (if ws_status v = Active then 1 else 0)"
      if "v \<in> set (sessions db1)" for v
      using that inv none fresh a w(3)
      by (auto simp: g i running_append work_inv_def segments_ok_def)
    with inv g show ?thesis by (auto simp: work_inv_def segments_ok_def i)
  qed
  moreover have "segments_forward db \<longrightarrow> segments_forward db'"
    using seg segments_forward_start [of db1 "rq_segment_id rq" "ws_id w" t db'] i(3)
    by (auto simp: segments_forward_def)
  ultimately show ?thesis using ss w i inv by (auto simp: work_inv_def)
qed

lemma close_segment_ok [simp]:
  "sessions (close_segment i t db) = sessions db" "state_events (close_segment i t db) = state_events db"
  "segments (close_segment i t db) = update_where (\<lambda>g. sg_ended g = None \<and> sg_session g = i)
     (\<lambda>g. g\<lparr>sg_ended := Some (max (sg_started g) t)\<rparr>) (segments db)"
  by (simp_all add: close_segment_def conj_commute)

lemma close_segment_forward: "segments_forward db \<Longrightarrow> segments_forward (close_segment i t db)"
  by (erule segments_forward_end [where p = "\<lambda>j. j = i" and f = "\<lambda>g. max (sg_started g) t"]) simp_all

text \<open>The update of an open session that stays open.\<close>

definition retimed :: "report \<Rightarrow> timestamp \<Rightarrow> work_session \<Rightarrow> work_session" where
  "retimed rq now v = v\<lparr>ws_status := rq_status rq, ws_note := take 500 (strip (rq_note rq)), ws_updated := now\<rparr>"

lemma retimed_simps [simp]:
  "ws_id (retimed rq n v) = ws_id v" "ws_device (retimed rq n v) = ws_device v"
  "ws_user (retimed rq n v) = ws_user v" "ws_status (retimed rq n v) = rq_status rq"
  "ws_project (retimed rq n v) = ws_project v" "ws_task (retimed rq n v) = ws_task v"
  "ws_ended (retimed rq n v) = ws_ended v"
  by (simp_all add: retimed_def)

lemma filter_retimed:
  assumes "\<And>v. v \<in> set ws \<Longrightarrow> q v \<Longrightarrow> is_open v" "\<And>v. is_open (retimed rq n v)"
  shows "map f (filter (\<lambda>w. is_open w \<and> R (ws_user w)) (update_where q (retimed rq n) ws)) =
    map (\<lambda>w. f (if q w then retimed rq n w else w)) (filter (\<lambda>w. is_open w \<and> R (ws_user w)) ws)"
  using assms by (induction ws) auto

lemma sessions_ok_retimed:
  assumes ok: "sessions_ok ws" and q: "\<And>v. v \<in> set ws \<Longrightarrow> q v \<Longrightarrow> is_open v" and st: "rq_status rq \<noteq> Stopped"
  shows "sessions_ok (update_where q (retimed rq n) ws)"
proof -
  have o: "\<And>v. is_open (retimed rq n v)" using st by (cases "rq_status rq") (simp_all add: is_open_def)
  have same: "(\<lambda>w. ws_device (if q w then retimed rq n w else w)) = ws_device"
    "(\<lambda>w. ws_user (if q w then retimed rq n w else w)) = ws_user" by auto
  have "map ws_id (update_where q (retimed rq n) ws) = map ws_id ws" by (rule map_update_where) simp
  moreover have "map ws_device (filter is_open (update_where q (retimed rq n) ws)) = map ws_device (filter is_open ws)"
    using filter_retimed [where R = "\<lambda>_. True" and f = ws_device, OF q o] unfolding same by simp
  moreover have "map ws_user (filter (\<lambda>w. is_open w \<and> ws_user w \<noteq> None) (update_where q (retimed rq n) ws)) =
      map ws_user (filter (\<lambda>w. is_open w \<and> ws_user w \<noteq> None) ws)"
    using filter_retimed [where R = "\<lambda>u. u \<noteq> None" and f = ws_user, OF q o] unfolding same by simp
  moreover have "\<forall>w \<in> set (update_where q (retimed rq n) ws). ws_ended w = None \<longleftrightarrow> is_open w"
    using ok q o by (auto simp: in_update_where sessions_ok_def)
  ultimately show ?thesis using ok unfolding sessions_ok_def by simp
qed

text \<open>What a move between active and paused leaves of the segments.\<close>

definition segments_moved :: "work_session \<Rightarrow> session_status \<Rightarrow> db \<Rightarrow> db \<Rightarrow> bool" where
  "segments_moved w status db db1 \<longleftrightarrow> distinct (map sg_id (segments db1)) \<and>
     sg_session ` set (segments db1) \<subseteq> insert (ws_id w) (sg_session ` set (segments db)) \<and>
     (\<forall>i. running i (segments db1) =
        (if i = ws_id w then (if status = Active then 1 else 0) else running i (segments db))) \<and>
     sessions db1 = sessions db \<and> state_events db1 = state_events db \<and>
     (segments_forward db \<longrightarrow> segments_forward db1)"

lemma segments_moved_close:
  assumes "distinct (map sg_id (segments db))"
  shows "segments_moved w Paused db (close_segment (ws_id w) t db)"
proof -
  have "map sg_id (segments (close_segment (ws_id w) t db)) = map sg_id (segments db)"
    by (simp, rule map_update_where) simp
  with assms close_segment_forward [of db "ws_id w" t] show ?thesis
    by (auto simp: segments_moved_def in_update_where running_end [where p = "\<lambda>j. j = ws_id w"])
qed

lemma segments_moved_start:
  assumes "distinct (map sg_id (segments db))" "running (ws_id w) (segments db) = 0"
    and s: "start_segment k (ws_id w) t db = Inr db1"
  shows "segments_moved w Active db db1"
  using assms start_segment_ok [OF s] segments_forward_start [OF _ s]
  by (auto simp: segments_moved_def running_append)

lemma continue_session_ok:
  assumes inv: "work_inv db" and on: "on_device db d (Some w)" and st: "rq_status rq \<noteq> Stopped"
    and r: "continue_session w rq t now db = Inr db'"
  shows "work_inv db' \<and> (segments_forward db \<longrightarrow> segments_forward db') \<and> state_events db' = state_events db \<and>
    sessions db' = update_where (\<lambda>v. ws_id v = ws_id w) (retimed rq now) (sessions db)"
proof -
  from on have w: "w \<in> set (sessions db)" "is_open w" "ws_device w = d" by (simp_all add: on_device_def)
  from inv have seg: "distinct (map sg_id (segments db))" "sg_session ` set (segments db) \<subseteq> ws_id ` set (sessions db)"
    and run: "running (ws_id w) (segments db) = (if ws_status w = Active then 1 else 0)"
    using w(1) by (auto simp: work_inv_def segments_ok_def)
  from r obtain db1 where moved: "(if rq_status rq = Paused \<and> ws_status w = Active
             then Inr (close_segment (ws_id w) (t - seconds (rq_idle rq)) db)
             else if rq_status rq = Active \<and> ws_status w = Paused
             then start_segment (rq_segment_id rq) (ws_id w) t db
             else Inr db) = Inr db1"
    and db': "db' = db1\<lparr>sessions := update_where (\<lambda>v. ws_id v = ws_id w) (retimed rq now) (sessions db1)\<rparr>"
    by (auto simp: continue_session_def Let_def retimed_def [abs_def] split: sum.splits)
  have m: "segments_moved w (rq_status rq) db db1"
  proof (cases "rq_status rq = ws_status w")
    case True
    with moved have "db1 = db" by (auto split: if_splits)
    with True seg run show ?thesis by (auto simp: segments_moved_def)
  next
    case False
    with st w(2) consider "rq_status rq = Paused" "ws_status w = Active" | "rq_status rq = Active" "ws_status w = Paused"
      by (cases "rq_status rq"; cases "ws_status w") (auto simp: is_open_def)
    then show ?thesis
    proof cases
      case 1
      with moved segments_moved_close [OF seg(1)] show ?thesis by auto
    next
      case 2
      with moved segments_moved_start [OF seg(1), of w] run show ?thesis by auto
    qed
  qed
  have only: "v = w" if "v \<in> set (sessions db)" "ws_id v = ws_id w" for v
    by (rule session_id_unique [OF inv that(1) w(1) that(2)])
  then have "v \<in> set (sessions db) \<Longrightarrow> ws_id v = ws_id w \<Longrightarrow> is_open v" for v using w(2) by blast
  then have "sessions_ok (sessions db')"
    using inv m sessions_ok_retimed [OF _ _ st, of "sessions db" "\<lambda>v. ws_id v = ws_id w" now]
    by (simp add: db' work_inv_def segments_moved_def)
  moreover have "segments_ok (sessions db') (segments db')"
    unfolding segments_ok_def
  proof (intro conjI ballI)
    have ids: "ws_id ` set (sessions db') = ws_id ` set (sessions db)"
      using m arg_cong [OF map_update_where [of "sessions db" "\<lambda>v. ws_id v = ws_id w" ws_id "retimed rq now"], of set]
      by (simp add: db' segments_moved_def)
    show "distinct (map sg_id (segments db'))" using m by (simp add: db' segments_moved_def)
    fix g assume "g \<in> set (segments db')"
    then have "sg_session g \<in> insert (ws_id w) (sg_session ` set (segments db))"
      using m by (auto simp: db' segments_moved_def)
    with seg(2) w(1) show "sg_session g \<in> ws_id ` set (sessions db')" unfolding ids by auto
  next
    fix v assume "v \<in> set (sessions db')"
    then obtain u where u: "u \<in> set (sessions db)" "v = (if ws_id u = ws_id w then retimed rq now u else u)"
      using m by (auto simp: db' segments_moved_def in_update_where)
    moreover have "running (ws_id u) (segments db) = (if ws_status u = Active then 1 else 0)"
      using inv u(1) by (simp add: work_inv_def segments_ok_def)
    ultimately show "running (ws_id v) (segments db') = (if ws_status v = Active then 1 else 0)"
      using m by (simp add: db' segments_moved_def)
  qed
  ultimately show ?thesis using inv m
    by (simp add: work_inv_def db' segments_moved_def) (simp add: segments_forward_def)
qed

subsection \<open>The whole report\<close>

lemma log_event_ok:
  assumes "log_event dev rq t now i db = Inr db'"
  shows "sessions db' = sessions db" "segments db' = segments db"
    "truthy (rq_event rq) \<Longrightarrow> \<exists>ev. state_events db' = state_events db @ [ev] \<and> ev_device ev = dv_id dev \<and>
       Some (ev_id ev) = rq_event rq \<and> ev_observed ev = t \<and> ev_session ev = i \<and> ev_status ev = rq_status rq \<and>
       (\<forall>e \<in> set (state_events db). ev_device e = dv_id dev \<longrightarrow> ev_id e \<noteq> ev_id ev)"
    "\<not> truthy (rq_event rq) \<Longrightarrow> db' = db"
  using assms
  by (auto simp: log_event_def insert_state_event_def truthy_iff table_simps split: if_splits)

lemma timer_sessions: "sessions db' = sessions db \<Longrightarrow> timer db' = timer db"
  by (rule ext) (simp add: timer_def)

lemma events_ok_append:
  assumes "es' = es @ [ev]" "(ev_device ev, ev_id ev) \<notin> (\<lambda>e. (ev_device e, ev_id e)) ` set es"
    and "\<forall>e \<in> set es. ev_device e = ev_device ev \<longrightarrow> ev_observed e \<le> ev_observed ev" and "events_ok es"
  shows "events_ok es'"
  unfolding assms(1) events_ok_def
proof
  show "distinct (map (\<lambda>e. (ev_device e, ev_id e)) (es @ [ev]))"
    using assms(2,4) by (simp add: events_ok_def)
  show "sorted_wrt (\<lambda>e e'. ev_device e = ev_device e' \<longrightarrow> ev_observed e \<le> ev_observed e') (es @ [ev])"
    unfolding sorted_wrt_append using assms(3,4) unfolding events_ok_def by simp
qed

lemma log_event_inv:
  assumes inv: "work_inv db" and r: "log_event dev rq t now i db = Inr db'"
    and late: "truthy (rq_event rq) \<Longrightarrow> \<forall>e \<in> set (state_events db). ev_device e = dv_id dev \<longrightarrow> ev_observed e \<le> t"
  shows "work_inv db' \<and> (segments_forward db \<longrightarrow> segments_forward db') \<and> timer db' = timer db"
proof (cases "truthy (rq_event rq)")
  case True
  note l = log_event_ok [OF r]
  from l(3) [OF True] obtain ev where ev: "state_events db' = state_events db @ [ev]" "ev_device ev = dv_id dev"
    "ev_observed ev = t" "\<forall>e \<in> set (state_events db). ev_device e = dv_id dev \<longrightarrow> ev_id e \<noteq> ev_id ev"
    by blast
  have "(ev_device ev, ev_id ev) \<notin> (\<lambda>e. (ev_device e, ev_id e)) ` set (state_events db)"
    using ev(2,4) by force
  moreover have "\<forall>e \<in> set (state_events db). ev_device e = ev_device ev \<longrightarrow> ev_observed e \<le> ev_observed ev"
    using late [OF True] ev(2,3) by simp
  moreover have "events_ok (state_events db)" using inv by (simp add: work_inv_def)
  ultimately have "events_ok (state_events db')" by (rule events_ok_append [OF ev(1)])
  with inv l(1,2) timer_sessions [OF l(1)] show ?thesis by (simp add: work_inv_def segments_forward_def)
next
  case False
  with log_event_ok(4) [OF r] inv show ?thesis by simp
qed

text \<open>What the device does after a report; the abstract transition a report refines.\<close>

definition reported :: "device \<Rightarrow> report \<Rightarrow> db \<Rightarrow> uuid \<Rightarrow> (session_status \<times> uuid option \<times> uuid option) option" where
  "reported dev rq db d =
     (if d = dv_id dev then
        (if rq_status rq = Stopped then None else Some (rq_status rq, rq_project rq, rq_task rq))
      else if taken_over dev (rq_status rq) db d then None else timer db d)"

lemma timer_append:
  assumes "sessions db' = sessions db @ [w]" "is_open w" "on_device db (ws_device w) None"
  shows "timer db' = (timer db)(ws_device w := Some (ws_status w, ws_project w, ws_task w))"
proof
  fix d
  have "find (\<lambda>v. is_open v \<and> ws_device v = ws_device w) (sessions db) = None"
    using assms(3) by (auto simp: on_device_def find_None_all)
  moreover have "find P (xs @ ys) = (case find P xs of None \<Rightarrow> find P ys | Some x \<Rightarrow> Some x)"
    for P and xs ys :: "work_session list" by (induction xs) auto
  ultimately show "timer db' d = ((timer db)(ws_device w := Some (ws_status w, ws_project w, ws_task w))) d"
    using assms(1,2) by (auto simp: timer_def split: option.splits)
qed

lemma timer_retimed:
  assumes inv: "work_inv db" and on: "on_device db d (Some w)" and st: "rq_status rq \<noteq> Stopped"
    and s: "sessions db' = update_where (\<lambda>v. ws_id v = ws_id w) (retimed rq n) (sessions db)"
  shows "timer db' = (timer db)(d := Some (rq_status rq, ws_project w, ws_task w))"
proof
  fix e
  from on have w: "w \<in> set (sessions db)" "is_open w" "ws_device w = d" by (simp_all add: on_device_def)
  have only: "v = w" if "v \<in> set (sessions db)" "ws_id v = ws_id w" for v
    by (rule session_id_unique [OF inv that(1) w(1) that(2)])
  have o: "\<And>v. is_open (retimed rq n v)" using st by (cases "rq_status rq") (simp_all add: is_open_def)
  have f: "find (\<lambda>v. is_open v \<and> ws_device v = e) (update_where q (retimed rq n) ws) =
      map_option (\<lambda>v. if q v then retimed rq n v else v) (find (\<lambda>v. is_open v \<and> ws_device v = e) ws)"
    if "\<And>v. v \<in> set ws \<Longrightarrow> q v \<Longrightarrow> is_open v" for q ws
    using that o by (induction ws) auto
  have "q \<in> set (sessions db) \<Longrightarrow> ws_id q = ws_id w \<Longrightarrow> is_open q" for q using only w(2) by blast
  note f = f [of "sessions db" "\<lambda>v. ws_id v = ws_id w", OF this]
  show "timer db' e = ((timer db)(d := Some (rq_status rq, ws_project w, ws_task w))) e"
  proof (cases "find (\<lambda>v. is_open v \<and> ws_device v = e) (sessions db)")
    case None
    with w have "e \<noteq> d" by (auto simp: find_None_all)
    with None f s show ?thesis by (simp add: timer_def)
  next
    case (Some v)
    note v = find_in_set [OF Some]
    show ?thesis
    proof (cases "e = d")
      case True
      have "v = w" by (rule open_device_unique [OF inv]) (use v w True in auto)
      with f s Some True show ?thesis by (simp add: timer_def)
    next
      case False
      with v w only have "ws_id v \<noteq> ws_id w" by blast
      with f s Some False show ?thesis by (simp add: timer_def)
    qed
  qed
qed

lemma session_found:
  assumes "work_inv db" "w \<in> set (sessions db)" "ws_id w = i"
  shows "session_in_connection i db = Some w"
  using assms find_unique [of ws_id "sessions db" w]
  by (simp add: session_in_connection_def work_inv_def sessions_ok_def)

lemma on_device_sessions: "sessions db' = sessions db \<Longrightarrow> on_device db' d s = on_device db d s"
  by (simp add: on_device_def split: option.split)

text \<open>The last stage: open or continue a session.\<close>

lemma open_or_continue:
  assumes inv: "work_inv db" and on: "on_device db (dv_id dev) s" and st: "rq_status rq \<noteq> Stopped"
    and same: "\<And>w. s = Some w \<Longrightarrow> ws_task w = rq_task rq \<and> ws_project w = rq_project rq"
    and r: "(case s of None \<Rightarrow> open_session dev rq t now db | Some w \<Rightarrow> continue_session w rq t now db) = Inr db'"
  shows "work_inv db' \<and> (segments_forward db \<longrightarrow> segments_forward db') \<and> state_events db' = state_events db \<and>
    timer db' = (timer db)(dv_id dev := Some (rq_status rq, rq_project rq, rq_task rq)) \<and>
    (\<exists>w \<in> set (sessions db'). is_open w \<and> ws_device w = dv_id dev \<and>
       ws_id w = (case s of None \<Rightarrow> rq_session_id rq | Some w \<Rightarrow> ws_id w))"
proof (cases s)
  case None
  with r open_session_ok [OF inv st, of dev t now db'] obtain w
    where w: "sessions db' = sessions db @ [w]" "is_open w" "ws_id w = rq_session_id rq" "ws_device w = dv_id dev"
      "ws_status w = rq_status rq" "ws_project w = rq_project rq" "ws_task w = rq_task rq"
    and rest: "work_inv db'" "segments_forward db \<longrightarrow> segments_forward db'" "state_events db' = state_events db"
    by auto
  with timer_append [OF w(1,2)] on None show ?thesis by simp
next
  case (Some w)
  from on Some have w: "w \<in> set (sessions db)" "is_open w" "ws_device w = dv_id dev" by (simp_all add: on_device_def)
  from r Some have c: "continue_session w rq t now db = Inr db'" by simp
  from on Some have on': "on_device db (dv_id dev) (Some w)" by simp
  note k = continue_session_ok [OF inv on' st c]
  have "retimed rq now w \<in> set (sessions db')" using k w(1) by (auto simp: in_update_where)
  moreover have "is_open (retimed rq now w)" using st by (cases "rq_status rq") (simp_all add: is_open_def)
  ultimately have "\<exists>v \<in> set (sessions db'). is_open v \<and> ws_device v = dv_id dev \<and> ws_id v = ws_id w"
    using w(3) by (intro bexI [of _ "retimed rq now w"]) auto
  with k timer_retimed [OF inv on' st, of db' now] same [OF Some] Some show ?thesis by auto
qed

lemma apply_report_ok:
  assumes inv: "work_inv db" and r: "apply_report dev rq prev t now db = Inr (db', res)"
    and late: "truthy (rq_event rq) \<Longrightarrow> \<forall>e \<in> set (state_events db). ev_device e = dv_id dev \<longrightarrow> ev_observed e \<le> t"
  shows "work_inv db' \<and> (segments_forward db \<longrightarrow> segments_forward db') \<and> timer db' = reported dev rq db \<and>
    on_device db' (dv_id dev) res \<and> (res = None \<longleftrightarrow> rq_status rq = Stopped) \<and>
    (truthy (rq_event rq) \<longrightarrow> (\<exists>ev. state_events db' = state_events db @ [ev] \<and> ev_device ev = dv_id dev \<and>
       Some (ev_id ev) = rq_event rq \<and> ev_session ev = map_option ws_id res)) \<and>
    (\<not> truthy (rq_event rq) \<longrightarrow> state_events db' = state_events db)"
proof -
  define s where "s = device_session (dv_id dev) db"
  have on: "on_device db (dv_id dev) s" by (simp add: s_def device_session_on)
  obtain db1 where sw: "switch_device dev (rq_status rq) (rq_transition rq) t db = Inr db1"
    using r by (cases "switch_device dev (rq_status rq) (rq_transition rq) t db") (simp_all add: apply_report_def)
  obtain db2 s2 where ex: "expire_lease prev s t (rq_heartbeat rq) db1 = (db2, s2)" by fastforce
  obtain db3 s3 where lv: "leave_task s2 (rq_task rq) (rq_project rq) t db2 = (db3, s3)" by fastforce
  note r' = r [unfolded apply_report_def Let_def s_def [symmetric] sw sum.case ex prod.case lv]
  note k1 = switch_device_stage [OF inv on sw]
  have k2: "stage (dv_id dev) db1 db2 s2" using k1 ex by (intro expire_lease_stage) auto
  have k3: "stage (dv_id dev) db2 db3 s3" using k2 lv by (intro leave_task_stage [OF _ _ lv]) (auto simp: stage_def)
  have k: "work_inv db3" "on_device db3 (dv_id dev) s3" "segments_forward db \<longrightarrow> segments_forward db3"
    "state_events db3 = state_events db"
    "\<And>d. d \<noteq> dv_id dev \<Longrightarrow> timer db3 d = (if taken_over dev (rq_status rq) db d then None else timer db d)"
    using k1 stage_trans [OF k2 k3] by (auto simp: stage_def)
  show ?thesis
  proof (cases "rq_status rq = Stopped")
    case True
    define db4 where "db4 = (case s3 of None \<Rightarrow> db3 | Some w \<Rightarrow> stop_session (ws_id w) t db3)"
    have k4: "stage (dv_id dev) db3 db4 None"
      using stage_stop [OF k(1)] stage_refl [OF k(1)] k(2) by (auto simp: db4_def split: option.split)
    from r' True have lg: "log_event dev rq t now None db4 = Inr db'" and "res = None"
      by (auto simp: db4_def split: sum.splits)
    have ev: "state_events db4 = state_events db" using k4 k by (simp add: stage_def)
    have i: "work_inv db4" using k4 by (simp add: stage_def)
    note l = log_event_ok [OF lg] and li = log_event_inv [OF i lg late [folded ev]]
    have on4: "on_device db4 (dv_id dev) None" using k4 by (simp add: stage_def)
    have t4: "timer db4 = reported dev rq db"
      using k4 k(5) timer_on [OF i on4] True by (auto simp: stage_def reported_def)
    show ?thesis using li l k4 k \<open>res = None\<close> True t4 on4 on_device_sessions [OF l(1)] ev
      by (auto simp: stage_def)
  next
    case False
    define i where "i = (case s3 of None \<Rightarrow> rq_session_id rq | Some w \<Rightarrow> ws_id w)"
    from r' False obtain db4 where
      oc: "(case s3 of None \<Rightarrow> open_session dev rq t now db3 | Some w \<Rightarrow> continue_session w rq t now db3) = Inr db4"
      and lg: "log_event dev rq t now (Some i) db4 = Inr db'" and res: "res = session_in_connection i db'"
      by (auto simp: i_def split: sum.splits)
    have same: "ws_task w = rq_task rq \<and> ws_project w = rq_project rq" if "s3 = Some w" for w
      using leave_task_same [of s2 "rq_task rq" "rq_project rq" t db2 db3 w] lv that by simp
    note k4 = open_or_continue [OF k(1,2) False same oc]
    then have i4: "work_inv db4" and ev: "state_events db4 = state_events db" using k by auto
    note l = log_event_ok [OF lg] and li = log_event_inv [OF i4 lg late [folded ev]]
    from k4 l(1) obtain w where w: "w \<in> set (sessions db')" "is_open w" "ws_device w = dv_id dev" "ws_id w = i"
      by (auto simp: i_def)
    have found: "res = Some w" using session_found [OF _ w(1,4)] li res by simp
    have "timer db' = reported dev rq db"
      using li k4 k(5) False by (auto simp: reported_def)
    with li l k4 k w found False ev show ?thesis by (auto simp: on_device_def)
  qed
qed

lemma clamp_late:
  assumes "e \<in> set (state_events db)" "ev_device e = d"
  shows "ev_observed e \<le> clamp_observed (previous_event d db) t"
proof (cases "previous_event d db")
  case None
  with assms show ?thesis by (auto simp: previous_event_def max_row_filter_None)
next
  case (Some p)
  with assms max_row_max [of ev_observed "filter (\<lambda>e. ev_device e = d) (state_events db)" p e]
  show ?thesis by (simp add: previous_event_def clamp_observed_def max.coboundedI2)
qed

definition replayed :: "device \<Rightarrow> report \<Rightarrow> db \<Rightarrow> bool" where
  "replayed dev rq db \<longleftrightarrow> truthy (rq_event rq) \<and>
     exists_row (\<lambda>e. ev_device e = dv_id dev \<and> Some (ev_id e) = rq_event rq) (state_events db)"

lemma sync_transaction_ok:
  assumes inv: "work_inv db" and r: "sync_transaction dev owner rq now db = Inr (db', res)"
  shows "work_inv db' \<and> (segments_forward db \<longrightarrow> segments_forward db') \<and>
    (if replayed dev rq db then db' = db
     else timer db' = reported dev rq db \<and> on_device db' (dv_id dev) res \<and>
       (res = None \<longleftrightarrow> rq_status rq = Stopped) \<and>
       (truthy (rq_event rq) \<longrightarrow> (\<exists>ev. state_events db' = state_events db @ [ev] \<and> ev_device ev = dv_id dev \<and>
          Some (ev_id ev) = rq_event rq \<and> ev_session ev = map_option ws_id res)))"
proof (cases "replayed dev rq db")
  case True
  then obtain e where "find (\<lambda>e. ev_device e = dv_id dev \<and> ev_id e = the (rq_event rq)) (state_events db) = Some e"
    using find_None_all [of "\<lambda>e. ev_device e = dv_id dev \<and> ev_id e = the (rq_event rq)" "state_events db"]
    by (cases "rq_event rq") (auto simp: replayed_def table_simps truthy_def simp del: not_None_eq)
  with True r have "db' = db" by (auto simp: sync_transaction_def replayed_def split: if_splits)
  with inv True show ?thesis by simp
next
  case False
  show ?thesis
  proof (cases "truthy (rq_event rq)")
    case True
    with False have "find (\<lambda>e. ev_device e = dv_id dev \<and> ev_id e = the (rq_event rq)) (state_events db) = None"
      by (auto simp: replayed_def table_simps truthy_iff find_None_all)
    with r True have "apply_report dev rq (previous_event (dv_id dev) db)
        (clamp_observed (previous_event (dv_id dev) db) (rq_observed rq)) now db = Inr (db', res)"
      by (auto simp: sync_transaction_def Let_def split: if_splits)
    note a = apply_report_ok [OF inv this]
    with clamp_late False True show ?thesis by auto
  next
    case nt: False
    with r have "apply_report dev rq None (rq_observed rq) now db = Inr (db', res)"
      by (auto simp: sync_transaction_def split: if_splits)
    note a = apply_report_ok [OF inv this]
    with False nt show ?thesis by auto
  qed
qed

subsection \<open>Recorded time is never rewritten\<close>

definition history_kept :: "db \<Rightarrow> db \<Rightarrow> bool" where
  "history_kept db db' \<longleftrightarrow>
     (\<forall>g \<in> set (segments db). sg_ended g \<noteq> None \<longrightarrow> g \<in> set (segments db')) \<and>
     (\<forall>w \<in> set (sessions db). \<not> is_open w \<longrightarrow> w \<in> set (sessions db'))"

lemma history_kept_refl: "history_kept db db"
  by (simp add: history_kept_def)

lemma history_kept_trans: "history_kept db db1 \<Longrightarrow> history_kept db1 db2 \<Longrightarrow> history_kept db db2"
  by (simp add: history_kept_def)

lemma history_kept_same:
  "sessions db' = sessions db \<Longrightarrow> segments db' = segments db \<Longrightarrow> history_kept db db'"
  by (simp add: history_kept_def)

lemma history_kept_update:
  assumes "segments db' = update_where (\<lambda>g. sg_ended g = None \<and> p g) f (segments db)"
    and "sessions db' = update_where q h (sessions db)"
    and "\<And>w. w \<in> set (sessions db) \<Longrightarrow> q w \<Longrightarrow> is_open w"
  shows "history_kept db db'"
  using assms by (auto simp: history_kept_def in_update_where)

lemma stop_session_history:
  assumes "work_inv db" "w \<in> set (sessions db)" "is_open w"
  shows "history_kept db (stop_session (ws_id w) t db)"
proof (rule history_kept_update [where p = "\<lambda>g. sg_session g = ws_id w"])
  fix v assume "v \<in> set (sessions db)" "ws_id v = ws_id w"
  with session_id_unique [OF assms(1) _ assms(2)] assms(3) show "is_open v" by blast
qed (simp_all add: stop_session_eq)

lemma switch_device_history:
  assumes "work_inv db" "switch_device dev status transition t db = Inr db'"
  shows "history_kept db db'"
proof -
  let ?o = "other_session (the (dv_owner dev)) (dv_id dev) db"
  show ?thesis
  proof (cases "status \<in> {Active, Paused} \<and> truthy (dv_owner dev) \<and> ?o \<noteq> None")
    case True
    then obtain w where o: "?o = Some w" by blast
    then have w: "w \<in> set (sessions db)" "is_open w" by (auto simp: other_session_def dest!: max_row_filter_in)
    have "db' = stop_session (ws_id w) t db"
      using assms(2) True o by (simp add: switch_device_def split: if_splits)
    then show ?thesis using stop_session_history [OF assms(1) w] by simp
  next
    case False
    have "db' = db"
    proof (cases "status \<in> {Active, Paused} \<and> truthy (dv_owner dev)")
      case True
      with False have "?o = None" by blast
      with True assms(2) show ?thesis unfolding switch_device_def by simp
    next
      case no: False
      show ?thesis using assms(2) unfolding switch_device_def if_not_P [OF no] by simp
    qed
    then show ?thesis by (simp add: history_kept_refl)
  qed
qed

lemma on_device_history:
  assumes "work_inv db" "on_device db d (Some w)"
  shows "history_kept db (stop_session (ws_id w) t db)"
  using assms stop_session_history by (simp add: on_device_def)

lemma expire_lease_history:
  assumes "work_inv db" "on_device db d s" "expire_lease p s t h db = (db', s')"
  shows "history_kept db db'"
  using assms on_device_history [OF assms(1)]
  by (auto simp: expire_lease_def history_kept_refl split: option.splits if_splits)

lemma leave_task_history:
  assumes "work_inv db" "on_device db d s" "leave_task s task project t db = (db', s')"
  shows "history_kept db db'"
  using assms on_device_history [OF assms(1)]
  by (auto simp: leave_task_def history_kept_refl split: option.splits if_splits)

lemma start_segment_history: "start_segment k i t db = Inr db' \<Longrightarrow> history_kept db db'"
  using start_segment_ok [of k i t db db'] by (auto simp: history_kept_def)

lemma close_segment_history: "history_kept db (close_segment i t db)"
  by (auto simp: history_kept_def in_update_where)

lemma open_session_history:
  assumes "open_session dev rq t now db = Inr db'"
  shows "history_kept db db'"
proof -
  obtain w db1 where i: "insert_session w db = Inr db1"
    and s: "db' = db1 \<or> start_segment (rq_segment_id rq) (rq_session_id rq) t db1 = Inr db'"
    using assms by (auto simp: open_session_def split: sum.splits if_splits)
  have "history_kept db db1" using insert_session_ok [OF i] by (simp add: history_kept_def)
  with s start_segment_history history_kept_trans show ?thesis by blast
qed

lemma continue_session_history:
  assumes inv: "work_inv db" and on: "on_device db d (Some w)" and r: "continue_session w rq t now db = Inr db'"
  shows "history_kept db db'"
proof -
  from r obtain db1 where m: "db1 = close_segment (ws_id w) (t - seconds (rq_idle rq)) db \<or>
        start_segment (rq_segment_id rq) (ws_id w) t db = Inr db1 \<or> db1 = db"
    and db': "db' = db1\<lparr>sessions := update_where (\<lambda>v. ws_id v = ws_id w) (retimed rq now) (sessions db1)\<rparr>"
    by (auto simp: continue_session_def Let_def retimed_def [abs_def] split: sum.splits if_splits)
  have h: "history_kept db db1" and s: "sessions db1 = sessions db"
    using m close_segment_history start_segment_history history_kept_refl start_segment_ok(1) by auto
  have "is_open v" if "v \<in> set (sessions db)" "ws_id v = ws_id w" for v
    using session_id_unique [OF inv that(1) _ that(2)] on by (auto simp: on_device_def)
  then have "history_kept db1 db'" by (auto simp: history_kept_def db' in_update_where s)
  with h show ?thesis by (rule history_kept_trans)
qed

lemma apply_report_parts:
  assumes inv: "work_inv db" and r: "apply_report dev rq prev t now db = Inr (db', res)"
  obtains db1 db2 s2 where "switch_device dev (rq_status rq) (rq_transition rq) t db = Inr db1"
    and "expire_lease prev (device_session (dv_id dev) db) t (rq_heartbeat rq) db1 = (db2, s2)"
    and "work_inv db1" "on_device db1 (dv_id dev) (device_session (dv_id dev) db)"
    and "history_kept db db1" "history_kept db1 db2" "history_kept db2 db'"
proof -
  define s where "s = device_session (dv_id dev) db"
  have on: "on_device db (dv_id dev) s" by (simp add: s_def device_session_on)
  obtain db1 where sw: "switch_device dev (rq_status rq) (rq_transition rq) t db = Inr db1"
    using r by (cases "switch_device dev (rq_status rq) (rq_transition rq) t db") (simp_all add: apply_report_def)
  obtain db2 s2 where ex: "expire_lease prev s t (rq_heartbeat rq) db1 = (db2, s2)" by fastforce
  obtain db3 s3 where lv: "leave_task s2 (rq_task rq) (rq_project rq) t db2 = (db3, s3)" by fastforce
  note r' = r [unfolded apply_report_def Let_def s_def [symmetric] sw sum.case ex prod.case lv]
  note k1 = switch_device_stage [OF inv on sw]
  have k2: "stage (dv_id dev) db1 db2 s2" using k1 ex by (intro expire_lease_stage) auto
  have k3: "stage (dv_id dev) db2 db3 s3" using k2 lv by (intro leave_task_stage [OF _ _ lv]) (auto simp: stage_def)
  have h1: "history_kept db db1" by (rule switch_device_history [OF inv sw])
  have h2: "history_kept db1 db2" using k1 by (intro expire_lease_history [OF _ _ ex]) auto
  have h3: "history_kept db2 db3" using k2 by (intro leave_task_history [OF _ _ lv]) (auto simp: stage_def)
  have i3: "work_inv db3" "on_device db3 (dv_id dev) s3" using k3 by (simp_all add: stage_def)
  obtain db4 i where h4: "history_kept db3 db4" and lg: "log_event dev rq t now i db4 = Inr db'"
  proof (cases "rq_status rq = Stopped")
    case True
    have "history_kept db3 (case s3 of None \<Rightarrow> db3 | Some w \<Rightarrow> stop_session (ws_id w) t db3)"
      using i3 on_device_history by (auto split: option.split simp: history_kept_refl)
    with r' True that show ?thesis by (auto split: sum.splits)
  next
    case False
    with r' obtain db4 i where
      oc: "(case s3 of None \<Rightarrow> open_session dev rq t now db3 | Some w \<Rightarrow> continue_session w rq t now db3) = Inr db4"
      and lg: "log_event dev rq t now i db4 = Inr db'"
      by (auto split: sum.splits)
    have "history_kept db3 db4"
      using oc i3 open_session_history [of dev rq t now db3 db4] continue_session_history [OF i3(1), of "dv_id dev"]
      by (cases s3) auto
    with lg that show ?thesis by blast
  qed
  have "history_kept db4 db'" by (rule history_kept_same) (simp_all add: log_event_ok [OF lg])
  with h3 h4 have "history_kept db2 db'" using history_kept_trans by blast
  with that [OF sw] ex h1 h2 k1 s_def show ?thesis by blast
qed

lemma apply_report_history:
  assumes "work_inv db" and "apply_report dev rq prev t now db = Inr (db', res)"
  shows "history_kept db db'"
  using apply_report_parts [OF assms] history_kept_trans by metis

lemma sync_work_session_kept:
  assumes inv: "work_inv db"
    and r: "sync_work_session dev st task sel note ev obs idle hb tr now k1 k2 db = Inr (db', res)"
  shows "work_inv db' \<and> history_kept db db'"
proof -
  from r consider "db' = db" | owner rq where "sync_transaction dev owner rq now db = Inr (db', res)"
    by (auto simp: sync_work_session_def split: option.splits sum.splits pydatetime.splits)
  then show ?thesis
  proof cases
    case 2
    then consider "db' = db" | prev t where "apply_report dev rq prev t now db = Inr (db', res)"
      by (auto simp: sync_transaction_def Let_def split: if_splits option.splits)
    then have "history_kept db db'"
      using apply_report_history [OF inv] history_kept_refl by cases auto
    with sync_transaction_ok [OF inv 2] show ?thesis by simp
  qed (use inv history_kept_refl in simp)
qed

subsection \<open>Operations that end work\<close>

definition kept :: "db \<Rightarrow> db \<Rightarrow> bool" where
  "kept db db' \<longleftrightarrow> work_inv db' \<and> history_kept db db'"

lemma kept_same:
  "work_inv db \<Longrightarrow> sessions db' = sessions db \<Longrightarrow> segments db' = segments db \<Longrightarrow>
   state_events db' = state_events db \<Longrightarrow> kept db db'"
  by (simp add: kept_def work_inv_def history_kept_same)

lemma kept_trans: "kept db db1 \<Longrightarrow> kept db1 db2 \<Longrightarrow> kept db db2"
  unfolding kept_def using history_kept_trans by blast

lemma kept_close:
  assumes inv: "work_inv db"
    and q: "\<And>w. w \<in> set (sessions db) \<Longrightarrow> q w \<longleftrightarrow> is_open w \<and> p (ws_id w)"
    and db': "sessions db' = update_where q (stopped f n) (sessions db)"
      "segments db' = update_where (\<lambda>g. sg_ended g = None \<and> p (sg_session g))
         (\<lambda>g. g\<lparr>sg_ended := Some (h g)\<rparr>) (segments db)"
      "state_events db' = state_events db"
  shows "kept db db'"
proof -
  have "history_kept db db'" by (rule history_kept_update [OF db'(2,1)]) (use q in blast)
  then show ?thesis using work_inv_close [OF inv q db'] by (simp add: kept_def)
qed

text \<open>The sub-select on a session, for the session itself.\<close>

lemma own_open:
  assumes "work_inv db" and "sessions db' = sessions db" and "w \<in> set (sessions db)"
  shows "of_session p (ws_id w) db' \<longleftrightarrow> p w" and "ws_ended w = None \<longleftrightarrow> is_open w"
  using assms of_session_own [of "sessions db" w db' p] by (simp_all add: work_inv_def sessions_ok_def)

lemma set_task_status_kept:
  assumes inv: "work_inv db" and r: "set_task_status k st now db = Inr db'"
  shows "kept db db'"
proof (cases "st = ''archived''")
  case False
  with r show ?thesis
    by (intro kept_same [OF inv]) (auto simp: set_task_status_def Let_def split: option.splits if_splits)
next
  case True
  define db1 where "db1 = db\<lparr>tasks := update_where (\<lambda>t. tk_id t = k) (\<lambda>t. t\<lparr>tk_status := st\<rparr>) (tasks db)\<rparr>"
  define p where "p = (\<lambda>w :: work_session. ws_task w = Some k \<and> ws_ended w = None)"
  define db2 where "db2 = end_segments (\<lambda>i. of_session p i db1) (\<lambda>_. now) db1"
  from r True obtain db3 where b: "end_breaks (\<lambda>b. case wb_session b of None \<Rightarrow> False
             | Some i \<Rightarrow> of_session p i db2) (\<lambda>_. now) db2 = Inr db3"
    and d: "db' = end_sessions p (\<lambda>_. now) now db3"
    by (auto simp: set_task_status_def Let_def p_def db1_def db2_def split: option.splits if_splits sum.splits)
  note f = end_breaks_frame [OF b]
  show ?thesis
  proof (rule kept_close [OF inv, where p = "\<lambda>i. of_session p i db1" and q = p])
    fix w assume "w \<in> set (sessions db)"
    from own_open(1) [OF inv _ this, of db1 p] own_open(2) [OF inv _ this, of db] show "p w \<longleftrightarrow> is_open w \<and> of_session p (ws_id w) db1"
      by (auto simp: db1_def p_def)
  qed (simp_all add: d f db2_def, simp_all add: db1_def)
qed

lemma close_project_work_kept:
  assumes inv: "work_inv db" and r: "close_project_work pid u now db = Inr db'"
  shows "kept db db'"
proof -
  define p where "p = (\<lambda>w :: work_session. ws_project w = Some pid \<and> (truthy u \<longrightarrow> ws_user w = u))"
  define db2 where "db2 = end_sessions (\<lambda>w. p w \<and> is_open w) (\<lambda>w. max now (ws_started w)) now
     (end_segments (\<lambda>i. of_session p i db) (\<lambda>g. max now (sg_started g)) db)"
  have "\<exists>bp bf. end_breaks bp bf db2 = Inr db'"
    using r unfolding close_project_work_def Let_def db2_def p_def by blast
  then obtain bp bf where b: "end_breaks bp bf db2 = Inr db'" by blast
  note f = end_breaks_frame [OF b]
  show ?thesis
  proof (rule kept_close [OF inv, where p = "\<lambda>i. of_session p i db" and q = "\<lambda>w. p w \<and> is_open w"])
    fix w assume "w \<in> set (sessions db)"
    from own_open(1) [OF inv _ this, of db p]
    show "p w \<and> is_open w \<longleftrightarrow> is_open w \<and> of_session p (ws_id w) db" by auto
  qed (simp_all add: f db2_def)
qed

lemma set_project_enabled_kept:
  assumes inv: "work_inv db" and r: "set_project_enabled pid en now db = Inr db'"
  shows "kept db db'"
proof -
  define db1 where "db1 = db\<lparr>projects := update_where (\<lambda>p. pr_id p = pid)
                         (\<lambda>p. p\<lparr>pr_enabled := en\<rparr>) (projects db)\<rparr>"
  have k1: "kept db db1" by (rule kept_same [OF inv]) (simp_all add: db1_def)
  show ?thesis
  proof (cases en)
    case True
    with r have "db' = db1" by (simp add: set_project_enabled_def db1_def Let_def split: if_splits)
    with k1 show ?thesis by simp
  next
    case False
    with r obtain db2 where c: "close_project_work pid None now db1 = Inr db2"
      and d: "db' = db2\<lparr>devices := update_where (\<lambda>d. dv_project d = Some pid)
                  (\<lambda>d. d\<lparr>dv_project := None\<rparr>) (devices db2)\<rparr>"
      by (auto simp: set_project_enabled_def db1_def Let_def split: if_splits sum.splits)
    have k2: "kept db1 db2" using close_project_work_kept [OF _ c] k1 by (simp add: kept_def)
    have "kept db2 db'" using k2 by (intro kept_same) (simp_all add: kept_def d)
    with k1 k2 show ?thesis using kept_trans by blast
  qed
qed

lemma set_device_enabled_kept:
  assumes inv: "work_inv db" and r: "set_device_enabled did en now db = Inr db'"
  shows "kept db db'"
proof -
  define db1 where "db1 = db\<lparr>devices := update_where (\<lambda>d. dv_id d = did)
                         (\<lambda>d. d\<lparr>dv_enabled := en\<rparr>) (devices db)\<rparr>"
  show ?thesis
  proof (cases "en \<or> \<not> exists_row (\<lambda>d. dv_id d = did) (devices db)")
    case True
    with r have "db' = db1 \<or> db' = db" by (auto simp: set_device_enabled_def db1_def Let_def split: if_splits)
    then show ?thesis by (intro kept_same [OF inv]) (auto simp: db1_def)
  next
    case False
    define p where "p = (\<lambda>w :: work_session. ws_device w = did)"
    define db2 where "db2 = end_segments (\<lambda>i. of_session p i db1) (\<lambda>g. max now (sg_started g)) db1"
    from False have ne: "en = False" "exists_row (\<lambda>d. dv_id d = did) (devices db)" by simp_all
    have "(case end_breaks (\<lambda>b. case wb_session b of None \<Rightarrow> False
             | Some i \<Rightarrow> of_session p i db2) (\<lambda>b. max now (wb_started b)) db2 of Inl e \<Rightarrow> Inl e
           | Inr db3 \<Rightarrow> Inr (end_sessions (\<lambda>w. p w \<and> is_open w) (\<lambda>w. max now (ws_started w)) now db3)) = Inr db'"
      using r ne(2) unfolding set_device_enabled_def Let_def p_def db1_def db2_def ne(1) by simp
    then obtain db3 where b: "end_breaks (\<lambda>b. case wb_session b of None \<Rightarrow> False
             | Some i \<Rightarrow> of_session p i db2) (\<lambda>b. max now (wb_started b)) db2 = Inr db3"
      and d: "db' = end_sessions (\<lambda>w. p w \<and> is_open w) (\<lambda>w. max now (ws_started w)) now db3"
      by (auto split: sum.splits)
    note f = end_breaks_frame [OF b]
    show ?thesis
    proof (rule kept_close [OF inv, where p = "\<lambda>i. of_session p i db1" and q = "\<lambda>w. p w \<and> is_open w"])
      fix w assume "w \<in> set (sessions db)"
      from own_open(1) [OF inv _ this, of db1 p]
      show "p w \<and> is_open w \<longleftrightarrow> is_open w \<and> of_session p (ws_id w) db1" by (auto simp: db1_def)
    qed (simp_all add: d f db2_def, simp_all add: db1_def)
  qed
qed

lemma set_user_enabled_kept:
  assumes inv: "work_inv db" and r: "set_user_enabled uid en now db = Inr db'"
  shows "kept db db'"
proof -
  define db1 where "db1 = db\<lparr>users := update_where (\<lambda>u. us_id u = uid)
                         (\<lambda>u. u\<lparr>us_enabled := en\<rparr>) (users db)\<rparr>"
  show ?thesis
  proof (cases en)
    case True
    with r have "db' = db1" by (auto simp: set_user_enabled_def db1_def Let_def split: if_splits)
    then show ?thesis by (intro kept_same [OF inv]) (auto simp: db1_def)
  next
    case False
    define p where "p = (\<lambda>w :: work_session. ws_user w = Some uid)"
    define db3 where "db3 = end_sessions (\<lambda>w. p w \<and> is_open w) (\<lambda>w. max now (ws_started w)) now
       (end_segments (\<lambda>i. of_session p i db1) (\<lambda>g. max now (sg_started g)) db1)"
    from r False obtain db4 where b: "end_breaks (\<lambda>b. wb_user b = uid) (\<lambda>b. max now (wb_started b)) db3 = Inr db4"
      and d: "db' = db4\<lparr>devices := update_where (\<lambda>d. dv_owner d = Some uid)
                       (\<lambda>d. d\<lparr>dv_enabled := False\<rparr>) (devices db4)\<rparr>"
      by (auto simp: set_user_enabled_def Let_def p_def db1_def db3_def split: if_splits sum.splits)
    note f = end_breaks_frame [OF b]
    show ?thesis
    proof (rule kept_close [OF inv, where p = "\<lambda>i. of_session p i db1" and q = "\<lambda>w. p w \<and> is_open w"])
      fix w assume "w \<in> set (sessions db)"
      from own_open(1) [OF inv _ this, of db1 p]
      show "p w \<and> is_open w \<longleftrightarrow> is_open w \<and> of_session p (ws_id w) db1" by (auto simp: db1_def)
    qed (simp_all add: d f db3_def, simp_all add: db1_def)
  qed
qed

lemma stop_web_timer_sessions_kept:
  assumes inv: "work_inv db" and r: "stop_web_timer_sessions u now db = Inr (db', n)"
  shows "kept db db'"
proof -
  define p where "p = (\<lambda>w :: work_session. ws_ended w = None
                 \<and> exists_row (\<lambda>d. dv_id d = ws_device w \<and> dv_kind d \<noteq> Desktop) (devices db)
                 \<and> (case ws_user w of None \<Rightarrow> og_allowed_apps (settings db)
                    | Some u \<Rightarrow> allowed_apps u db) = ''desktop_only''
                 \<and> (truthy u \<longrightarrow> ws_user w = u))"
  define db1 where "db1 = end_segments (\<lambda>i. of_session p i db) (\<lambda>_. now) db"
  from r obtain db2 where b: "end_breaks (\<lambda>b. case wb_session b of None \<Rightarrow> False | Some i \<Rightarrow> of_session p i db1)
                (\<lambda>_. now) db1 = Inr db2" and d: "db' = end_sessions p (\<lambda>_. now) now db2"
    unfolding stop_web_timer_sessions_def Let_def p_def [symmetric] db1_def by (auto split: sum.splits)
  note f = end_breaks_frame [OF b]
  show ?thesis
  proof (rule kept_close [OF inv, where p = "\<lambda>i. of_session p i db" and q = p])
    fix w assume "w \<in> set (sessions db)"
    from own_open(1) [OF inv _ this, of db p] own_open(2) [OF inv _ this, of db] show "p w \<longleftrightarrow> is_open w \<and> of_session p (ws_id w) db"
      by (auto simp: p_def)
  qed (simp_all add: d f db1_def)
qed

lemma delete_state_events_kept:
  assumes inv: "work_inv db" and r: "delete_state_events_before cutoff db = (db', n)"
  shows "kept db db'"
proof -
  have "events_ok (delete_where p es)" if "events_ok es" for p es
    using that by (simp add: events_ok_def delete_where_def distinct_map_filter sorted_wrt_filter)
  with inv r show ?thesis
    by (auto simp: kept_def work_inv_def history_kept_def delete_state_events_before_def Let_def)
qed

subsection \<open>Runs of the component\<close>

datatype work_op =
    Create_Task uuid uuid string string uuid bool
  | Set_Task uuid string timestamp
  | Sync device string "uuid option" "uuid option" string "uuid option" "pydatetime option" int int bool
      timestamp uuid uuid
  | Start_Break uuid uuid uuid bool timestamp
  | Stop_Break uuid timestamp
  | Enable_Project uuid bool timestamp
  | Enable_Device uuid bool timestamp
  | Enable_User uuid bool timestamp
  | Stop_Web "uuid option" timestamp
  | Compact timestamp

fun work_exec :: "work_op \<Rightarrow> db \<Rightarrow> error + db" where
  "work_exec (Create_Task k p n d u b) db = create_task k p n d u b db"
| "work_exec (Set_Task k st now) db = set_task_status k st now db"
| "work_exec (Sync dev st task sel note ev obs idle hb tr now k1 k2) db =
     (case sync_work_session dev st task sel note ev obs idle hb tr now k1 k2 db of
        Inl e \<Rightarrow> Inl e | Inr (db', _) \<Rightarrow> Inr db')"
| "work_exec (Start_Break k u i paid now) db =
     (case start_break k u i paid now db of Inl e \<Rightarrow> Inl e | Inr (db', _) \<Rightarrow> Inr db')"
| "work_exec (Stop_Break u now) db = stop_break u now db"
| "work_exec (Enable_Project p en now) db = set_project_enabled p en now db"
| "work_exec (Enable_Device d en now) db = set_device_enabled d en now db"
| "work_exec (Enable_User u en now) db = set_user_enabled u en now db"
| "work_exec (Stop_Web u now) db =
     (case stop_web_timer_sessions u now db of Inl e \<Rightarrow> Inl e | Inr (db', _) \<Rightarrow> Inr db')"
| "work_exec (Compact cutoff) db = Inr (fst (delete_state_events_before cutoff db))"

lemma break_ops_kept:
  "work_inv db \<Longrightarrow> start_break k u i paid now db = Inr (db', b) \<Longrightarrow> kept db db'"
  "work_inv db \<Longrightarrow> stop_break u now db = Inr db' \<Longrightarrow> kept db db'"
  "work_inv db \<Longrightarrow> create_task k p n d u bl db = Inr db' \<Longrightarrow> kept db db'"
  by (auto simp: start_break_def stop_break_def create_task_def Let_def end_breaks_def
      intro!: kept_same split: option.splits if_splits)

lemmas closing_ops_kept = break_ops_kept set_task_status_kept set_project_enabled_kept
  set_device_enabled_kept set_user_enabled_kept stop_web_timer_sessions_kept

lemma work_exec_kept:
  assumes inv: "work_inv db" and r: "work_exec c db = Inr db'"
  shows "kept db db'"
proof (cases c)
  case (Sync dev st task sel nt ev obs idle hb tr now k1 k2)
  with r obtain res where "sync_work_session dev st task sel nt ev obs idle hb tr now k1 k2 db = Inr (db', res)"
    by (auto split: sum.splits)
  from sync_work_session_kept [OF inv this] show ?thesis by (simp add: kept_def)
next
  case (Compact cutoff)
  with r delete_state_events_kept [OF inv, of cutoff] show ?thesis by (metis Inr_inject prod.collapse work_exec.simps(10))
qed (use r closing_ops_kept [OF inv] in \<open>auto split: sum.splits\<close>)

interpretation work: transactional_order work_exec work_inv "\<lambda>_. True" history_kept
  by unfold_locales
     (auto dest: work_exec_kept simp: kept_def history_kept_refl intro: history_kept_trans)

text \<open>C1. Over any sequence of the operations on work (reports of devices, tasks archived, projects,
  devices or members disabled, breaks, desktop-only enforcement, compaction), failed ones
  included: a device and a user have at most one open session; a session runs (has its one open
  segment) exactly when it is active; ended sessions are exactly the stopped ones; the events of
  a device are in order of observation; and time once recorded - a closed segment, a stopped
  session - is never changed or removed.\<close>

theorem work_runs:
  assumes "work_inv db"
  shows "work_inv (exec_all work_exec cs db) \<and>
    (\<forall>g \<in> set (segments db). sg_ended g \<noteq> None \<longrightarrow>
       g \<in> set (segments (exec_all work_exec cs db))) \<and>
    (\<forall>w \<in> set (sessions db). ws_status w = Stopped \<longrightarrow>
       w \<in> set (sessions (exec_all work_exec cs db)))"
  using work.exec_all_inv [OF assms, of cs] work.exec_all_rel [OF assms, of cs]
  by (simp add: history_kept_def list_all_iff is_open_def)

text \<open>C2. A report that is applied changes the abstract timers exactly as it says: the device shows the
  reported status, project and task (nothing after a stop), an open session of the same owner on
  another device ends unless this is a stop, and every other device is as before.  The session
  returned is the one open on the device, and no segment gets an end before its start.\<close>

theorem sync_refines_timer:
  assumes "work_inv db" and "\<not> replayed dev rq db"
    and "sync_transaction dev owner rq now db = Inr (db', res)"
  shows "timer db' = reported dev rq db \<and> on_device db' (dv_id dev) res \<and>
    (res = None \<longleftrightarrow> rq_status rq = Stopped) \<and> (segments_forward db \<longrightarrow> segments_forward db')"
  using sync_transaction_ok [OF assms(1,3)] assms(2) by simp


lemma switch_device_others:
  assumes inv: "work_inv db" and sw: "switch_device dev st tr t db = Inr db1"
    and on: "on_device db (dv_id dev) (Some w)" and g: "g \<in> set (segments db)" "sg_session g = ws_id w"
  shows "g \<in> set (segments db1)"
proof (cases "db1 = db")
  case False
  then have c: "st \<in> {Active, Paused} \<and> truthy (dv_owner dev)"
    using sw unfolding switch_device_def by (auto split: if_splits)
  with sw False obtain v where v: "other_session (the (dv_owner dev)) (dv_id dev) db = Some v"
    and d: "db1 = stop_session (ws_id v) t db"
    unfolding switch_device_def if_P [OF c] by (auto split: option.splits if_splits)
  from v have "v \<in> set (sessions db)" "ws_device v \<noteq> dv_id dev"
    by (auto simp: other_session_def dest!: max_row_filter_in)
  with session_id_unique [OF inv, of w v] on have "ws_id w \<noteq> ws_id v" by (auto simp: on_device_def)
  with g show ?thesis unfolding d stop_session_eq
    by (simp add: in_update_where) (metis)
qed (use g in simp)

text \<open>A gap longer than the lease (the larger of 90 seconds and two heartbeats) after an active
  observation counts one heartbeat only: the session that was open ends one heartbeat after the last
  observation, and so does its running segment.\<close>

theorem lease_caps_gap:
  assumes inv: "work_inv db" and e: "truthy (rq_event rq)" and n: "\<not> replayed dev rq db"
    and w: "device_session (dv_id dev) db = Some w" and p: "previous_event (dv_id dev) db = Some p"
    and a: "ev_status p = Active"
    and gap: "seconds (lease_seconds p (rq_heartbeat rq)) < rq_observed rq - ev_observed p"
    and r: "sync_transaction dev owner rq now db = Inr (db', res)"
  shows "(\<exists>v \<in> set (sessions db'). ws_id v = ws_id w \<and> ws_status v = Stopped \<and>
       ws_ended v = Some (ev_observed p + seconds (ev_heartbeat p))) \<and>
    (\<forall>g \<in> set (segments db). sg_session g = ws_id w \<and> sg_ended g = None \<longrightarrow>
       g\<lparr>sg_ended := Some (max (sg_started g) (ev_observed p + seconds (ev_heartbeat p)))\<rparr>
         \<in> set (segments db'))"
proof -
  have o: "clamp_observed (Some p) (rq_observed rq) = rq_observed rq"
  proof -
    have "0 \<le> seconds (lease_seconds p (rq_heartbeat rq))"
      by (simp add: lease_seconds_def seconds_def usec_per_second_def)
    with gap show ?thesis by (simp add: clamp_observed_def)
  qed
  have "find (\<lambda>e. ev_device e = dv_id dev \<and> ev_id e = the (rq_event rq)) (state_events db) = None"
    using n e by (auto simp: replayed_def table_simps truthy_iff find_None_all)
  with r e p o have ap: "apply_report dev rq (Some p) (rq_observed rq) now db = Inr (db', res)"
    by (simp add: sync_transaction_def Let_def split: if_splits)
  obtain db1 db2 s2 where sw: "switch_device dev (rq_status rq) (rq_transition rq) (rq_observed rq) db = Inr db1"
    and ex: "expire_lease (Some p) (Some w) (rq_observed rq) (rq_heartbeat rq) db1 = (db2, s2)"
    and on: "on_device db1 (dv_id dev) (Some w)" and h1: "history_kept db db1" and h2: "history_kept db2 db'"
    using apply_report_parts [OF inv ap] w by metis
  define t where "t = ev_observed p + seconds (ev_heartbeat p)"
  have db2: "db2 = stop_session (ws_id w) t db1"
    using ex a gap by (simp add: expire_lease_def t_def)
  have "stopped (\<lambda>_. t) t w \<in> set (sessions db2)" "\<not> is_open (stopped (\<lambda>_. t) t w)"
    using on by (auto simp: db2 on_device_def in_update_where)
  then have "stopped (\<lambda>_. t) t w \<in> set (sessions db')" using h2 by (simp add: history_kept_def)
  then have "\<exists>v \<in> set (sessions db'). ws_id v = ws_id w \<and> ws_status v = Stopped \<and> ws_ended v = Some t"
    by (intro bexI [of _ "stopped (\<lambda>_. t) t w"]) simp_all
  moreover have "g\<lparr>sg_ended := Some (max (sg_started g) t)\<rparr> \<in> set (segments db')"
    if "g \<in> set (segments db)" "sg_session g = ws_id w" "sg_ended g = None" for g
  proof -
    have "g \<in> set (segments db1)"
      using switch_device_others [OF inv sw device_session_on [of db "dv_id dev", unfolded w] that(1,2)] .
    then have "g\<lparr>sg_ended := Some (max (sg_started g) t)\<rparr> \<in> set (segments db2)"
      using that(2,3) by (force simp: db2 stop_session_eq in_update_where)
    with h2 show ?thesis by (simp add: history_kept_def)
  qed
  ultimately show ?thesis by (simp add: t_def)
qed

subsection \<open>Authorisation\<close>





text \<open>A concrete company: member \<open>u\<close> works for project \<open>p\<close> on a desktop \<open>d\<close> and in the web, \<open>d2\<close>.\<close>

definition sample_device :: device where
  "sample_device = \<lparr>dv_id = ''d'', dv_owner = Some ''u'', dv_project = Some ''p'', dv_enabled = True, dv_kind = Desktop\<rparr>"

definition sample_web :: device where
  "sample_web = \<lparr>dv_id = ''d2'', dv_owner = Some ''u'', dv_project = Some ''p'', dv_enabled = True, dv_kind = Web\<rparr>"

definition sample_work :: db where
  "sample_work = empty_db\<lparr>
     users := [\<lparr>us_id = ''u'', us_email = ''u@x'', us_full_name = ''U'', us_role = Member, us_enabled = True,
       us_daily_limit = 480, us_weekly_limit = 0, us_pay_rate = 10, us_require_approval = True\<rparr>],
     devices := [sample_device, sample_web],
     projects := [\<lparr>pr_id = ''p'', pr_name = ''P'', pr_enabled = True\<rparr>],
     project_members := [\<lparr>pm_project = ''p'', pm_user = ''u'', pm_role = ''worker''\<rparr>],
     tasks := [\<lparr>tk_id = ''t'', tk_project = ''p'', tk_name = ''T'', tk_description = [], tk_billable = True,
       tk_status = ''active'', tk_created_by = ''u'', tk_read_only = False\<rparr>],
     sessions := [\<lparr>ws_id = ''w'', ws_user = Some ''u'', ws_device = ''d'', ws_project = Some ''p'', ws_task = Some ''t'',
       ws_status = Active, ws_note = [], ws_started = 1000000, ws_ended = None, ws_created = 1000000,
       ws_updated = 1000000\<rparr>],
     segments := [\<lparr>sg_id = ''g'', sg_session = ''w'', sg_started = 1000000, sg_ended = None\<rparr>],
     state_events := [\<lparr>ev_id = ''e'', ev_device = ''d'', ev_observed = 1000000, ev_received = 1000000,
       ev_status = Active, ev_task = Some ''t'', ev_project = Some ''p'', ev_note = [], ev_idle = 0,
       ev_heartbeat = 60, ev_session = Some ''w''\<rparr>]\<rparr>"

definition sample_report :: report where
  "sample_report = \<lparr>rq_status = Paused, rq_task = Some ''t'', rq_project = Some ''p'', rq_note = [],
     rq_event = Some ''e2'', rq_observed = 301000000, rq_idle = 0, rq_heartbeat = 60, rq_transition = False,
     rq_session_id = ''w2'', rq_segment_id = ''g2''\<rparr>"

lemma sample_work_inv: "work_inv sample_work"
  by code_simp

theorem work_runs_witness:
  "work_inv (exec_all work_exec
     [Sync sample_web ''active'' None (Some ''p'') [] None None 0 60 True 500000000 ''w3'' ''g3'',
      Enable_User ''u'' False 600000000] sample_work)"
  using work_runs [OF sample_work_inv] by blast

lemma sample_sync:
  "\<exists>db' res. sync_transaction sample_device None sample_report 301000000 sample_work = Inr (db', res)"
proof -
  have "\<not> isl (sync_transaction sample_device None sample_report 301000000 sample_work)" by code_simp
  then show ?thesis
    by (cases "sync_transaction sample_device None sample_report 301000000 sample_work") auto
qed

lemma sample_not_replayed: "\<not> replayed sample_device sample_report sample_work"
  by code_simp

theorem sync_refines_timer_witness:
  "\<exists>db' res. sync_transaction sample_device None sample_report 301000000 sample_work = Inr (db', res) \<and>
     timer db' ''d'' = Some (Paused, Some ''p'', Some ''t'')"
proof -
  obtain db' res where r: "sync_transaction sample_device None sample_report 301000000 sample_work = Inr (db', res)"
    using sample_sync by blast
  have "reported sample_device sample_report sample_work ''d'' = Some (Paused, Some ''p'', Some ''t'')" by code_simp
  with r sync_refines_timer [OF sample_work_inv sample_not_replayed r] show ?thesis by auto
qed


theorem lease_caps_gap_witness:
  "\<exists>db' res. sync_transaction sample_device None sample_report 301000000 sample_work = Inr (db', res) \<and>
     \<lparr>sg_id = ''g'', sg_session = ''w'', sg_started = 1000000, sg_ended = Some 61000000\<rparr> \<in> set (segments db')"
proof -
  obtain db' res where r: "sync_transaction sample_device None sample_report 301000000 sample_work = Inr (db', res)"
    using sample_sync by blast
  let ?w = "hd (sessions sample_work)" and ?p = "hd (state_events sample_work)" and ?g = "hd (segments sample_work)"
  have "truthy (rq_event sample_report)" by (simp add: sample_report_def truthy_def)
  moreover have "device_session (dv_id sample_device) sample_work = Some ?w" by code_simp
  moreover have "previous_event (dv_id sample_device) sample_work = Some ?p" by code_simp
  moreover have "ev_status ?p = Active" by code_simp
  moreover have "seconds (lease_seconds ?p (rq_heartbeat sample_report)) < rq_observed sample_report - ev_observed ?p"
    by code_simp
  ultimately have *: "\<forall>g \<in> set (segments sample_work). sg_session g = ws_id ?w \<and> sg_ended g = None \<longrightarrow>
       g\<lparr>sg_ended := Some (max (sg_started g) (ev_observed ?p + seconds (ev_heartbeat ?p)))\<rparr> \<in> set (segments db')"
    using lease_caps_gap [OF sample_work_inv _ sample_not_replayed _ _ _ _ r] by blast
  have g: "?g \<in> set (segments sample_work)" "sg_session ?g = ws_id ?w" "sg_ended ?g = None" by code_simp+
  have "?g\<lparr>sg_ended := Some (max (sg_started ?g) (ev_observed ?p + seconds (ev_heartbeat ?p)))\<rparr> =
     \<lparr>sg_id = ''g'', sg_session = ''w'', sg_started = 1000000, sg_ended = Some 61000000\<rparr>" by code_simp
  with * g r show ?thesis by metis
qed


text \<open>Archiving a task does not clamp the end of a running segment to its start, as every other operation that
  ends work does: with a device clock ahead of the server's the segment ends before it starts.\<close>

lemma archive_ends_before_start:
  "\<exists>db'. set_task_status ''t'' ''archived'' 900000 sample_work = Inr db' \<and>
     segments_forward sample_work \<and> \<not> segments_forward db'"
proof -
  let ?r = "set_task_status ''t'' ''archived'' 900000 sample_work"
  have "case ?r of Inl _ \<Rightarrow> False | Inr db' \<Rightarrow> \<not> segments_forward db'" by code_simp
  moreover have "segments_forward sample_work" by code_simp
  ultimately show ?thesis by (auto split: sum.splits)
qed

end
