(* ===== verification/Approvals.thy ===== *)
theory Approvals
  imports Money Timesheets
begin

section \<open>Requests that need approval, shifts and holidays\<close>

text \<open>
  \<open>api/repositories/workforce.py\<close>: manual time, time off and expenses are requested by a
  member and reviewed by a manager; shifts and holidays are planned.  A request keeps what was
  asked for; a review sets its status and reviewer and notifies the member.  Datetimes arrive
  as \<open>pydatetime\<close> values, both of a pair naive or both aware.
\<close>

subsection \<open>Operations\<close>

text \<open>\<open>daterange(a,b,'[]') && daterange(c,d,'[]')\<close> for ranges that are not empty.\<close>

definition ranges_overlap :: "date \<Rightarrow> date \<Rightarrow> date \<Rightarrow> date \<Rightarrow> bool" where
  "ranges_overlap a b c d \<longleftrightarrow> a \<le> d \<and> c \<le> b"

text \<open>\<open>x or None\<close> for an optional string.\<close>

definition or_none :: "string option \<Rightarrow> string option" where
  "or_none s = (if truthy s then s else None)"

definition add_manual_time ::
  "uuid \<Rightarrow> uuid \<Rightarrow> uuid option \<Rightarrow> pydatetime \<Rightarrow> pydatetime \<Rightarrow> string \<Rightarrow> bool \<Rightarrow> uuid \<Rightarrow>
   db \<Rightarrow> error + (db \<times> uuid)" where
  "add_manual_time user_id project_id task_id started_at ended_at note auto_approve entry_id db =
     (if as_utc ended_at \<le> as_utc started_at then Inl (ValueError ''End time must be after start time'')
      else if exists_row (\<lambda>s. sh_user s = user_id \<and> sh_status s = Approved \<and>
             ranges_overlap (sh_start s) (sh_end s) (wall_date started_at) (wall_date ended_at)) (timesheets db)
      then Inl (ValueError ''Approved timesheets are locked'')
      else if exists_row (\<lambda>m. me_id m = entry_id) (manual_entries db) then Inl UniqueViolation
      else Inr (db\<lparr>manual_entries := manual_entries db @
        [\<lparr>me_id = entry_id, me_user = user_id, me_project = project_id, me_task = or_none task_id,
          me_started = as_utc started_at, me_ended = as_utc ended_at, me_note = take 500 (strip note),
          me_status = (if auto_approve then ''approved'' else ''pending''),
          me_reviewer = None, me_reviewed = None\<rparr>]\<rparr>, entry_id))"

definition allowed_decisions :: "string \<Rightarrow> string list" where
  "allowed_decisions table =
     (if table = ''manual_time_entries'' then [''approved'', ''rejected'']
      else if table = ''time_off_requests'' then [''approved'', ''denied'']
      else if table = ''expenses'' then [''approved'', ''rejected'', ''reimbursed'']
      else [])"

text \<open>\<open>f"{table.replace('_', ' ').title()} {status}"\<close> for the three tables.\<close>

definition review_title :: "string \<Rightarrow> string \<Rightarrow> string" where
  "review_title table status =
     (if table = ''manual_time_entries'' then ''Manual Time Entries ''
      else if table = ''time_off_requests'' then ''Time Off Requests '' else ''Expenses '') @ status"

definition item_user :: "string \<Rightarrow> uuid \<Rightarrow> db \<Rightarrow> uuid option" where
  "item_user table item_id db =
     (if table = ''manual_time_entries'' then
        map_option me_user (find (\<lambda>r. me_id r = item_id) (manual_entries db))
      else if table = ''time_off_requests'' then
        map_option to_user (find (\<lambda>r. to_id r = item_id) (time_off_requests db))
      else map_option ex_user (find (\<lambda>r. ex_id r = item_id) (expenses db)))"

definition set_review :: "string \<Rightarrow> uuid \<Rightarrow> string \<Rightarrow> uuid \<Rightarrow> timestamp \<Rightarrow> db \<Rightarrow> db" where
  "set_review table item_id status reviewer now db =
     (if table = ''manual_time_entries'' then
        db\<lparr>manual_entries := update_where (\<lambda>r. me_id r = item_id)
             (\<lambda>r. r\<lparr>me_status := status, me_reviewer := Some reviewer, me_reviewed := Some now\<rparr>)
             (manual_entries db)\<rparr>
      else if table = ''time_off_requests'' then
        db\<lparr>time_off_requests := update_where (\<lambda>r. to_id r = item_id)
             (\<lambda>r. r\<lparr>to_status := status, to_reviewer := Some reviewer, to_reviewed := Some now\<rparr>)
             (time_off_requests db)\<rparr>
      else
        db\<lparr>expenses := update_where (\<lambda>r. ex_id r = item_id)
             (\<lambda>r. r\<lparr>ex_status := status, ex_reviewer := Some reviewer, ex_reviewed := Some now\<rparr>)
             (expenses db)\<rparr>)"

text \<open>The day on which a manual entry starts, the only one a review checks against the approved sheets.\<close>

definition entry_locked :: "uuid \<Rightarrow> db \<Rightarrow> bool" where
  "entry_locked item_id db \<longleftrightarrow>
     (case find (\<lambda>r. me_id r = item_id) (manual_entries db) of
        None \<Rightarrow> False | Some r \<Rightarrow> is_period_locked (me_user r) (date_of (me_started r)) db)"

definition review_item ::
  "string \<Rightarrow> uuid \<Rightarrow> uuid \<Rightarrow> string \<Rightarrow> timestamp \<Rightarrow> uuid \<Rightarrow> db \<Rightarrow> error + db" where
  "review_item table item_id reviewer_id status now notification_id db =
     (if status \<notin> set (allowed_decisions table) then Inl (ValueError ''Unsupported review decision'')
      else case item_user table item_id db of
        None \<Rightarrow> Inl (ValueError ''Item not found'')
      | Some user \<Rightarrow>
          if table = ''manual_time_entries'' \<and> entry_locked item_id db then
            Inl (ValueError ''Approved timesheets are locked'')
          else if exists_row (\<lambda>n. nt_id n = notification_id) (notifications db) then Inl UniqueViolation
          else
            let db1 = set_review table item_id status reviewer_id now db
            in Inr (db1\<lparr>notifications := notifications db1 @
                 [\<lparr>nt_id = notification_id, nt_user = user, nt_kind = ''approval'',
                   nt_title = review_title table status,
                   nt_body = ''Your request was reviewed by a manager.'', nt_created = now\<rparr>]\<rparr>))"

definition review_item_owner :: "string \<Rightarrow> uuid \<Rightarrow> db \<Rightarrow> error + uuid option" where
  "review_item_owner table item_id db =
     (if table \<notin> {''manual_time_entries'', ''time_off_requests'', ''expenses''} then
        Inl (ValueError ''Unsupported review item'')
      else Inr (item_user table item_id db))"

definition add_shift ::
  "uuid \<Rightarrow> uuid option \<Rightarrow> pydatetime \<Rightarrow> pydatetime \<Rightarrow> string \<Rightarrow> uuid \<Rightarrow> timestamp \<Rightarrow> uuid \<Rightarrow>
   db \<Rightarrow> error + (db \<times> uuid)" where
  "add_shift user_id project_id starts_at ends_at notes creator_id now item_id db =
     (if as_utc ends_at \<le> as_utc starts_at then Inl (ValueError ''Shift must end after it starts'')
      else if exists_row (\<lambda>s. sf_id s = item_id) (shifts db) then Inl UniqueViolation
      else Inr (db\<lparr>shifts := shifts db @
        [\<lparr>sf_id = item_id, sf_user = user_id, sf_project = or_none project_id,
          sf_starts = as_utc starts_at, sf_ends = as_utc ends_at, sf_notes = take 500 (strip notes),
          sf_created_by = creator_id, sf_created = now\<rparr>]\<rparr>, item_id))"

definition create_holiday :: "string \<Rightarrow> date \<Rightarrow> int \<Rightarrow> timestamp \<Rightarrow> uuid \<Rightarrow> db \<Rightarrow> error + (db \<times> uuid)" where
  "create_holiday name holiday_date paid_minutes now holiday_id db =
     (let h = \<lparr>hd_id = holiday_id, hd_name = take 120 (strip name), hd_date = holiday_date,
               hd_paid_minutes = max 0 paid_minutes, hd_created = now\<rparr>
      in if exists_row (\<lambda>r. hd_id r = holiday_id \<or> (hd_name r = hd_name h \<and> hd_date r = holiday_date)) (holidays db)
         then Inl UniqueViolation
         else Inr (db\<lparr>holidays := holidays db @ [h]\<rparr>, holiday_id))"

definition add_time_off ::
  "uuid \<Rightarrow> string \<Rightarrow> date \<Rightarrow> date \<Rightarrow> int \<Rightarrow> string \<Rightarrow> uuid \<Rightarrow> db \<Rightarrow> error + (db \<times> uuid)" where
  "add_time_off user_id category starts_on ends_on minutes reason item_id db =
     (if ends_on < starts_on then Inl (ValueError ''End date must be on or after start date'')
      else if exists_row (\<lambda>r. to_id r = item_id) (time_off_requests db) then Inl UniqueViolation
      else Inr (db\<lparr>time_off_requests := time_off_requests db @
        [\<lparr>to_id = item_id, to_user = user_id, to_category = take 40 category, to_starts = starts_on,
          to_ends = ends_on, to_minutes = max 0 minutes, to_reason = take 500 (strip reason),
          to_status = ''pending'', to_reviewer = None, to_reviewed = None\<rparr>]\<rparr>, item_id))"

definition add_expense ::
  "uuid \<Rightarrow> uuid option \<Rightarrow> date \<Rightarrow> string \<Rightarrow> rat \<Rightarrow> string \<Rightarrow> string \<Rightarrow> uuid \<Rightarrow> db \<Rightarrow>
   error + (db \<times> uuid)" where
  "add_expense user_id project_id incurred_on category amount currency description item_id db =
     (if amount < 0 then Inl (ValueError ''Amount cannot be negative'')
      else if exists_row (\<lambda>r. ex_id r = item_id) (expenses db) then Inl UniqueViolation
      else Inr (db\<lparr>expenses := expenses db @
        [\<lparr>ex_id = item_id, ex_user = user_id, ex_project = or_none project_id, ex_incurred = incurred_on,
          ex_category = take 60 category, ex_amount = numeric_cents amount,
          ex_currency = str_upper (take 3 currency), ex_description = take 500 (strip description),
          ex_status = ''pending'', ex_reviewer = None, ex_reviewed = None\<rparr>]\<rparr>, item_id))"

subsection \<open>Runs\<close>

datatype approval_op =
    Add_Manual uuid uuid "uuid option" pydatetime pydatetime string bool uuid
  | Review_Item string uuid uuid string timestamp uuid
  | Add_Shift uuid "uuid option" pydatetime pydatetime string uuid timestamp uuid
  | Add_Holiday string date int timestamp uuid
  | Add_Time_Off uuid string date date int string uuid
  | Add_Expense uuid "uuid option" date string rat string string uuid

definition new_db :: "error + (db \<times> 'a) \<Rightarrow> error + db" where
  "new_db r = (case r of Inl e \<Rightarrow> Inl e | Inr (db', _) \<Rightarrow> Inr db')"

fun approval_exec :: "approval_op \<Rightarrow> db \<Rightarrow> error + db" where
  "approval_exec (Add_Manual u p t s e n a k) db = new_db (add_manual_time u p t s e n a k db)"
| "approval_exec (Review_Item table i r st now k) db = review_item table i r st now k db"
| "approval_exec (Add_Shift u p s e n c now k) db = new_db (add_shift u p s e n c now k db)"
| "approval_exec (Add_Holiday n d m now k) db = new_db (create_holiday n d m now k db)"
| "approval_exec (Add_Time_Off u c s e m r k) db = new_db (add_time_off u c s e m r k db)"
| "approval_exec (Add_Expense u p d c a cur ds k) db = new_db (add_expense u p d c a cur ds k db)"

text \<open>What a request asks for, without its review.\<close>

definition manual_request :: "manual_entry \<Rightarrow> manual_entry" where
  "manual_request m = m\<lparr>me_status := [], me_reviewer := None, me_reviewed := None\<rparr>"

definition time_off_request :: "time_off \<Rightarrow> time_off" where
  "time_off_request m = m\<lparr>to_status := [], to_reviewer := None, to_reviewed := None\<rparr>"

definition expense_request :: "expense \<Rightarrow> expense" where
  "expense_request m = m\<lparr>ex_status := [], ex_reviewer := None, ex_reviewed := None\<rparr>"

definition manual_ok :: "manual_entry \<Rightarrow> bool" where
  "manual_ok m \<longleftrightarrow> me_started m < me_ended m \<and> length (me_note m) \<le> 500 \<and>
     me_status m \<in> {''pending'', ''approved'', ''rejected''} \<and>
     (me_status m \<in> {''pending''} \<longrightarrow> me_reviewer m = None) \<and> (me_status m = ''rejected'' \<longrightarrow> me_reviewer m \<noteq> None)"

definition time_off_ok :: "time_off \<Rightarrow> bool" where
  "time_off_ok r \<longleftrightarrow> to_starts r \<le> to_ends r \<and> 0 \<le> to_minutes r \<and>
     to_status r \<in> {''pending'', ''approved'', ''denied''} \<and> (to_reviewer r = None \<longleftrightarrow> to_status r = ''pending'')"

definition expense_ok :: "expense \<Rightarrow> bool" where
  "expense_ok r \<longleftrightarrow> 0 \<le> ex_amount r \<and>
     ex_status r \<in> {''pending'', ''approved'', ''rejected'', ''reimbursed''} \<and>
     (ex_reviewer r = None \<longleftrightarrow> ex_status r = ''pending'')"

definition approval_inv :: "db \<Rightarrow> bool" where
  "approval_inv db \<longleftrightarrow>
     distinct (map me_id (manual_entries db)) \<and> distinct (map to_id (time_off_requests db)) \<and>
     distinct (map ex_id (expenses db)) \<and> distinct (map (\<lambda>h. (hd_name h, hd_date h)) (holidays db)) \<and>
     list_all manual_ok (manual_entries db) \<and> list_all time_off_ok (time_off_requests db) \<and>
     list_all expense_ok (expenses db) \<and> list_all (\<lambda>s. sf_starts s < sf_ends s) (shifts db) \<and>
     list_all (\<lambda>h. 0 \<le> hd_paid_minutes h) (holidays db)"

text \<open>Requests are only added: what was asked for before is asked for still, in the same order.\<close>

definition extends :: "'a list \<Rightarrow> 'a list \<Rightarrow> bool" where
  "extends xs ys \<longleftrightarrow> take (length xs) ys = xs"

definition requests_kept :: "db \<Rightarrow> db \<Rightarrow> bool" where
  "requests_kept db db' \<longleftrightarrow>
     extends (map manual_request (manual_entries db)) (map manual_request (manual_entries db')) \<and>
     extends (map time_off_request (time_off_requests db)) (map time_off_request (time_off_requests db')) \<and>
     extends (map expense_request (expenses db)) (map expense_request (expenses db')) \<and>
     extends (shifts db) (shifts db') \<and> extends (holidays db) (holidays db')"

lemma extends_iff: "extends xs ys \<longleftrightarrow> (\<exists>zs. ys = xs @ zs)"
  unfolding extends_def by (metis append_eq_conv_conj append_take_drop_id)

lemma extends_refl [simp]: "extends xs xs"
  by (simp add: extends_def)

lemma extends_trans: "extends xs ys \<Longrightarrow> extends ys zs \<Longrightarrow> extends xs zs"
  by (auto simp: extends_iff)

lemma extends_append [simp]: "extends xs (xs @ ys)"
  by (simp add: extends_iff)

lemma numeric_cents_nonneg: "0 \<le> x \<Longrightarrow> 0 \<le> numeric_cents x"
  by (simp add: numeric_cents_def)

lemma requests_kept_refl: "requests_kept db db"
  by (simp add: requests_kept_def)

lemma requests_kept_trans: "requests_kept db db1 \<Longrightarrow> requests_kept db1 db2 \<Longrightarrow> requests_kept db db2"
  unfolding requests_kept_def by (elim conjE, intro conjI; erule (1) extends_trans)

lemmas review_defs = manual_request_def time_off_request_def expense_request_def

lemma set_review_requests:
  "map manual_request (manual_entries (set_review table i st rv now db)) = map manual_request (manual_entries db)"
  "map time_off_request (time_off_requests (set_review table i st rv now db)) =
     map time_off_request (time_off_requests db)"
  "map expense_request (expenses (set_review table i st rv now db)) = map expense_request (expenses db)"
  "map me_id (manual_entries (set_review table i st rv now db)) = map me_id (manual_entries db)"
  "map to_id (time_off_requests (set_review table i st rv now db)) = map to_id (time_off_requests db)"
  "map ex_id (expenses (set_review table i st rv now db)) = map ex_id (expenses db)"
  "shifts (set_review table i st rv now db) = shifts db" "holidays (set_review table i st rv now db) = holidays db"
  "timesheets (set_review table i st rv now db) = timesheets db"
  "notifications (set_review table i st rv now db) = notifications db"
  by (auto simp: set_review_def review_defs intro!: map_update_where)

lemma list_all_update:
  "list_all P rows \<Longrightarrow> (\<And>r. P r \<Longrightarrow> P (f r)) \<Longrightarrow> list_all P (update_where q f rows)"
  by (auto simp: list_all_iff in_update_where)

lemma set_review_ok:
  assumes "st \<in> set (allowed_decisions table)"
  shows "list_all manual_ok (manual_entries db) \<Longrightarrow>
      list_all manual_ok (manual_entries (set_review table i st rv now db))"
    and "list_all time_off_ok (time_off_requests db) \<Longrightarrow>
      list_all time_off_ok (time_off_requests (set_review table i st rv now db))"
    and "list_all expense_ok (expenses db) \<Longrightarrow>
      list_all expense_ok (expenses (set_review table i st rv now db))"
  using assms
  by (auto simp: set_review_def allowed_decisions_def manual_ok_def time_off_ok_def expense_ok_def
      intro!: list_all_update split: if_splits)

lemma review_item_ok:
  assumes inv: "approval_inv db" and r: "review_item table i rv st now k db = Inr db'"
  shows "approval_inv db' \<and> requests_kept db db'"
proof -
  from r have st: "st \<in> set (allowed_decisions table)" and
    db': "\<exists>n. db' = (set_review table i st rv now db)\<lparr>notifications := n\<rparr>"
    by (auto simp: review_item_def Let_def split: if_splits option.splits)
  from db' obtain n where n: "db' = (set_review table i st rv now db)\<lparr>notifications := n\<rparr>" by blast
  show ?thesis using inv set_review_ok [OF st]
    by (simp add: n approval_inv_def requests_kept_def set_review_requests)
qed

lemma add_manual_time_ok:
  assumes "approval_inv db" and "add_manual_time u p t s e n a k db = Inr (db', x)"
  shows "approval_inv db' \<and> requests_kept db db'"
  using assms
  by (auto simp: add_manual_time_def approval_inv_def requests_kept_def manual_ok_def table_simps split: if_splits)

lemma add_time_off_ok:
  assumes "approval_inv db" and "add_time_off u c s e m r k db = Inr (db', x)"
  shows "approval_inv db' \<and> requests_kept db db'"
  using assms
  by (auto simp: add_time_off_def approval_inv_def requests_kept_def time_off_ok_def table_simps split: if_splits)

lemma add_expense_ok:
  assumes "approval_inv db" and "add_expense u p d c a cur ds k db = Inr (db', x)"
  shows "approval_inv db' \<and> requests_kept db db'"
  using assms numeric_cents_nonneg [of a]
  by (auto simp: add_expense_def approval_inv_def requests_kept_def expense_ok_def table_simps split: if_splits)

lemma add_shift_ok:
  assumes "approval_inv db" and "add_shift u p s e n c now k db = Inr (db', x)"
  shows "approval_inv db' \<and> requests_kept db db'"
  using assms
  by (auto simp: add_shift_def approval_inv_def requests_kept_def table_simps split: if_splits)

lemma create_holiday_ok:
  assumes "approval_inv db" and "create_holiday n d m now k db = Inr (db', x)"
  shows "approval_inv db' \<and> requests_kept db db'"
  using assms
  by (auto simp: create_holiday_def Let_def approval_inv_def requests_kept_def table_simps split: if_splits) blast

lemmas approval_ops_ok = review_item_ok add_manual_time_ok add_time_off_ok add_expense_ok add_shift_ok create_holiday_ok

lemma new_db_Inr: "new_db r = Inr db' \<longleftrightarrow> (\<exists>x. r = Inr (db', x))"
  by (auto simp: new_db_def split: sum.splits)

lemma approval_exec_ok:
  assumes "approval_inv db" and "approval_exec c db = Inr db'"
  shows "approval_inv db' \<and> requests_kept db db'"
  using assms by (cases c) (auto simp: new_db_Inr dest: approval_ops_ok)

interpretation approvals: transactional_order approval_exec approval_inv "\<lambda>_. True" requests_kept
  by unfold_locales (auto dest: approval_exec_ok intro: requests_kept_refl requests_kept_trans)

text \<open>C40. Over any run of requests and reviews, failed ones included, the tables stay well formed (unique ids,
  times in order, amounts not negative, statuses in range and with a reviewer exactly when decided), and
  every request stands as it was made: only its review changes.\<close>

theorem approval_runs:
  assumes "approval_inv db"
  shows "approval_inv (exec_all approval_exec cs db) \<and> requests_kept db (exec_all approval_exec cs db)"
  using approvals.exec_all_inv [OF assms, of cs] approvals.exec_all_rel [OF assms, of cs]
  by (simp add: list_all_iff)

text \<open>C37. A manual entry is only added when no day it touches is in an approved timesheet of its user.\<close>

theorem manual_entry_outside_locked:
  assumes "add_manual_time u p t s e n a k db = Inr (db', x)"
    and "wall_date s \<le> d" and "d \<le> wall_date e"
  shows "\<not> is_period_locked u d db"
  using assms by (force simp: add_manual_time_def is_period_locked_def ranges_overlap_def table_simps split: if_splits)

definition sample_requests :: db where
  "sample_requests = empty_db\<lparr>
     timesheets := [(new_sheet ''s1'' ''u'' 719163 719169 Submitted (Some 5) 5)
        \<lparr>sh_status := Approved, sh_reviewed := Some 9, sh_reviewer := Some ''m''\<rparr>],
     manual_entries := [\<lparr>me_id = ''e'', me_user = ''u'', me_project = ''p'', me_task = None,
       me_started = - 3600000000, me_ended = 3600000000, me_note = [], me_status = ''pending'',
       me_reviewer = None, me_reviewed = None\<rparr>]\<rparr>"

theorem approval_runs_witness:
  "approval_inv (exec_all approval_exec
     [Add_Expense ''u'' None 719163 ''travel'' (25 / 2) ''eur'' ''taxi'' ''x'',
      Review_Item ''expenses'' ''x'' ''m'' ''reimbursed'' 7 ''n''] sample_requests)"
proof -
  have "approval_inv sample_requests" by code_simp
  from approval_runs [OF this] show ?thesis by blast
qed

theorem manual_entry_outside_locked_witness:
  "\<not> is_period_locked ''u'' 719170 sample_requests"
proof -
  let ?r = "add_manual_time ''u'' ''p'' None (Aware 604800000000 0) (Aware 604900000000 0) [] False ''e2'' sample_requests"
  have "\<not> isl ?r" by code_simp
  then obtain db' x where r: "?r = Inr (db', x)" by (cases ?r) auto
  have "wall_date (Aware 604800000000 0) \<le> 719170" "719170 \<le> wall_date (Aware 604900000000 0)" by code_simp+
  from manual_entry_outside_locked [OF r this] show ?thesis .
qed

text \<open>The review looks at the first day only: an entry that runs into an approved period can still be approved,
  which adding it now could not.\<close>

lemma review_crosses_lock:
  "\<exists>db'. review_item ''manual_time_entries'' ''e'' ''m'' ''approved'' 9 ''n'' sample_requests = Inr db' \<and>
     (\<exists>m \<in> set (manual_entries db'). me_status m = ''approved'' \<and>
        is_period_locked (me_user m) (date_of (me_ended m)) db')"
proof -
  let ?r = "review_item ''manual_time_entries'' ''e'' ''m'' ''approved'' 9 ''n'' sample_requests"
  have "case ?r of Inl _ \<Rightarrow> False | Inr db' \<Rightarrow> (\<exists>m \<in> set (manual_entries db'). me_status m = ''approved'' \<and>
        is_period_locked (me_user m) (date_of (me_ended m)) db')" by code_simp
  then show ?thesis by (auto split: sum.splits)
qed

end
