(* ===== verification/Payroll.thy ===== *)
theory Payroll
  imports Money Timesheets
begin

section \<open>Payroll: computing payments and delivering them\<close>

text \<open>
  \<open>api/repositories/workforce.py\<close>, \<open>create_payroll\<close> to \<open>record_payroll_delivery\<close>.  A payment
  is computed once from the tracked and approved manual time of a period; its delivery is a
  state machine driven by the administrator, the provider's answers, webhooks and the
  reconciliation worker.

  A time zone of the \<open>zoneinfo\<close> database is its offset at each instant and its reading of a
  wall-clock time (fold 0); the database itself is a parameter.  A local datetime is the pair of
  its instant and its wall clock: two of the same zone compare by wall clock, all others by
  instant.  The two bounds of a period, which are of the zone, compare alike both ways.
\<close>

subsection \<open>Local time\<close>

record zone =
  zn_offset :: "timestamp \<Rightarrow> int"
  zn_resolve :: "timestamp \<Rightarrow> timestamp"

type_synonym local = "timestamp \<times> timestamp"

definition astimezone :: "zone \<Rightarrow> timestamp \<Rightarrow> local" where
  "astimezone z u = (u, u + zn_offset z u)"

definition local_midnight :: "zone \<Rightarrow> date \<Rightarrow> local" where
  "local_midnight z d = (zn_resolve z (combine d 0), combine d 0)"

text \<open>\<open>int(x.total_seconds())\<close> truncates towards zero.\<close>

definition whole_seconds :: "int \<Rightarrow> int" where
  "whole_seconds us = (if 0 \<le> us then us div usec_per_second else - (- us div usec_per_second))"

subsection \<open>Hours of a period\<close>

text \<open>The tracked segments and approved manual entries that meet the period, by start.\<close>

definition period_rows :: "uuid \<Rightarrow> timestamp \<Rightarrow> timestamp \<Rightarrow> db \<Rightarrow> (timestamp \<times> timestamp) list" where
  "period_rows user_id lower upper db =
     sort_key fst
       (concat (map (\<lambda>g. case sg_ended g of
            None \<Rightarrow> []
          | Some e \<Rightarrow>
              if exists_row (\<lambda>w. ws_id w = sg_session g \<and> ws_user w = Some user_id) (sessions db)
                 \<and> sg_started g < upper \<and> lower < e then [(sg_started g, e)] else []) (segments db))
        @ map (\<lambda>m. (me_started m, me_ended m))
            (filter (\<lambda>m. me_user m = user_id \<and> me_status m = ''approved'' \<and>
               me_started m < upper \<and> lower < me_ended m) (manual_entries db)))"

text \<open>The loop over the rows; \<open>rev acc\<close> is the list of intervals so far.\<close>

fun clip_intervals ::
  "zone \<Rightarrow> local \<Rightarrow> local \<Rightarrow> (local \<times> local) list \<Rightarrow> (timestamp \<times> timestamp) list \<Rightarrow>
   error + (local \<times> local) list" where
  "clip_intervals z lower upper acc [] = Inr (rev acc)"
| "clip_intervals z lower upper acc ((s, e) # rows) =
     (let started = (if s < fst lower then lower else astimezone z s);
          ended = (if fst upper < e then upper else astimezone z e)
      in if fst ended \<le> fst started then clip_intervals z lower upper acc rows
         else if acc \<noteq> [] \<and> fst started < fst (snd (hd acc)) then
           Inl (ValueError ''Payroll contains overlapping tracked or manual time'')
         else clip_intervals z lower upper ((started, ended) # acc) rows)"

text \<open>\<open>week_seconds[w] = week_seconds.get(w, 0) + n\<close>.\<close>

fun add_week :: "date \<Rightarrow> int \<Rightarrow> (date \<times> int) list \<Rightarrow> (date \<times> int) list" where
  "add_week w n [] = [(w, n)]"
| "add_week w n ((v, k) # ws) = (if v = w then (v, k + n) # ws else (v, k) # add_week w n ws)"

definition payroll_week :: "int \<Rightarrow> date \<Rightarrow> date" where
  "payroll_week week_starts_on day = day - (weekday day - week_first_day week_starts_on) mod 7"

function split_days :: "zone \<Rightarrow> int \<Rightarrow> local \<Rightarrow> local \<Rightarrow> (date \<times> int) list \<Rightarrow> (date \<times> int) list" where
  "split_days z week_starts_on cursor local_end weeks =
     (if snd cursor < snd local_end then
        let day = date_of (snd cursor);
            next_day = local_midnight z (day + 1);
            boundary = (if snd next_day < snd local_end then next_day else local_end)
        in split_days z week_starts_on boundary local_end
             (add_week (payroll_week week_starts_on day)
               (whole_seconds (fst boundary - fst cursor)) weeks)
      else weeks)"
  by auto

lemma next_midnight: "t < combine (date_of t + 1) 0"
  by (simp add: combine_def date_of_def usec_per_day_def)

termination split_days
proof (relation "measure (\<lambda>(z, w, cursor, local_end, weeks). nat (snd local_end - snd cursor))", goal_cases)
  case (2 z w cursor local_end weeks day next_day boundary)
  have "snd cursor < snd boundary"
    using 2 next_midnight [of "snd cursor"] by (auto simp: local_midnight_def)
  moreover have "snd boundary \<le> snd local_end" using 2 by auto
  ultimately show ?case using 2 by auto
qed simp

declare split_days.simps [simp del]

fun week_hours :: "zone \<Rightarrow> int \<Rightarrow> (local \<times> local) list \<Rightarrow> (date \<times> int) list \<Rightarrow> (date \<times> int) list" where
  "week_hours z week_starts_on [] weeks = weeks"
| "week_hours z week_starts_on ((s, e) # intervals) weeks =
     week_hours z week_starts_on intervals (split_days z week_starts_on s e weeks)"

text \<open>Minutes of the weeks, regular and overtime.\<close>

fun split_overtime :: "bool \<Rightarrow> int \<Rightarrow> (date \<times> int) list \<Rightarrow> int \<times> int \<Rightarrow> int \<times> int" where
  "split_overtime enabled threshold [] acc = acc"
| "split_overtime enabled threshold ((w, s) # weeks) (regular, overtime) =
     split_overtime enabled threshold weeks
       (if enabled then (regular + min s threshold div 60, overtime + max 0 (s - threshold) div 60)
        else (regular + s div 60, overtime))"

definition gross_pay :: "int \<Rightarrow> int \<Rightarrow> rat \<Rightarrow> rat \<Rightarrow> rat" where
  "gross_pay regular overtime pay_rate multiplier =
     quantize_cents (dec_add (dec_mult (dec_div (of_int regular) 60) pay_rate)
       (dec_mult (dec_mult (dec_div (of_int overtime) 60) pay_rate) multiplier))"

definition payroll_overlap :: "uuid \<Rightarrow> date \<Rightarrow> date \<Rightarrow> db \<Rightarrow> bool" where
  "payroll_overlap user_id period_start period_end db \<longleftrightarrow>
     exists_row (\<lambda>p. pp_user p = user_id \<and> pp_start p \<le> period_end \<and> period_start \<le> pp_end p) (payrolls db)"

text \<open>The payable minutes of a period in the organisation's zone.\<close>

definition payable_minutes :: "zone \<Rightarrow> uuid \<Rightarrow> date \<Rightarrow> date \<Rightarrow> db \<Rightarrow> error + (int \<times> int)" where
  "payable_minutes z user_id period_start period_end db =
     (let lower = local_midnight z period_start;
          upper = local_midnight z (period_end + 1)
      in case clip_intervals z lower upper [] (period_rows user_id (fst lower) (fst upper) db) of
        Inl e \<Rightarrow> Inl e
      | Inr intervals \<Rightarrow>
          (let weeks = week_hours z (og_week_starts_on (settings db)) intervals []
           in if weeks = [] \<or> sum_list (map snd weeks) < 60 then
                Inl (ValueError ''The approved period has no payable time'')
              else Inr (split_overtime (og_overtime_enabled (settings db))
                (og_weekly_overtime_minutes (settings db) * 60) weeks (0, 0))))"

definition new_payment ::
  "uuid \<Rightarrow> uuid \<Rightarrow> date \<Rightarrow> date \<Rightarrow> int \<Rightarrow> int \<Rightarrow> rat \<Rightarrow> rat \<Rightarrow> string \<Rightarrow> uuid option \<Rightarrow> timestamp \<Rightarrow>
   payroll_payment" where
  "new_payment payment_id user_id period_start period_end regular overtime pay_rate multiplier currency
       source now =
     \<lparr>pp_id = payment_id, pp_user = user_id, pp_start = period_start, pp_end = period_end,
      pp_regular = regular, pp_overtime = overtime, pp_rate = pay_rate, pp_multiplier = multiplier,
      pp_gross = gross_pay regular overtime pay_rate multiplier, pp_currency = currency,
      pp_provider = ''manual'', pp_recipient = [], pp_recipient_currency = [], pp_timesheet = source,
      pp_delivery_started = None, pp_status = Draft, pp_reference = [], pp_failure = [], pp_paid_at = None,
      pp_reversed_at = None, pp_next_reconcile = None, pp_reconcile_until = None, pp_attempts = 0,
      pp_last_error = [], pp_event_at = None, pp_provider_status = [], pp_failure_code = [],
      pp_failure_description = [], pp_updated = now\<rparr>"

definition source_timesheet :: "user \<Rightarrow> date \<Rightarrow> date \<Rightarrow> db \<Rightarrow> error + uuid option" where
  "source_timesheet u period_start period_end db =
     (if us_require_approval u then
        (case find (\<lambda>s. sh_user s = us_id u \<and> sh_start s = period_start \<and> sh_end s = period_end \<and>
                sh_status s = Approved) (timesheets db) of
           None \<Rightarrow> Inl (ValueError ''Approve the matching timesheet before generating payroll'')
         | Some s \<Rightarrow> Inr (Some (sh_id s)))
      else Inr None)"

definition create_payroll ::
  "(string \<Rightarrow> zone option) \<Rightarrow> uuid \<Rightarrow> date \<Rightarrow> date \<Rightarrow> string \<Rightarrow> timestamp \<Rightarrow> uuid \<Rightarrow> db \<Rightarrow>
   error + (db \<times> uuid)" where
  "create_payroll zoneinfo user_id period_start period_end currency_text now payment_id db =
     (if period_end < period_start then Inl (ValueError ''Payroll period is invalid'')
      else if 31 < period_end - period_start then Inl (ValueError ''A payroll period cannot exceed 32 days'')
      else
        let currency = str_upper (strip currency_text)
        in if length currency \<noteq> 3 \<or> \<not> isalpha currency then
             Inl (ValueError ''Payroll currency must be a three-letter code'')
           else case find (\<lambda>u. us_id u = user_id) (users db) of
             None \<Rightarrow> Inl (ValueError ''Active member not found'')
           | Some u \<Rightarrow>
               if \<not> us_enabled u then Inl (ValueError ''Active member not found'')
               else if us_pay_rate u \<le> 0 then
                 Inl (ValueError ''Set a positive member pay rate before payroll'')
               else if payroll_overlap user_id period_start period_end db then
                 Inl (ValueError ''An overlapping payroll run already exists'')
               else case source_timesheet u period_start period_end db of
                 Inl e \<Rightarrow> Inl e
               | Inr source \<Rightarrow>
                   (case zoneinfo (og_timezone (settings db)) of
                      None \<Rightarrow> Inl (ValueError ''Organization timezone is invalid'')
                    | Some z \<Rightarrow>
                        if date_of (snd (astimezone z now)) \<le> period_end then
                          Inl (ValueError ''Payroll can only be generated for a completed period'')
                        else case payable_minutes z user_id period_start period_end db of
                          Inl e \<Rightarrow> Inl e
                        | Inr (regular, overtime) \<Rightarrow>
                            if exists_row (\<lambda>p. pp_id p = payment_id) (payrolls db) then Inl UniqueViolation
                            else Inr (db\<lparr>payrolls := payrolls db @
                              [new_payment payment_id user_id period_start period_end regular overtime
                                (us_pay_rate u) (og_overtime_multiplier (settings db)) currency source now]\<rparr>,
                              payment_id)))"

subsection \<open>Clipped intervals\<close>

definition after_last :: "(local \<times> local) list \<Rightarrow> bool" where
  "after_last ivs \<longleftrightarrow> sorted_wrt (\<lambda>i j. fst (snd i) \<le> fst (fst j)) ivs"

definition in_period :: "local \<Rightarrow> local \<Rightarrow> local \<times> local \<Rightarrow> bool" where
  "in_period lower upper i \<longleftrightarrow> fst lower \<le> fst (fst i) \<and> fst (fst i) < fst (snd i) \<and> fst (snd i) \<le> fst upper"

lemma fst_astimezone [simp]: "fst (astimezone z u) = u"
  by (simp add: astimezone_def)

lemma after_last_snoc:
  assumes "after_last ivs" "\<forall>i \<in> set ivs. in_period lower upper i" "ivs \<noteq> [] \<longrightarrow> fst (snd (last ivs)) \<le> fst (fst j)"
  shows "after_last (ivs @ [j])"
proof -
  have "fst (snd i) \<le> fst (fst j)" if "i \<in> set ivs" for i
  proof (cases "i = last ivs")
    case True
    with assms(3) that show ?thesis by auto
  next
    case False
    have ne: "ivs \<noteq> []" using that by auto
    then have s: "ivs = butlast ivs @ [last ivs]" by simp
    with False that have "i \<in> set (butlast ivs)" by (metis Un_iff empty_iff empty_set insert_iff list.simps(15) set_append)
    moreover have "after_last (butlast ivs @ [last ivs])" using assms(1) s by simp
    ultimately have "fst (snd i) \<le> fst (fst (last ivs))" by (simp add: after_last_def sorted_wrt_append)
    moreover have "in_period lower upper (last ivs)" using assms(2) ne by simp
    ultimately show ?thesis using assms(3) ne by (simp add: in_period_def)
  qed
  with assms(1) show ?thesis by (simp add: after_last_def sorted_wrt_append)
qed

lemma clip_intervals_invariant:
  assumes "clip_intervals z lower upper acc rows = Inr ivs" and "after_last (rev acc)"
    and "\<forall>i \<in> set acc. in_period lower upper i" and "fst lower \<le> fst upper"
  shows "after_last ivs \<and> (\<forall>i \<in> set ivs. in_period lower upper i)"
  using assms
proof (induction z lower upper acc rows rule: clip_intervals.induct)
  case (1 z lower upper acc)
  then show ?case by auto
next
  case (2 z lower upper acc s e rows)
  define st where "st = (if s < fst lower then lower else astimezone z s)"
  define en where "en = (if fst upper < e then upper else astimezone z e)"
  note IH = 2(1,2) [OF st_def en_def]
  note r = 2(3) [unfolded clip_intervals.simps Let_def, folded st_def en_def]
  show ?case
  proof (cases "fst en \<le> fst st")
    case True
    from IH(1) [OF True] r True 2(4-6) show ?thesis by simp
  next
    case False
    with r have ok: "\<not> (acc \<noteq> [] \<and> fst st < fst (snd (hd acc)))"
      and r': "clip_intervals z lower upper ((st, en) # acc) rows = Inr ivs"
      by (simp_all split: if_splits)
    have w: "in_period lower upper (st, en)"
      using False 2(6) by (auto simp: in_period_def st_def en_def)
    have "after_last (rev acc @ [(st, en)])"
      using ok 2(4,5) by (intro after_last_snoc) (auto simp: last_rev)
    with IH(2) [OF False ok r'] w 2(5,6) show ?thesis by simp
  qed
qed

subsection \<open>Seconds of the weeks\<close>











text \<open>The intervals a payroll counts lie within the period, are not empty and do not overlap.\<close>

theorem payroll_intervals_sound:
  assumes "clip_intervals z lower upper [] rows = Inr ivs" and "fst lower \<le> fst upper"
  shows "after_last ivs \<and> (\<forall>i \<in> set ivs. in_period lower upper i)"
  using clip_intervals_invariant [OF assms(1) _ _ assms(2)] by (simp add: after_last_def)


definition utc_zone :: zone where
  "utc_zone = \<lparr>zn_offset = (\<lambda>_. 0), zn_resolve = (\<lambda>w. w)\<rparr>"


definition sample_intervals :: "(local \<times> local) list" where
  "sample_intervals = [(astimezone utc_zone 3600000000, astimezone utc_zone 93600000000)]"

theorem payroll_intervals_sound_witness:
  "after_last sample_intervals"
proof -
  have "clip_intervals utc_zone (astimezone utc_zone 0) (astimezone utc_zone 172800000000) []
      [(3600000000, 93600000000)] = Inr sample_intervals" by code_simp
  from payroll_intervals_sound [OF this] show ?thesis by simp
qed


text \<open>Where clocks go back the wall clock does not advance: an interval across the change is not counted at all.\<close>

definition clocks_back :: zone where
  "clocks_back = \<lparr>zn_offset = (\<lambda>u. if u < 3600000000 then 3600000000 else 0), zn_resolve = (\<lambda>w. w)\<rparr>"

lemma fold_loses_time:
  "week_hours clocks_back 1 [(astimezone clocks_back 3000000000, astimezone clocks_back 4200000000)] [] = []"
  by code_simp

end
