(* ===== verification/Payroll_Delivery.thy ===== *)
theory Payroll_Delivery
  imports Payroll "HOL-Library.Product_Lexorder" "HOL-Library.List_Lexorder" "HOL-Library.Char_ord"
begin

section \<open>Delivering payroll through a provider\<close>

text \<open>
  The operations of \<open>api/repositories/workforce.py\<close> that move a payment: the manual status of
  the administrator, the claim before a dispatch, the provider's answer, the webhook queue, the
  reconciliation worker's bookkeeping.  \<open>pay_step\<close> is the contract: which fields of a payment
  may change how; every operation refines it.
\<close>

subsection \<open>Statuses and constraints\<close>

fun status_text :: "pay_status \<Rightarrow> string" where
  "status_text Draft = ''draft''"
| "status_text Processing = ''processing''"
| "status_text Paid = ''paid''"
| "status_text Failed = ''failed''"
| "status_text Reversed = ''reversed''"

definition parse_pay_status :: "string \<Rightarrow> pay_status option" where
  "parse_pay_status s = find (\<lambda>st. status_text st = s) [Draft, Processing, Paid, Failed, Reversed]"

definition minutes :: "int \<Rightarrow> int" where "minutes n = seconds (60 * n)"

text \<open>The partial unique index on the references of the direct providers.\<close>

definition direct_reference :: "payroll_payment \<Rightarrow> bool" where
  "direct_reference p \<longleftrightarrow> pp_provider p \<in> {''paypal'', ''wise''} \<and> pp_reference p \<noteq> []"

definition unique_references :: "payroll_payment list \<Rightarrow> bool" where
  "unique_references ps \<longleftrightarrow> distinct (map (\<lambda>p. (pp_provider p, pp_reference p)) (filter direct_reference ps))"

text \<open>\<open>UPDATE payroll_payments SET ... WHERE id=\<close> with the table's constraints.\<close>

definition update_payment :: "uuid \<Rightarrow> (payroll_payment \<Rightarrow> payroll_payment) \<Rightarrow> db \<Rightarrow> error + db" where
  "update_payment payment_id f db =
     (let rows = update_where (\<lambda>p. pp_id p = payment_id) f (payrolls db)
      in if exists_row (\<lambda>p. pp_attempts p < 0 \<or> 20 < pp_attempts p) rows then Inl CheckViolation
         else if \<not> unique_references rows then Inl UniqueViolation
         else Inr (db\<lparr>payrolls := rows\<rparr>))"

definition find_payment :: "uuid \<Rightarrow> db \<Rightarrow> payroll_payment option" where
  "find_payment payment_id db = find (\<lambda>p. pp_id p = payment_id) (payrolls db)"

text \<open>\<open>get_payroll_payment\<close> joins the member.\<close>

definition get_payroll_payment :: "uuid \<Rightarrow> db \<Rightarrow> (payroll_payment \<times> user) option" where
  "get_payroll_payment payment_id db =
     (case find_payment payment_id db of
        None \<Rightarrow> None
      | Some p \<Rightarrow> map_option (Pair p) (find (\<lambda>u. us_id u = pp_user p) (users db)))"

subsection \<open>The administrator's status\<close>

definition manual_status :: "pay_status \<Rightarrow> timestamp \<Rightarrow> payroll_payment \<Rightarrow> payroll_payment" where
  "manual_status status now p =
     p\<lparr>pp_status := status, pp_paid_at := (if status = Paid then Some now else pp_paid_at p), pp_updated := now\<rparr>"

definition set_financial_status :: "string \<Rightarrow> uuid \<Rightarrow> string \<Rightarrow> timestamp \<Rightarrow> db \<Rightarrow> error + db" where
  "set_financial_status table item_id item_status now db =
     (if table = ''invoices'' \<and> item_status \<in> {''draft'', ''sent'', ''paid'', ''void'', ''overdue''} then
        (if rowcount (\<lambda>i. ci_id i = item_id) (client_invoices db) \<noteq> 1 then
           Inl (ValueError ''Financial record not found'')
         else Inr (db\<lparr>client_invoices := update_where (\<lambda>i. ci_id i = item_id)
                (\<lambda>i. i\<lparr>ci_status := item_status\<rparr>) (client_invoices db)\<rparr>))
      else if table = ''payroll_payments'' \<and> item_status \<in> {''draft'', ''processing'', ''paid'', ''failed''} then
        (case find_payment item_id db of
           None \<Rightarrow> Inl (ValueError ''Financial record not found'')
         | Some p \<Rightarrow>
             if pp_provider p \<noteq> ''manual'' then
               Inl (ValueError ''Provider-managed payroll status can only be updated by reconciliation'')
             else if pp_status p = Paid \<and> item_status \<noteq> ''paid'' then
               Inl (ValueError ''Paid payroll cannot be moved to an earlier status'')
             else update_payment item_id (manual_status (the (parse_pay_status item_status)) now) db)
      else Inl (ValueError ''Invalid financial status''))"

subsection \<open>Provider events\<close>

definition nul :: char where "nul = CHR 0x00"

definition record_event ::
  "timestamp \<Rightarrow> string \<Rightarrow> string \<Rightarrow> string \<Rightarrow> timestamp \<Rightarrow> payroll_payment \<Rightarrow> payroll_payment" where
  "record_event event_at status_code code_text description now p =
     (let reconcilable = pp_status p \<in> {Processing, Paid, Failed}
      in p\<lparr>pp_event_at := Some event_at, pp_provider_status := status_code, pp_failure_code := code_text,
           pp_failure_description := description,
           pp_next_reconcile := (if reconcilable then Some now else pp_next_reconcile p),
           pp_reconcile_until :=
             (if reconcilable \<and> pp_status p = Paid
              then Some (max (case pp_reconcile_until p of None \<Rightarrow> now | Some t \<Rightarrow> t) (now + days 90))
              else pp_reconcile_until p),
           pp_attempts := (if reconcilable then 0 else pp_attempts p),
           pp_last_error := (if reconcilable then [] else pp_last_error p),
           pp_updated := now\<rparr>)"

definition queue_wise_payroll_event ::
  "string \<Rightarrow> string \<Rightarrow> pydatetime \<Rightarrow> string \<Rightarrow> string \<Rightarrow> timestamp \<Rightarrow> db \<Rightarrow>
   error + (db \<times> (uuid \<times> pay_status \<times> string) option)" where
  "queue_wise_payroll_event transfer_id provider_status occurred_at failure_code failure_description now db =
     (case occurred_at of
        Naive _ \<Rightarrow> Inl (ValueError ''Wise event time must include a timezone'')
      | Aware event_at _ \<Rightarrow>
          (let safe_status = take 80 (str_lower (strip (remove_char nul provider_status)));
               safe_code = take 120 (strip (remove_char nul failure_code));
               safe_description = take 500 (collapse_spaces (remove_char nul failure_description))
           in case find (\<lambda>p. pp_provider p = ''wise'' \<and> pp_reference p = transfer_id) (payrolls db) of
                None \<Rightarrow> Inr (db, None)
              | Some p \<Rightarrow>
                  if (case pp_event_at p of None \<Rightarrow> False | Some t \<Rightarrow> event_at \<le> t) then
                    Inr (db, Some (pp_id p, pp_status p, ''stale''))
                  else (case update_payment (pp_id p)
                          (record_event event_at safe_status safe_code safe_description now) db of
                          Inl e \<Rightarrow> Inl e
                        | Inr db' \<Rightarrow>
                            Inr (add_audit_event ''payroll.wise_event_received'' (pp_id p)
                                   (take 500 (safe_status @ '':'' @ safe_code)) db',
                                 Some (pp_id p, pp_status p,
                                   if pp_status p \<in> {Processing, Paid, Failed} then ''queued'' else ''recorded'')))))"

subsection \<open>Destinations\<close>

definition paypal_recipient_ok :: "string \<Rightarrow> bool" where
  "paypal_recipient_ok r \<longleftrightarrow> r \<noteq> [] \<and> length r \<le> 127 \<and> length (filter (\<lambda>c. c = CHR ''@'') r) = 1
     \<and> \<not> list_ex is_space r"

definition set_payroll_destination ::
  "uuid \<Rightarrow> string \<Rightarrow> string \<Rightarrow> string \<Rightarrow> db \<Rightarrow> error + db" where
  "set_payroll_destination user_id provider recipient_text currency_text db =
     (let recipient = str_lower (strip recipient_text);
          currency = str_upper (strip currency_text)
      in if provider \<notin> {''paypal'', ''wise''} then
           Inl (ValueError ''Unsupported payroll destination provider'')
         else if provider = ''paypal'' \<and> \<not> paypal_recipient_ok recipient then
           Inl (ValueError ''A valid payroll recipient is required'')
         else if provider = ''wise'' \<and> isdigit recipient \<and> int_of_digits recipient = None then
           Inl (ValueError ''invalid literal for int()'')
         else if provider = ''wise'' \<and> (\<not> isdigit recipient \<or> the (int_of_digits recipient) \<le> 0 \<or>
                length currency \<noteq> 3 \<or> \<not> isalpha currency) then
           Inl (ValueError ''A positive Wise recipient account ID and currency are required'')
         else if \<not> exists_row (\<lambda>u. us_id u = user_id \<and> us_enabled u) (users db) then
           Inl (ValueError ''Active member not found'')
         else
           let d = \<lparr>pd_user = user_id, pd_provider = provider, pd_recipient = recipient,
                    pd_currency = (if provider = ''wise'' then currency else [])\<rparr>;
               same = (\<lambda>r. pd_user r = user_id \<and> pd_provider r = provider)
           in Inr (db\<lparr>destinations :=
                 (if exists_row same (destinations db) then update_where same (\<lambda>_. d) (destinations db)
                  else destinations db @ [d])\<rparr>))"

definition payroll_destinations :: "string \<Rightarrow> db \<Rightarrow> payroll_destination list" where
  "payroll_destinations provider db =
     (if provider \<notin> {''paypal'', ''wise''} then []
      else filter (\<lambda>d. pd_provider d = provider) (destinations db))"

subsection \<open>Claiming a payment for dispatch\<close>

definition dispatch_recipient :: "payroll_payment \<Rightarrow> user \<Rightarrow> string \<Rightarrow> db \<Rightarrow> error + (string \<times> string)" where
  "dispatch_recipient p u provider db =
     (if pp_recipient p \<noteq> [] then Inr (pp_recipient p, pp_recipient_currency p)
      else if provider \<in> {''paypal'', ''wise''} then
        (case find (\<lambda>d. pd_user d = pp_user p \<and> pd_provider d = provider) (destinations db) of
           None \<Rightarrow> Inl (ValueError (''Confirm this member's '' @
             (if provider = ''paypal'' then ''Paypal'' else ''Wise'') @ '' payout destination before sending''))
         | Some d \<Rightarrow> Inr (pd_recipient d, pd_currency d))
      else Inr (us_email u, pp_recipient_currency p))"

definition claimed :: "string \<Rightarrow> string \<Rightarrow> string \<Rightarrow> timestamp \<Rightarrow> payroll_payment \<Rightarrow> payroll_payment" where
  "claimed provider recipient currency now p =
     p\<lparr>pp_status := Processing, pp_provider := provider, pp_recipient := recipient,
       pp_recipient_currency := currency, pp_failure := [], pp_updated := now,
       pp_delivery_started := (case pp_delivery_started p of None \<Rightarrow> Some now | Some t \<Rightarrow> Some t)\<rparr>"

text \<open>\<open>str(x or "manual")\<close>.\<close>

definition provider_or_manual :: "payroll_payment \<Rightarrow> string" where
  "provider_or_manual p = (if pp_provider p = [] then ''manual'' else pp_provider p)"

definition claim_payroll_delivery ::
  "uuid \<Rightarrow> string \<Rightarrow> timestamp \<Rightarrow> db \<Rightarrow> error + (db \<times> payroll_payment)" where
  "claim_payroll_delivery payment_id provider now db =
     (if provider \<notin> {''webhook'', ''paypal'', ''wise''} then Inl (ValueError ''Unsupported payroll provider'')
      else case get_payroll_payment payment_id db of
        None \<Rightarrow> Inl (ValueError ''Payroll payment not found'')
      | Some (p, u) \<Rightarrow>
          if pp_status p \<notin> {Draft, Failed} then
            Inl (ValueError ''Only draft or failed payroll can be dispatched'')
          else if provider_or_manual p \<notin> {''manual'', provider} then
            Inl (ValueError ''A failed payroll can only be retried with its original provider'')
          else if provider = ''paypal'' \<and>
                  (case pp_delivery_started p of None \<Rightarrow> False | Some t \<Rightarrow> t < now - days 29) then
            Inl (ValueError ''PayPal's duplicate-protection window expired; reconcile this payment manually instead of retrying'')
          else case dispatch_recipient p u provider db of
            Inl e \<Rightarrow> Inl e
          | Inr (recipient, currency) \<Rightarrow>
              (case update_payment payment_id (claimed provider recipient currency now) db of
                 Inl e \<Rightarrow> Inl e
               | Inr db' \<Rightarrow> Inr (db', claimed provider recipient currency now p)))"

subsection \<open>Reconciliation\<close>

definition reconcilable_payroll_payments :: "string \<Rightarrow> int \<Rightarrow> timestamp \<Rightarrow> db \<Rightarrow> payroll_payment list" where
  "reconcilable_payroll_payments provider limit now db =
     (if provider \<notin> {''paypal'', ''wise''} then []
      else take (nat (max 1 (min limit 500)))
        (sort_key (\<lambda>p. (the (pp_next_reconcile p), pp_id p))
          (filter (\<lambda>p. exists_row (\<lambda>u. us_id u = pp_user p) (users db) \<and> pp_provider p = provider \<and>
             pp_status p \<in> {Processing, Paid, Failed} \<and> pp_reference p \<noteq> [] \<and>
             (case pp_next_reconcile p of None \<Rightarrow> False | Some t \<Rightarrow> t \<le> now) \<and>
             (pp_status p \<in> {Processing, Failed} \<or>
              (case pp_reconcile_until p of None \<Rightarrow> False | Some t \<Rightarrow> now < t))) (payrolls db))))"

definition defer_delay_minutes :: "pay_status \<Rightarrow> int \<Rightarrow> int" where
  "defer_delay_minutes status attempts =
     min ((if status = Processing then 5 else 60) * 2 ^ nat (attempts - 1)) (24 * 60)"

definition deferred :: "string \<Rightarrow> timestamp \<Rightarrow> payroll_payment \<Rightarrow> payroll_payment" where
  "deferred reason now p =
     (let attempts = min (pp_attempts p + 1) 20
      in p\<lparr>pp_attempts := attempts, pp_last_error := take 500 reason,
           pp_next_reconcile := Some (now + minutes (defer_delay_minutes (pp_status p) attempts)),
           pp_updated := now\<rparr>)"

definition defer_payroll_reconciliation :: "uuid \<Rightarrow> string \<Rightarrow> timestamp \<Rightarrow> db \<Rightarrow> error + db" where
  "defer_payroll_reconciliation payment_id reason now db =
     (case find_payment payment_id db of
        None \<Rightarrow> Inl (ValueError ''Payroll payment not found'')
      | Some p \<Rightarrow>
          if pp_status p \<notin> {Processing, Paid} then Inr db
          else update_payment payment_id (deferred reason now) db)"

definition stale_claim :: "string \<Rightarrow> int \<Rightarrow> timestamp \<Rightarrow> payroll_payment \<Rightarrow> bool" where
  "stale_claim provider mins now p \<longleftrightarrow> pp_provider p = provider \<and> pp_status p = Processing \<and>
     pp_reference p = [] \<and> pp_updated p < now - minutes (max 1 (min mins 60))"

definition recover_stale_payroll_claims :: "string \<Rightarrow> int \<Rightarrow> timestamp \<Rightarrow> db \<Rightarrow> db \<times> nat" where
  "recover_stale_payroll_claims provider mins now db =
     (if provider \<notin> {''webhook'', ''paypal'', ''wise''} then (db, 0)
      else (db\<lparr>payrolls := update_where (stale_claim provider mins now)
              (\<lambda>p. p\<lparr>pp_status := Failed, pp_failure := ''payroll_dispatch_interrupted'', pp_updated := now\<rparr>)
              (payrolls db)\<rparr>, rowcount (stale_claim provider mins now) (payrolls db)))"

subsection \<open>The provider's answer\<close>

definition delivered ::
  "pay_status \<Rightarrow> string \<Rightarrow> string \<Rightarrow> string \<Rightarrow> timestamp \<Rightarrow> payroll_payment \<Rightarrow> payroll_payment" where
  "delivered status provider reference reason now p =
     p\<lparr>pp_status := status, pp_provider := take 80 provider,
       pp_reference := take 255 (if reference = [] then pp_reference p else reference),
       pp_failure := take 1000 reason,
       pp_paid_at := (case pp_paid_at p of Some t \<Rightarrow> Some t
                      | None \<Rightarrow> if status = Paid then Some now else None),
       pp_reversed_at := (case pp_reversed_at p of Some t \<Rightarrow> Some t
                          | None \<Rightarrow> if status = Reversed then Some now else None),
       pp_next_reconcile := (if status = Processing \<and> reference \<noteq> [] then Some (now + minutes 5)
                             else if status = Paid then Some (now + minutes (24 * 60)) else None),
       pp_reconcile_until :=
         (if status \<noteq> Paid then None
          else case pp_paid_at p of
            None \<Rightarrow> Some (now + days 90)
          | Some t \<Rightarrow> (case pp_reconcile_until p of Some v \<Rightarrow> Some v | None \<Rightarrow> Some (t + days 90))),
       pp_attempts := 0, pp_last_error := [], pp_updated := now\<rparr>"

definition record_payroll_delivery ::
  "uuid \<Rightarrow> string \<Rightarrow> string \<Rightarrow> string \<Rightarrow> string \<Rightarrow> timestamp \<Rightarrow> db \<Rightarrow> error + db" where
  "record_payroll_delivery payment_id status_name provider external_reference failure_reason now db =
     (if status_name \<notin> {''processing'', ''paid'', ''failed'', ''reversed''} then
        Inl (ValueError ''Invalid payroll delivery status'')
      else
        let status = the (parse_pay_status status_name)
        in case find_payment payment_id db of
             None \<Rightarrow> Inl (ValueError ''Payroll payment not found'')
           | Some p \<Rightarrow>
               if pp_status p = Paid \<and> status \<notin> {Processing, Paid, Reversed} then
                 Inl (ValueError ''Paid payroll can only be reconciled as processing, paid, or reversed'')
               else if pp_status p = Reversed \<and> status \<noteq> Reversed then
                 Inl (ValueError ''Reversed payroll is terminal'')
               else if provider_or_manual p \<notin> {''manual'', provider} then
                 Inl (ValueError ''Payroll provider cannot be changed'')
               else if pp_reference p \<noteq> [] \<and> external_reference \<noteq> [] \<and>
                       pp_reference p \<noteq> external_reference then
                 Inl (ValueError ''Payroll provider reference cannot be changed'')
               else case update_payment payment_id
                      (delivered status provider external_reference failure_reason now) db of
                 Inl e \<Rightarrow> Inl e
               | Inr db' \<Rightarrow>
                   Inr (if status = Reversed \<and> pp_status p \<noteq> Reversed
                        then add_audit_event ''payroll.provider_reversed'' payment_id
                               (take 500 (provider @ '':'' @ failure_reason)) db'
                        else db'))"

subsection \<open>The contract of a payment\<close>

definition providers :: "string list" where "providers = [''webhook'', ''paypal'', ''wise'']"

inductive pay_step :: "payroll_payment \<Rightarrow> payroll_payment \<Rightarrow> bool" where
  manual: "pp_provider p = ''manual'' \<Longrightarrow> st \<noteq> Reversed \<Longrightarrow> (pp_status p = Paid \<Longrightarrow> st = Paid) \<Longrightarrow>
     pay_step p (manual_status st now p)"
| event: "pay_step p (record_event t st c d now p)"
| claim: "pp_status p \<in> {Draft, Failed} \<Longrightarrow> provider \<in> set providers \<Longrightarrow>
     provider_or_manual p \<in> {''manual'', provider} \<Longrightarrow>
     (pp_recipient p \<noteq> [] \<Longrightarrow> recipient = pp_recipient p \<and> currency = pp_recipient_currency p) \<Longrightarrow>
     pay_step p (claimed provider recipient currency now p)"
| stale: "pp_status p = Processing \<Longrightarrow> pp_reference p = [] \<Longrightarrow> pp_provider p \<in> set providers \<Longrightarrow>
     pay_step p (p\<lparr>pp_status := Failed, pp_failure := ''payroll_dispatch_interrupted'', pp_updated := now\<rparr>)"
| postponed: "pp_status p \<in> {Processing, Paid} \<Longrightarrow> pay_step p (deferred reason now p)"
| answer: "(pp_status p = Paid \<Longrightarrow> status \<in> {Processing, Paid, Reversed}) \<Longrightarrow>
     (pp_status p = Reversed \<Longrightarrow> status = Reversed) \<Longrightarrow> status \<noteq> Draft \<Longrightarrow> provider \<in> set providers \<Longrightarrow>
     provider_or_manual p \<in> {''manual'', provider} \<Longrightarrow>
     (pp_reference p \<noteq> [] \<Longrightarrow> reference \<noteq> [] \<Longrightarrow> pp_reference p = reference) \<Longrightarrow>
     pay_step p (delivered status provider reference reason now p)"

inductive_cases pay_stepE: "pay_step p q"

lemmas pay_row_defs = manual_status_def record_event_def claimed_def deferred_def delivered_def

definition managed :: "payroll_payment \<Rightarrow> bool" where
  "managed p \<longleftrightarrow> pp_provider p \<in> set providers"

definition payment_ok :: "payroll_payment \<Rightarrow> bool" where
  "payment_ok p \<longleftrightarrow> pp_start p \<le> pp_end p \<and> pp_end p \<le> pp_start p + 31 \<and>
     0 \<le> pp_attempts p \<and> pp_attempts p \<le> 20 \<and> (managed p \<or> pp_provider p = ''manual'') \<and>
     (pp_status p = Reversed \<longrightarrow> managed p) \<and> (pp_reference p \<noteq> [] \<longrightarrow> managed p) \<and>
     length (pp_reference p) \<le> 255"

text \<open>What was computed, and what never changes about a payment.\<close>

definition computed :: "payroll_payment \<Rightarrow> uuid \<times> uuid \<times> date \<times> date \<times> int \<times> int \<times> rat \<times> rat \<times> rat \<times> string \<times> uuid option" where
  "computed p = (pp_id p, pp_user p, pp_start p, pp_end p, pp_regular p, pp_overtime p, pp_rate p,
     pp_multiplier p, pp_gross p, pp_currency p, pp_timesheet p)"

definition pay_evolves :: "payroll_payment \<Rightarrow> payroll_payment \<Rightarrow> bool" where
  "pay_evolves p q \<longleftrightarrow> computed q = computed p \<and>
     (managed p \<longrightarrow> pp_provider q = pp_provider p) \<and>
     (pp_reference p \<noteq> [] \<longrightarrow> pp_reference q = pp_reference p) \<and>
     (pp_recipient p \<noteq> [] \<longrightarrow> pp_recipient q = pp_recipient p) \<and>
     (managed p \<and> pp_paid_at p \<noteq> None \<longrightarrow> pp_paid_at q = pp_paid_at p) \<and>
     (pp_reversed_at p \<noteq> None \<longrightarrow> pp_reversed_at q = pp_reversed_at p) \<and>
     (pp_delivery_started p \<noteq> None \<longrightarrow> pp_delivery_started q = pp_delivery_started p) \<and>
     (pp_status p = Reversed \<longrightarrow> pp_status q = Reversed)"

lemma take_provider: "provider \<in> set providers \<Longrightarrow> take 80 provider = provider"
  by (auto simp: providers_def)

lemma provider_cases:
  "payment_ok p \<Longrightarrow> provider \<in> set providers \<Longrightarrow> provider_or_manual p \<in> {''manual'', provider} \<Longrightarrow>
   pp_provider p = ''manual'' \<or> pp_provider p = provider"
  by (auto simp: provider_or_manual_def payment_ok_def managed_def providers_def split: if_splits)

lemma pay_step_ok:
  assumes "pay_step p q" and ok: "payment_ok p"
  shows "payment_ok q"
  using assms(1)
proof cases
  case (answer status provider reference reason now)
  with ok show ?thesis
    by (auto simp: payment_ok_def delivered_def managed_def take_provider)
next
  case (postponed reason now)
  with ok show ?thesis by (auto simp: payment_ok_def deferred_def Let_def managed_def)
qed (use ok in \<open>auto simp: payment_ok_def managed_def manual_status_def record_event_def claimed_def Let_def\<close>)

lemma pay_step_evolves:
  assumes "pay_step p q" and ok: "payment_ok p"
  shows "pay_evolves p q"
  using assms(1)
proof cases
  case (manual st now)
  with ok show ?thesis
    by (auto simp: pay_evolves_def computed_def manual_status_def managed_def payment_ok_def providers_def)
next
  case (answer status provider reference reason now)
  have m: "managed p \<Longrightarrow> provider = pp_provider p"
    using provider_cases [OF ok answer(5,6)] by (auto simp: managed_def providers_def)
  have f: "pp_reference p \<noteq> [] \<Longrightarrow> pp_reference q = pp_reference p"
    using answer(7) ok unfolding answer(1) delivered_def payment_ok_def by (cases "reference = []") simp_all
  have c: "computed q = computed p" and o: "pp_recipient q = pp_recipient p"
    "pp_delivery_started q = pp_delivery_started p" "pp_status q = status" "pp_provider q = provider"
    "pp_paid_at p \<noteq> None \<Longrightarrow> pp_paid_at q = pp_paid_at p"
    "pp_reversed_at p \<noteq> None \<Longrightarrow> pp_reversed_at q = pp_reversed_at p"
    unfolding answer(1) computed_def delivered_def using take_provider [OF answer(5)] by auto
  show ?thesis unfolding pay_evolves_def using m f c o answer(3) by simp
next
  case (claim provider recipient currency now)
  have m: "managed p \<Longrightarrow> provider = pp_provider p"
    using provider_cases [OF ok claim(3,4)] by (auto simp: managed_def providers_def)
  have c: "computed q = computed p" and o: "pp_recipient q = recipient" "pp_reference q = pp_reference p"
    "pp_delivery_started p \<noteq> None \<Longrightarrow> pp_delivery_started q = pp_delivery_started p" "pp_provider q = provider"
    "pp_paid_at q = pp_paid_at p" "pp_reversed_at q = pp_reversed_at p"
    unfolding claim(1) computed_def claimed_def by auto
  have r: "pp_recipient p \<noteq> [] \<Longrightarrow> recipient = pp_recipient p" using claim(5) by blast
  have s: "pp_status p \<noteq> Reversed" using claim(2) by auto
  show ?thesis unfolding pay_evolves_def using m c o r s by simp
qed (auto simp: pay_evolves_def computed_def record_event_def deferred_def Let_def)

lemma pay_evolves_refl: "pay_evolves p p"
  by (simp add: pay_evolves_def)

lemma pay_evolves_trans:
  assumes "pay_evolves p q" "pay_evolves q r"
  shows "pay_evolves p r"
proof -
  have "managed p \<Longrightarrow> managed q" using assms(1) by (auto simp: pay_evolves_def managed_def)
  then show ?thesis using assms unfolding pay_evolves_def by (elim conjE, intro conjI impI; simp)
qed

subsection \<open>The invariant of the table\<close>

definition pay_inv :: "db \<Rightarrow> bool" where
  "pay_inv db \<longleftrightarrow> distinct (map pp_id (payrolls db)) \<and> unique_references (payrolls db) \<and>
     list_all payment_ok (payrolls db) \<and>
     sorted_wrt (\<lambda>p q. pp_user p = pp_user q \<longrightarrow> pp_end p < pp_start q \<or> pp_end q < pp_start p) (payrolls db)"

definition pays_evolve :: "db \<Rightarrow> db \<Rightarrow> bool" where
  "pays_evolve db db' \<longleftrightarrow> (\<forall>p \<in> set (payrolls db). \<exists>q \<in> set (payrolls db'). pay_evolves p q)"

lemma pays_evolve_refl: "pays_evolve db db"
  by (auto simp: pays_evolve_def intro: pay_evolves_refl)

lemma pays_evolve_trans: "pays_evolve db db1 \<Longrightarrow> pays_evolve db1 db2 \<Longrightarrow> pays_evolve db db2"
  unfolding pays_evolve_def by (meson pay_evolves_trans)

lemma pays_evolve_same: "payrolls db' = payrolls db \<Longrightarrow> pays_evolve db db' \<and> pay_inv db' = pay_inv db"
  by (auto simp: pays_evolve_def pay_inv_def intro: pay_evolves_refl)

lemma sorted_wrt_update:
  assumes "sorted_wrt R rows" and "\<And>r s. R r s \<Longrightarrow> r \<in> set rows \<Longrightarrow> s \<in> set rows \<Longrightarrow>
    R (if q r then f r else r) (if q s then f s else s)"
  shows "sorted_wrt R (update_where q f rows)"
  using assms
proof (induction rows)
  case (Cons r rows)
  have "R (if q r then f r else r) s" if "s \<in> set (update_where q f rows)" for s
  proof -
    from that obtain t where "t \<in> set rows" "s = (if q t then f t else t)" by (auto simp: table_simps)
    with Cons.prems(1) Cons.prems(2) [of r t] show ?thesis by simp
  qed
  with Cons show ?case by simp
qed simp

text \<open>An update of rows by steps keeps the invariant, the reference index permitting.\<close>

lemma pay_rows_update:
  assumes inv: "pay_inv db" and step: "\<And>p. p \<in> set (payrolls db) \<Longrightarrow> q p \<Longrightarrow> pay_step p (f p)"
    and rows: "payrolls db' = update_where q f (payrolls db)" and u: "unique_references (payrolls db')"
  shows "pay_inv db' \<and> pays_evolve db db'"
proof -
  have ok: "payment_ok p" if "p \<in> set (payrolls db)" for p
    using inv that by (simp add: pay_inv_def list_all_iff)
  have ev: "pay_evolves p (if q p then f p else p)" if "p \<in> set (payrolls db)" for p
    using pay_step_evolves [OF step ok] that by (simp add: pay_evolves_refl)
  have same: "computed (if q p then f p else p) = computed p" if "p \<in> set (payrolls db)" for p
    using ev [OF that] by (simp add: pay_evolves_def)
  have fields: "pp_id (if q p then f p else p) = pp_id p \<and> pp_user (if q p then f p else p) = pp_user p \<and>
      pp_start (if q p then f p else p) = pp_start p \<and> pp_end (if q p then f p else p) = pp_end p"
    if "p \<in> set (payrolls db)" for p
    using same [OF that] unfolding computed_def by simp
  have "map pp_id (payrolls db') = map pp_id (payrolls db)"
    unfolding rows using fields by (intro map_update_where) (metis (full_types))
  moreover have "sorted_wrt (\<lambda>p q. pp_user p = pp_user q \<longrightarrow> pp_end p < pp_start q \<or> pp_end q < pp_start p) (payrolls db')"
    unfolding rows
  proof (rule sorted_wrt_update)
    show "sorted_wrt (\<lambda>p q. pp_user p = pp_user q \<longrightarrow> pp_end p < pp_start q \<or> pp_end q < pp_start p) (payrolls db)"
      using inv by (simp add: pay_inv_def)
    fix r s assume "pp_user r = pp_user s \<longrightarrow> pp_end r < pp_start s \<or> pp_end s < pp_start r"
      "r \<in> set (payrolls db)" "s \<in> set (payrolls db)"
    with fields [of r] fields [of s]
    show "pp_user (if q r then f r else r) = pp_user (if q s then f s else s) \<longrightarrow>
        pp_end (if q r then f r else r) < pp_start (if q s then f s else s) \<or>
        pp_end (if q s then f s else s) < pp_start (if q r then f r else r)"
      by simp
  qed
  moreover have "list_all payment_ok (payrolls db')"
    using pay_step_ok [OF step ok] ok by (auto simp: rows list_all_iff in_update_where)
  ultimately have "pay_inv db'" using inv u by (simp add: pay_inv_def)
  moreover have "pays_evolve db db'"
    unfolding pays_evolve_def
  proof
    fix p assume "p \<in> set (payrolls db)"
    with ev show "\<exists>r \<in> set (payrolls db'). pay_evolves p r"
      by (intro bexI [of _ "if q p then f p else p"]) (auto simp: rows table_simps)
  qed
  ultimately show ?thesis ..
qed

lemma find_payment_only:
  assumes "pay_inv db" "find_payment i db = Some p" "q \<in> set (payrolls db)" "pp_id q = i"
  shows "q = p"
  using assms find_in_set [of "\<lambda>p. pp_id p = i" "payrolls db" p] distinct_key_eq [of pp_id "payrolls db" q p]
  by (simp add: pay_inv_def find_payment_def)

lemma update_payment_ok:
  assumes inv: "pay_inv db" and p: "find_payment i db = Some p" and s: "pay_step p (f p)"
    and r: "update_payment i f db = Inr db'"
  shows "pay_inv db' \<and> pays_evolve db db'"
proof (rule pay_rows_update [OF inv])
  show "payrolls db' = update_where (\<lambda>p. pp_id p = i) f (payrolls db)" "unique_references (payrolls db')"
    using r by (auto simp: update_payment_def Let_def split: if_splits)
  fix q assume "q \<in> set (payrolls db)" "pp_id q = i"
  with find_payment_only [OF inv p] s show "pay_step q (f q)" by simp
qed

subsection \<open>Every operation refines the contract\<close>

lemma set_financial_status_ok:
  assumes inv: "pay_inv db" and r: "set_financial_status table i st now db = Inr db'"
  shows "pay_inv db' \<and> pays_evolve db db'"
proof (cases "table = ''payroll_payments''")
  case False
  with r have "payrolls db' = payrolls db" by (auto simp: set_financial_status_def split: if_splits)
  with pays_evolve_same [of db' db] inv show ?thesis by simp
next
  case True
  with r obtain p where p: "find_payment i db = Some p" and m: "pp_provider p = ''manual''"
    and paid: "pp_status p = Paid \<Longrightarrow> st = ''paid''" and st: "st \<in> {''draft'', ''processing'', ''paid'', ''failed''}"
    and u: "update_payment i (manual_status (the (parse_pay_status st)) now) db = Inr db'"
    by (auto simp: set_financial_status_def split: if_splits option.splits)
  have "the (parse_pay_status st) \<noteq> Reversed" "st = ''paid'' \<Longrightarrow> the (parse_pay_status st) = Paid"
    using st by (auto simp: parse_pay_status_def)
  then show ?thesis by (intro update_payment_ok [OF inv p _ u] pay_step.manual m) (auto dest: paid)
qed

lemma audit_payrolls [simp]: "payrolls (add_audit_event a t d db) = payrolls db"
  by (simp add: add_audit_event_def)

lemma queue_wise_payroll_event_ok:
  assumes inv: "pay_inv db" and r: "queue_wise_payroll_event t st oc co tx now db = Inr (db', out)"
  shows "pay_inv db' \<and> pays_evolve db db'"
proof (cases "payrolls db' = payrolls db")
  case True
  with pays_evolve_same [OF True] inv show ?thesis by simp
next
  case False
  with r obtain ev p s c d db1 where p: "find (\<lambda>p. pp_provider p = ''wise'' \<and> pp_reference p = t) (payrolls db) = Some p"
    and u: "update_payment (pp_id p) (record_event ev s c d now) db = Inr db1" and e: "payrolls db' = payrolls db1"
    by (auto simp: queue_wise_payroll_event_def Let_def split: pydatetime.splits option.splits if_splits sum.splits)
  have "find_payment (pp_id p) db = Some p"
    using find_unique [of pp_id "payrolls db" p] find_in_set [OF p] inv by (simp add: find_payment_def pay_inv_def)
  from update_payment_ok [OF inv this pay_step.event u] pays_evolve_same [OF e] show ?thesis
    using pays_evolve_trans by blast
qed

lemma dispatch_recipient_keeps:
  "dispatch_recipient p u provider db = Inr (r, c) \<Longrightarrow> pp_recipient p \<noteq> [] \<Longrightarrow>
   r = pp_recipient p \<and> c = pp_recipient_currency p"
  by (simp add: dispatch_recipient_def)

lemma claim_payroll_delivery_parts:
  assumes "claim_payroll_delivery i provider now db = Inr (db', q)"
  obtains p u r c where "find_payment i db = Some p" "pp_status p \<in> {Draft, Failed}"
    "provider \<in> set providers" "provider_or_manual p \<in> {''manual'', provider}"
    "dispatch_recipient p u provider db = Inr (r, c)" "q = claimed provider r c now p"
    "update_payment i (claimed provider r c now) db = Inr db'"
    "provider = ''paypal'' \<Longrightarrow> pp_delivery_started p = None \<or> now - days 29 \<le> the (pp_delivery_started p)"
proof -
  have pr: "provider \<in> set providers" using assms
    by (auto simp: claim_payroll_delivery_def providers_def split: if_splits)
  obtain p u where g: "get_payroll_payment i db = Some (p, u)"
    using assms by (auto simp: claim_payroll_delivery_def split: if_splits option.splits)
  then have f: "find_payment i db = Some p" by (auto simp: get_payroll_payment_def split: option.splits)
  have c: "pp_status p \<in> {Draft, Failed}" "provider_or_manual p \<in> {''manual'', provider}"
    "\<not> (provider = ''paypal'' \<and> (case pp_delivery_started p of None \<Rightarrow> False | Some t \<Rightarrow> t < now - days 29))"
    using assms g by (auto simp: claim_payroll_delivery_def split: if_splits)
  have "\<exists>r c. dispatch_recipient p u provider db = Inr (r, c) \<and> q = claimed provider r c now p \<and>
      update_payment i (claimed provider r c now) db = Inr db'"
    using assms g by (auto simp: claim_payroll_delivery_def split: if_splits sum.splits)
  with that [OF f c(1) pr c(2)] c(3) show ?thesis by (fastforce split: option.splits)
qed

lemma claim_payroll_delivery_ok:
  assumes inv: "pay_inv db" and r: "claim_payroll_delivery i provider now db = Inr (db', q)"
  shows "pay_inv db' \<and> pays_evolve db db'"
proof (rule claim_payroll_delivery_parts [OF r])
  fix p u r c assume p: "find_payment i db = Some p" "pp_status p \<in> {Draft, Failed}" "provider \<in> set providers"
    "provider_or_manual p \<in> {''manual'', provider}" "dispatch_recipient p u provider db = Inr (r, c)"
    "update_payment i (claimed provider r c now) db = Inr db'"
  from dispatch_recipient_keeps [OF p(5)] show ?thesis
    by (intro update_payment_ok [OF inv p(1) _ p(6)] pay_step.claim p(2,3,4)) auto
qed

lemma defer_ok:
  assumes inv: "pay_inv db" and r: "defer_payroll_reconciliation i reason now db = Inr db'"
  shows "pay_inv db' \<and> pays_evolve db db'"
proof -
  obtain p where p: "find_payment i db = Some p"
    using r by (auto simp: defer_payroll_reconciliation_def split: option.splits)
  show ?thesis
  proof (cases "pp_status p \<in> {Processing, Paid}")
    case True
    with r p have "update_payment i (deferred reason now) db = Inr db'"
      by (auto simp: defer_payroll_reconciliation_def)
    with update_payment_ok [OF inv p, of "deferred reason now"] pay_step.postponed [OF True] show ?thesis by blast
  next
    case False
    with r p have "db' = db" by (auto simp: defer_payroll_reconciliation_def split: if_splits)
    with inv pays_evolve_refl show ?thesis by simp
  qed
qed

lemma filter_direct_update:
  assumes "\<And>p. p \<in> set rows \<Longrightarrow> q p \<Longrightarrow> pp_provider (f p) = pp_provider p \<and> pp_reference (f p) = pp_reference p"
  shows "map (\<lambda>p. (pp_provider p, pp_reference p)) (filter direct_reference (update_where q f rows)) =
    map (\<lambda>p. (pp_provider p, pp_reference p)) (filter direct_reference rows)"
  using assms by (induction rows) (auto simp: direct_reference_def)

lemma recover_ok:
  assumes inv: "pay_inv db" and r: "recover_stale_payroll_claims provider mins now db = (db', n)"
  shows "pay_inv db' \<and> pays_evolve db db'"
proof (cases "provider \<in> {''webhook'', ''paypal'', ''wise''}")
  case False
  with r have "db' = db" by (simp add: recover_stale_payroll_claims_def)
  with inv pays_evolve_refl show ?thesis by simp
next
  case True
  let ?f = "\<lambda>p. p\<lparr>pp_status := Failed, pp_failure := ''payroll_dispatch_interrupted'', pp_updated := now\<rparr>"
  from r True have rows: "payrolls db' = update_where (stale_claim provider mins now) ?f (payrolls db)"
    by (auto simp: recover_stale_payroll_claims_def)
  show ?thesis
  proof (rule pay_rows_update [OF inv _ rows])
    show "unique_references (payrolls db')"
      unfolding rows unique_references_def by (subst filter_direct_update) (use inv in \<open>auto simp: pay_inv_def unique_references_def\<close>)
    fix p assume "p \<in> set (payrolls db)" "stale_claim provider mins now p"
    with True show "pay_step p (?f p)" by (intro pay_step.stale) (auto simp: stale_claim_def providers_def)
  qed
qed

lemma record_payroll_delivery_ok:
  assumes inv: "pay_inv db" and pr: "provider \<in> set providers"
    and r: "record_payroll_delivery i st provider ref reason now db = Inr db'"
  shows "pay_inv db' \<and> pays_evolve db db'"
proof -
  from r have st: "st \<in> {''processing'', ''paid'', ''failed'', ''reversed''}"
    by (auto simp: record_payroll_delivery_def split: if_splits)
  then have nd: "the (parse_pay_status st) \<noteq> Draft" by (auto simp: parse_pay_status_def)
  from r st obtain p where p: "find_payment i db = Some p"
    by (auto simp: record_payroll_delivery_def Let_def split: option.splits)
  define s where "s = the (parse_pay_status st)"
  have g: "pp_status p = Paid \<Longrightarrow> s \<in> {Processing, Paid, Reversed}" "pp_status p = Reversed \<Longrightarrow> s = Reversed"
    "provider_or_manual p \<in> {''manual'', provider}"
    "pp_reference p \<noteq> [] \<Longrightarrow> ref \<noteq> [] \<Longrightarrow> pp_reference p = ref"
    using r st p unfolding record_payroll_delivery_def Let_def s_def by (auto split: if_splits)
  obtain db1 where u: "update_payment i (delivered s provider ref reason now) db = Inr db1"
    and e: "payrolls db' = payrolls db1"
    using r st p unfolding record_payroll_delivery_def Let_def s_def [symmetric] by (auto split: if_splits sum.splits)
  have "pay_step p (delivered s provider ref reason now p)"
    using g nd pr by (intro pay_step.answer) (auto simp: s_def)
  from update_payment_ok [OF inv p this u] pays_evolve_same [OF e] show ?thesis
    using pays_evolve_trans by blast
qed

lemma create_payroll_parts:
  assumes "create_payroll zoneinfo u a b cur now k db = Inr (db', i)"
  obtains z us src reg ot where "find (\<lambda>x. us_id x = u) (users db) = Some us" "us_enabled us" "0 < us_pay_rate us"
    "a \<le> b" "b - a \<le> 31" "\<not> payroll_overlap u a b db" "source_timesheet us a b db = Inr src"
    "zoneinfo (og_timezone (settings db)) = Some z" "b < date_of (snd (astimezone z now))"
    "payable_minutes z u a b db = Inr (reg, ot)" "k \<notin> pp_id ` set (payrolls db)" "i = k"
    "db' = db\<lparr>payrolls := payrolls db @ [new_payment k u a b reg ot (us_pay_rate us)
       (og_overtime_multiplier (settings db)) (str_upper (strip cur)) src now]\<rparr>"
proof -
  have ab: "\<not> b < a" "\<not> 31 < b - a" and cu: "\<not> (length (str_upper (strip cur)) \<noteq> 3 \<or> \<not> isalpha (str_upper (strip cur)))"
    using assms unfolding create_payroll_def Let_def by (auto split: if_splits)
  note r1 = assms [unfolded create_payroll_def Let_def if_not_P [OF ab(1)] if_not_P [OF ab(2)] if_not_P [OF cu]]
  obtain us where us: "find (\<lambda>x. us_id x = u) (users db) = Some us"
    using r1 by (cases "find (\<lambda>x. us_id x = u) (users db)") auto
  note r2 = r1 [unfolded us option.case]
  have g: "\<not> \<not> us_enabled us" "\<not> us_pay_rate us \<le> 0" "\<not> payroll_overlap u a b db"
    using r2 by (simp_all split: if_splits)
  note r3 = r2 [unfolded if_not_P [OF g(1)] if_not_P [OF g(2)] if_not_P [OF g(3)]]
  obtain src where src: "source_timesheet us a b db = Inr src" using r3 by (cases "source_timesheet us a b db") auto
  note r4 = r3 [unfolded src sum.case]
  obtain z where z: "zoneinfo (og_timezone (settings db)) = Some z"
    using r4 by (cases "zoneinfo (og_timezone (settings db))") auto
  note r5 = r4 [unfolded z option.case]
  have d: "\<not> date_of (snd (astimezone z now)) \<le> b" using r5 by (simp split: if_splits)
  note r6 = r5 [unfolded if_not_P [OF d]]
  obtain reg ot where m: "payable_minutes z u a b db = Inr (reg, ot)"
    using r6 by (cases "payable_minutes z u a b db") auto
  note r7 = r6 [unfolded m sum.case prod.case]
  have k: "\<not> exists_row (\<lambda>p. pp_id p = k) (payrolls db)" using r7 by (simp split: if_splits)
  note r8 = r7 [unfolded if_not_P [OF k]]
  have k': "k \<notin> pp_id ` set (payrolls db)" using k by (auto simp: table_simps)
  show thesis by (rule that [OF us _ _ _ _ g(3) src z _ m k']) (use g ab d r8 in auto)
qed

lemma create_payroll_ok:
  assumes inv: "pay_inv db" and r: "create_payroll zoneinfo u a b cur now k db = Inr (db', i)"
  shows "pay_inv db' \<and> pays_evolve db db'"
proof (rule create_payroll_parts [OF r])
  fix z us src reg ot
  assume g: "a \<le> b" "b - a \<le> 31" "\<not> payroll_overlap u a b db" "k \<notin> pp_id ` set (payrolls db)"
    "db' = db\<lparr>payrolls := payrolls db @ [new_payment k u a b reg ot (us_pay_rate us)
       (og_overtime_multiplier (settings db)) (str_upper (strip cur)) src now]\<rparr>"
  let ?n = "new_payment k u a b reg ot (us_pay_rate us) (og_overtime_multiplier (settings db)) (str_upper (strip cur)) src now"
  have n: "pp_id ?n = k" "pp_user ?n = u" "pp_start ?n = a" "pp_end ?n = b" "\<not> direct_reference ?n" "payment_ok ?n"
    using g by (simp_all add: new_payment_def direct_reference_def payment_ok_def)
  have "\<forall>p \<in> set (payrolls db). pp_user p = u \<longrightarrow> pp_end p < a \<or> b < pp_start p"
    using g(3) by (auto simp: payroll_overlap_def table_simps not_le)
  with inv g n have "pay_inv db'"
    by (simp add: pay_inv_def unique_references_def sorted_wrt_append)
  moreover have "pays_evolve db db'" using g by (auto simp: pays_evolve_def intro: pay_evolves_refl)
  ultimately show ?thesis ..
qed

subsection \<open>Runs\<close>

datatype pay_op =
    Create_Payroll uuid date date string timestamp uuid
  | Set_Financial string uuid string timestamp
  | Wise_Event string string pydatetime string string timestamp
  | Set_Destination uuid string string string
  | Claim uuid string timestamp
  | Defer uuid string timestamp
  | Recover string int timestamp
  | Deliver uuid string string string string timestamp

fun pay_exec :: "(string \<Rightarrow> zone option) \<Rightarrow> pay_op \<Rightarrow> db \<Rightarrow> error + db" where
  "pay_exec zi (Create_Payroll u a b cur now k) db = map_sum (\<lambda>e. e) fst (create_payroll zi u a b cur now k db)"
| "pay_exec zi (Set_Financial table i st now) db = set_financial_status table i st now db"
| "pay_exec zi (Wise_Event t st d c x now) db = map_sum (\<lambda>e. e) fst (queue_wise_payroll_event t st d c x now db)"
| "pay_exec zi (Set_Destination u p r c) db = set_payroll_destination u p r c db"
| "pay_exec zi (Claim i p now) db = map_sum (\<lambda>e. e) fst (claim_payroll_delivery i p now db)"
| "pay_exec zi (Defer i reason now) db = defer_payroll_reconciliation i reason now db"
| "pay_exec zi (Recover p m now) db = Inr (fst (recover_stale_payroll_claims p m now db))"
| "pay_exec zi (Deliver i st p ref reason now) db = record_payroll_delivery i st p ref reason now db"

text \<open>The callers record the answers of the providers the claim knows.\<close>

definition known_provider :: "pay_op \<Rightarrow> bool" where
  "known_provider c \<longleftrightarrow> (case c of Deliver i st p ref reason now \<Rightarrow> p \<in> set providers | _ \<Rightarrow> True)"

lemma set_payroll_destination_ok:
  "pay_inv db \<Longrightarrow> set_payroll_destination u p r c db = Inr db' \<Longrightarrow> pay_inv db' \<and> pays_evolve db db'"
  using pays_evolve_same [of db' db] by (auto simp: set_payroll_destination_def Let_def split: if_splits)

lemma pay_exec_ok:
  assumes inv: "pay_inv db" and k: "known_provider c" and r: "pay_exec zi c db = Inr db'"
  shows "pay_inv db' \<and> pays_evolve db db'"
proof (cases c)
  case (Create_Payroll u a b cur now k)
  with r show ?thesis by (auto simp: map_fst_Inr dest: create_payroll_ok [OF inv])
next
  case (Recover p m now)
  with r recover_ok [OF inv, of p m now] show ?thesis by (cases "recover_stale_payroll_claims p m now db") auto
next
  case (Deliver i st p ref reason now)
  with r k show ?thesis by (auto simp: known_provider_def dest: record_payroll_delivery_ok [OF inv])
qed (use r in \<open>auto simp: map_fst_Inr dest: set_financial_status_ok [OF inv] queue_wise_payroll_event_ok [OF inv]
      set_payroll_destination_ok [OF inv] claim_payroll_delivery_ok [OF inv] defer_ok [OF inv]\<close>)

interpretation pay: transactional_order "pay_exec zi" pay_inv known_provider pays_evolve
  by unfold_locales (auto dest: pay_exec_ok intro: pays_evolve_refl pays_evolve_trans)

text \<open>C3. Over any run of payroll operations, failed ones included: a member's payments never overlap in
  time, no two payments share a reference of a direct provider, and of every payment the computation is
  fixed; once a provider manages it, so are the provider and the time of payment; a provider reference, a
  recipient, the start of delivery and a reversal stay; a reversed payment stays reversed.\<close>

theorem payroll_runs:
  assumes "pay_inv db" and "list_all known_provider cs"
  shows "pay_inv (exec_all (pay_exec zi) cs db) \<and>
    (\<forall>p \<in> set (payrolls db). \<exists>q \<in> set (payrolls (exec_all (pay_exec zi) cs db)). pay_evolves p q)"
  using pay.exec_all_inv [OF assms, of zi] pay.exec_all_rel [OF assms, of zi] by (simp add: pays_evolve_def)

text \<open>C21. A payment is generated only for an enabled member with a positive rate, for a completed period of at
  most 32 days that meets no other payment of the member, with the approved timesheet of exactly that period
  where the member needs one; it records the payable minutes as computed and starts as an undelivered draft.\<close>

theorem create_payroll_sound:
  assumes "create_payroll zi u a b cur now k db = Inr (db', i)"
  shows "\<exists>us z p. us \<in> set (users db) \<and> us_id us = u \<and> us_enabled us \<and> 0 < us_pay_rate us \<and>
    a \<le> b \<and> b \<le> a + 31 \<and> zi (og_timezone (settings db)) = Some z \<and> b < date_of (now + zn_offset z now) \<and>
    (\<forall>q \<in> set (payrolls db). pp_user q = u \<longrightarrow> pp_end q < a \<or> b < pp_start q) \<and>
    (us_require_approval us \<longrightarrow> (\<exists>s \<in> set (timesheets db). sh_user s = u \<and> sh_start s = a \<and> sh_end s = b \<and>
       sh_status s = Approved \<and> pp_timesheet p = Some (sh_id s))) \<and>
    payrolls db' = payrolls db @ [p] \<and> pp_status p = Draft \<and> pp_reference p = [] \<and>
    payable_minutes z u a b db = Inr (pp_regular p, pp_overtime p) \<and>
    pp_gross p = gross_pay (pp_regular p) (pp_overtime p) (us_pay_rate us) (og_overtime_multiplier (settings db))"
proof (rule create_payroll_parts [OF assms])
  fix z us src reg ot
  assume f: "find (\<lambda>x. us_id x = u) (users db) = Some us" and g: "us_enabled us" "0 < us_pay_rate us"
    "a \<le> b" "b - a \<le> 31" "\<not> payroll_overlap u a b db" and src: "source_timesheet us a b db = Inr src"
    and z: "zi (og_timezone (settings db)) = Some z" "b < date_of (snd (astimezone z now))"
    "payable_minutes z u a b db = Inr (reg, ot)"
    and db': "db' = db\<lparr>payrolls := payrolls db @ [new_payment k u a b reg ot (us_pay_rate us)
       (og_overtime_multiplier (settings db)) (str_upper (strip cur)) src now]\<rparr>"
  let ?p = "new_payment k u a b reg ot (us_pay_rate us) (og_overtime_multiplier (settings db)) (str_upper (strip cur)) src now"
  have us: "us \<in> set (users db)" "us_id us = u" using find_in_set [OF f] by auto
  have ts: "us_require_approval us \<longrightarrow> (\<exists>s \<in> set (timesheets db). sh_user s = u \<and> sh_start s = a \<and> sh_end s = b \<and>
       sh_status s = Approved \<and> src = Some (sh_id s))"
    using src us(2) by (auto simp: source_timesheet_def split: option.splits dest!: find_in_set)
  have no: "\<forall>q \<in> set (payrolls db). pp_user q = u \<longrightarrow> pp_end q < a \<or> b < pp_start q"
    using g(5) by (auto simp: payroll_overlap_def table_simps not_le)
  have p: "pp_timesheet ?p = src" "payrolls db' = payrolls db @ [?p]" "pp_status ?p = Draft" "pp_reference ?p = []"
    "pp_regular ?p = reg" "pp_overtime ?p = ot"
    "pp_gross ?p = gross_pay reg ot (us_pay_rate us) (og_overtime_multiplier (settings db))"
    by (simp_all add: new_payment_def db')
  show ?thesis
    by (rule exI [of _ us], rule exI [of _ z], rule exI [of _ ?p])
       (use us g(1-4) z no ts p in \<open>simp add: astimezone_def\<close>)
qed


text \<open>After each failed reconciliation the next one is later by five minutes to a day, doubling from five minutes
  (an hour for a paid payment), with at most twenty attempts counted.\<close>

theorem reconcile_backoff:
  assumes "payment_ok p"
  shows "pp_next_reconcile (deferred reason now p) = Some (now + minutes (defer_delay_minutes (pp_status p)
      (pp_attempts (deferred reason now p)))) \<and>
    5 \<le> defer_delay_minutes (pp_status p) (pp_attempts (deferred reason now p)) \<and>
    defer_delay_minutes (pp_status p) (pp_attempts (deferred reason now p)) \<le> 24 * 60 \<and>
    defer_delay_minutes (pp_status p) (pp_attempts p) \<le>
      defer_delay_minutes (pp_status p) (pp_attempts (deferred reason now p)) \<and>
    pp_attempts (deferred reason now p) = min (pp_attempts p + 1) 20 \<and> payment_ok (deferred reason now p)"
proof -
  have a: "0 \<le> pp_attempts p" "pp_attempts p \<le> 20" using assms by (simp_all add: payment_ok_def)
  have low: "5 \<le> defer_delay_minutes st n" for st n
  proof -
    have one: "1 \<le> (2::int) ^ nat (n - 1)" by simp
    have "1 \<le> k \<Longrightarrow> 5 \<le> (if st = Processing then 5 else 60) * k" for k :: int by simp
    from this [OF one] have "5 \<le> (if st = Processing then 5 else 60) * (2::int) ^ nat (n - 1)" .
    then show ?thesis unfolding defer_delay_minutes_def by (intro min.boundedI) simp_all
  qed
  have mono: "defer_delay_minutes st m \<le> defer_delay_minutes st n" if "m \<le> n" for st m n
  proof -
    have "(2::int) ^ nat (m - 1) \<le> 2 ^ nat (n - 1)" using that by (intro power_increasing) auto
    then show ?thesis unfolding defer_delay_minutes_def by (intro min.mono mult_left_mono) simp_all
  qed
  have att: "pp_attempts (deferred reason now p) = min (pp_attempts p + 1) 20" by (simp add: deferred_def Let_def)
  have "payment_ok (deferred reason now p)" using assms by (auto simp: payment_ok_def deferred_def Let_def managed_def)
  moreover have "defer_delay_minutes st n \<le> 24 * 60" for st n by (simp add: defer_delay_minutes_def)
  moreover have "pp_next_reconcile (deferred reason now p) = Some (now + minutes (defer_delay_minutes (pp_status p)
      (pp_attempts (deferred reason now p))))" by (simp add: deferred_def Let_def)
  ultimately show ?thesis using low mono [of "pp_attempts p" "min (pp_attempts p + 1) 20"] att a by auto
qed

definition sample_payroll :: db where
  "sample_payroll = empty_db\<lparr>
     users := [\<lparr>us_id = ''u'', us_email = ''u@x'', us_full_name = ''U'', us_role = Member, us_enabled = True,
       us_daily_limit = 0, us_weekly_limit = 0, us_pay_rate = 10, us_require_approval = False\<rparr>],
     sessions := [\<lparr>ws_id = ''w'', ws_user = Some ''u'', ws_device = ''d'', ws_project = Some ''p'', ws_task = None,
       ws_status = Stopped, ws_note = [], ws_started = 0, ws_ended = Some 7200000000, ws_created = 0, ws_updated = 0\<rparr>],
     segments := [\<lparr>sg_id = ''g'', sg_session = ''w'', sg_started = 0, sg_ended = Some 7200000000\<rparr>],
     payrolls := [new_payment ''old'' ''u'' 719100 719106 60 0 10 (3 / 2) ''EUR'' None 0]\<rparr>"

lemma sample_payroll_inv: "pay_inv sample_payroll"
  by (simp add: sample_payroll_def pay_inv_def unique_references_def direct_reference_def new_payment_def payment_ok_def)

definition utc_only :: "string \<Rightarrow> zone option" where
  "utc_only name = (if name = ''UTC'' then Some utc_zone else None)"

theorem payroll_runs_witness:
  "pay_inv (exec_all (pay_exec utc_only) [Claim ''old'' ''webhook'' 5, Deliver ''old'' ''paid'' ''webhook'' ''r'' [] 6]
     sample_payroll)"
proof -
  have "list_all known_provider [Claim ''old'' ''webhook'' 5, Deliver ''old'' ''paid'' ''webhook'' ''r'' [] 6]"
    by (simp add: known_provider_def providers_def)
  from payroll_runs [OF sample_payroll_inv this] show ?thesis by blast
qed


theorem reconcile_backoff_witness:
  "5 \<le> defer_delay_minutes (pp_status (new_payment ''x'' ''u'' 1 7 60 0 10 2 ''EUR'' None 0)) (pp_attempts (deferred [] 7 (new_payment ''x'' ''u'' 1 7 60 0 10 2 ''EUR'' None 0)))"
proof -
  have "payment_ok (new_payment ''x'' ''u'' 1 7 60 0 10 2 ''EUR'' None 0)"
    by (simp add: payment_ok_def new_payment_def)
  from reconcile_backoff [OF this, of "[]" 7] show ?thesis by blast
qed

theorem create_payroll_sound_witness:
  "\<exists>us. us \<in> set (users sample_payroll) \<and> us_enabled us \<and> 0 < us_pay_rate us"
proof -
  let ?r = "create_payroll utc_only ''u'' 719163 719169 ''eur'' 900000000000 ''k'' sample_payroll"
  have "\<not> isl ?r" by code_simp
  then obtain db' i where r: "?r = Inr (db', i)" by (cases ?r) auto
  from create_payroll_sound [OF r] show ?thesis by blast
qed

end
