(* ===== verification/Team_Invoices.thy ===== *)
theory Team_Invoices
  imports Money Timesheets "HOL-Library.List_Lexorder" "HOL-Library.Char_ord"
begin

section \<open>Invoices of team members\<close>

text \<open>
  \<open>api/repositories/workforce.py\<close>, \<open>create_team_invoice\<close> to \<open>void_team_invoice\<close>.  A member
  drafts an invoice by hand or from tracked time, submits it, and the administrator records
  payments until it is paid, or voids it.  Deleting an invoice deletes its lines, their time
  sources and its payments (\<open>ON DELETE CASCADE\<close>).  Text outside the 256 characters of
  \<open>string\<close> is in UTF-8.
\<close>

subsection \<open>Numbers\<close>

text \<open>\<open>f"{n:04d}"\<close> pads with zeros.\<close>

definition pad4 :: "nat \<Rightarrow> string" where
  "pad4 n = (let s = digits n in replicate (4 - length s) CHR ''0'' @ s)"

definition owner_label :: "user \<Rightarrow> string" where
  "owner_label u = (if us_full_name u \<noteq> [] then us_full_name u
     else takeWhile (\<lambda>c. c \<noteq> CHR ''@'') (us_email u))"

definition initials :: "string \<Rightarrow> string" where
  "initials label =
     (let s = take 4 (map hd (filter (\<lambda>w. w \<noteq> []) (split_words [] (str_upper label))))
      in if s = [] then ''DF'' else s)"

definition invoice_sequence :: "uuid \<Rightarrow> date \<Rightarrow> db \<Rightarrow> nat" where
  "invoice_sequence user_id issued_on db =
     Suc (rowcount (\<lambda>i. ti_user i = user_id \<and> ymd2ord (year_of issued_on) 1 1 \<le> ti_issued i
            \<and> ti_issued i < ymd2ord (year_of issued_on + 1) 1 1) (team_invoices db))"

definition invoice_number :: "user \<Rightarrow> date \<Rightarrow> nat \<Rightarrow> string" where
  "invoice_number u issued_on sequence =
     initials (owner_label u) @ ''-'' @ digits (nat (year_of issued_on)) @ ''-'' @
     str_upper (take 6 (us_id u)) @ ''-'' @ pad4 sequence"

subsection \<open>Statements\<close>

definition insert_line :: "invoice_line \<Rightarrow> db \<Rightarrow> error + db" where
  "insert_line l db =
     (if numeric_cents (il_quantity l) \<le> 0 \<or> numeric_cents (il_price l) < 0 then Inl CheckViolation
      else if exists_row (\<lambda>r. il_id r = il_id l) (invoice_lines db) then Inl UniqueViolation
      else Inr (db\<lparr>invoice_lines := invoice_lines db @
        [l\<lparr>il_quantity := numeric_cents (il_quantity l), il_price := numeric_cents (il_price l)\<rparr>]\<rparr>))"

definition insert_source :: "time_source \<Rightarrow> db \<Rightarrow> error + db" where
  "insert_source s db =
     (if so_seconds s \<le> 0 then Inl CheckViolation
      else if exists_row (\<lambda>r. so_kind r = so_kind s \<and> so_id r = so_id s) (time_sources db) then Inl UniqueViolation
      else Inr (db\<lparr>time_sources := time_sources db @ [s]\<rparr>))"

definition delete_lines :: "uuid \<Rightarrow> db \<Rightarrow> db" where
  "delete_lines invoice_id db =
     (let gone = map il_id (filter (\<lambda>l. il_invoice l = invoice_id) (invoice_lines db))
      in db\<lparr>invoice_lines := delete_where (\<lambda>l. il_invoice l = invoice_id) (invoice_lines db),
            time_sources := delete_where (\<lambda>s. so_line s \<in> set gone) (time_sources db)\<rparr>)"

definition delete_invoice :: "uuid \<Rightarrow> db \<Rightarrow> db" where
  "delete_invoice invoice_id db =
     (let db1 = delete_lines invoice_id db
      in db1\<lparr>team_invoices := delete_where (\<lambda>i. ti_id i = invoice_id) (team_invoices db1),
             invoice_payments := delete_where (\<lambda>p. ip_invoice p = invoice_id) (invoice_payments db1)\<rparr>)"

definition find_invoice :: "uuid \<Rightarrow> db \<Rightarrow> team_invoice option" where
  "find_invoice invoice_id db = find (\<lambda>i. ti_id i = invoice_id) (team_invoices db)"

definition lines_of :: "uuid \<Rightarrow> db \<Rightarrow> invoice_line list" where
  "lines_of invoice_id db = filter (\<lambda>l. il_invoice l = invoice_id) (invoice_lines db)"

definition invoice_total :: "uuid \<Rightarrow> db \<Rightarrow> rat" where
  "invoice_total invoice_id db = sum_list (map (\<lambda>l. il_quantity l * il_price l) (lines_of invoice_id db))"

subsection \<open>Drafting\<close>

definition create_team_invoice ::
  "uuid \<Rightarrow> date \<Rightarrow> date \<Rightarrow> string \<Rightarrow> rat \<Rightarrow> rat \<Rightarrow> string \<Rightarrow> string \<Rightarrow> string \<Rightarrow> timestamp \<Rightarrow> uuid \<Rightarrow> uuid \<Rightarrow>
   db \<Rightarrow> error + (db \<times> uuid)" where
  "create_team_invoice user_id issued_on due_on description quantity unit_price currency purchase_order
       notes now invoice_id line_id db =
     (if due_on < issued_on \<or> quantity \<le> 0 \<or> unit_price < 0 then
        Inl (ValueError ''Invoice dates, quantity, or rate are invalid'')
      else if strip description = [] then Inl (ValueError ''Invoice line description is required'')
      else case find (\<lambda>u. us_id u = user_id \<and> us_enabled u) (users db) of
        None \<Rightarrow> Inl (ValueError ''Invoice owner not found'')
      | Some owner \<Rightarrow>
          (let number = invoice_number owner issued_on (invoice_sequence user_id issued_on db);
               i = \<lparr>ti_id = invoice_id, ti_number = number, ti_user = user_id, ti_issued = issued_on,
                    ti_due = due_on, ti_status = Invoice_Draft, ti_currency = str_upper (take 3 currency),
                    ti_purchase_order = take 120 (strip purchase_order), ti_notes = take 1000 (strip notes),
                    ti_paid = 0, ti_submitted = None, ti_document_key = [], ti_document_version = None,
                    ti_document_sha256 = [], ti_sealed = None, ti_created = now, ti_updated = now\<rparr>
           in if exists_row (\<lambda>r. ti_id r = invoice_id \<or> ti_number r = number) (team_invoices db) then
                Inl (ValueError ''Invoice number or time source is already in use'')
              else case insert_line
                \<lparr>il_id = line_id, il_invoice = invoice_id, il_project = None,
                 il_description = take 500 (strip description), il_quantity = quantity, il_price = unit_price,
                 il_tracked = False, il_start = None, il_end = None\<rparr>
                (db\<lparr>team_invoices := team_invoices db @ [i]\<rparr>) of
                Inl UniqueViolation \<Rightarrow> Inl (ValueError ''Invoice number or time source is already in use'')
              | Inl e \<Rightarrow> Inl e
              | Inr db' \<Rightarrow> Inr (db', invoice_id)))"

text \<open>\<open>EXTRACT(EPOCH FROM d)::INTEGER\<close> rounds ties away from zero.\<close>

definition epoch_integer :: "int \<Rightarrow> int" where
  "epoch_integer us = (if 0 \<le> us then (2 * us + usec_per_second) div (2 * usec_per_second)
     else - ((- 2 * us + usec_per_second) div (2 * usec_per_second)))"

type_synonym source = "source_kind \<times> uuid \<times> uuid option \<times> int"

definition not_invoiced :: "source_kind \<Rightarrow> uuid \<Rightarrow> db \<Rightarrow> bool" where
  "not_invoiced kind i db \<longleftrightarrow> \<not> exists_row (\<lambda>s. so_kind s = kind \<and> so_id s = i) (time_sources db)"

definition uninvoiced_sources :: "uuid \<Rightarrow> date \<Rightarrow> date \<Rightarrow> uuid option \<Rightarrow> db \<Rightarrow> source list" where
  "uninvoiced_sources user_id period_start period_end project_id db =
     concat (map (\<lambda>g.
         case (sg_ended g, find (\<lambda>w. ws_id w = sg_session g) (sessions db)) of
           (Some e, Some w) \<Rightarrow>
             (if ws_user w = Some user_id \<and> period_start \<le> date_of (sg_started g)
                 \<and> date_of (sg_started g) \<le> period_end
                 \<and> (truthy project_id \<longrightarrow> ws_project w = project_id) \<and> not_invoiced Segment_Source (sg_id g) db
              then [(Segment_Source, sg_id g, ws_project w, epoch_integer (e - sg_started g))] else [])
         | _ \<Rightarrow> []) (segments db))
     @ map (\<lambda>m. (Manual_Source, me_id m, Some (me_project m), epoch_integer (me_ended m - me_started m)))
         (filter (\<lambda>m. me_user m = user_id \<and> me_status m = ''approved''
            \<and> period_start \<le> date_of (me_started m) \<and> date_of (me_started m) \<le> period_end
            \<and> (truthy project_id \<longrightarrow> Some (me_project m) = project_id) \<and> not_invoiced Manual_Source (me_id m) db)
           (manual_entries db))"

text \<open>\<open>grouped.setdefault(project, []).append(source)\<close>.\<close>

fun add_to_group :: "uuid \<Rightarrow> source \<Rightarrow> (uuid \<times> source list) list \<Rightarrow> (uuid \<times> source list) list" where
  "add_to_group p s [] = [(p, [s])]"
| "add_to_group p s ((q, ss) # gs) = (if q = p then (q, ss @ [s]) # gs else (q, ss) # add_to_group p s gs)"

fun group_sources :: "source list \<Rightarrow> (uuid \<times> source list) list \<Rightarrow> (uuid \<times> source list) list" where
  "group_sources [] groups = groups"
| "group_sources ((kind, i, project, secs) # ss) groups =
     group_sources ss (if truthy project \<and> 0 < secs
       then add_to_group (the project) (kind, i, project, secs) groups else groups)"

definition tracked_quantity :: "int \<Rightarrow> rat" where
  "tracked_quantity secs = quantize_cents (dec_div (of_int secs) 3600)"

fun insert_sources :: "uuid \<Rightarrow> source list \<Rightarrow> db \<Rightarrow> error + db" where
  "insert_sources line_id [] db = Inr db"
| "insert_sources line_id ((kind, i, project, secs) # ss) db =
     (case insert_source \<lparr>so_line = line_id, so_kind = kind, so_id = i, so_seconds = secs\<rparr> db of
        Inl e \<Rightarrow> Inl e
      | Inr db' \<Rightarrow> insert_sources line_id ss db')"

text \<open>The loop over the projects; \<open>draw n\<close> is the id drawn for the \<open>n\<close>-th line.\<close>

fun bill_groups ::
  "(nat \<Rightarrow> uuid) \<Rightarrow> nat \<Rightarrow> uuid \<Rightarrow> rat \<Rightarrow> date \<Rightarrow> date \<Rightarrow> (uuid \<times> source list) list \<Rightarrow> db \<Rightarrow> error + db" where
  "bill_groups draw n invoice_id pay_rate period_start period_end [] db = Inr db"
| "bill_groups draw n invoice_id pay_rate period_start period_end ((project, ss) # gs) db =
     (let quantity = tracked_quantity (sum_list (map (\<lambda>(_, _, _, secs). secs) ss))
      in if quantity \<le> 0 then bill_groups draw (Suc n) invoice_id pay_rate period_start period_end gs db
         else case find (\<lambda>p. pr_id p = project) (projects db) of
           None \<Rightarrow> Inl (RuntimeError ''NoneType object is not subscriptable'')
         | Some p \<Rightarrow>
             (case insert_line \<lparr>il_id = draw n, il_invoice = invoice_id, il_project = Some project,
                  il_description = ''Tracked time '' @ [CHR 0xE2, CHR 0x80, CHR 0x94] @ '' '' @ pr_name p,
                  il_quantity = quantity, il_price = pay_rate, il_tracked = True,
                  il_start = Some period_start, il_end = Some period_end\<rparr> db of
                Inl e \<Rightarrow> Inl e
              | Inr db1 \<Rightarrow>
                  (case insert_sources (draw n) ss db1 of
                     Inl e \<Rightarrow> Inl e
                   | Inr db2 \<Rightarrow> bill_groups draw (Suc n) invoice_id pay_rate period_start period_end gs db2)))"

text \<open>
  The transaction that replaces the line of the fresh invoice by one line per project.  It
  fails when another request billed a source meanwhile or nothing is left to bill.
\<close>

definition fill_invoice ::
  "(nat \<Rightarrow> uuid) \<Rightarrow> uuid \<Rightarrow> rat \<Rightarrow> date \<Rightarrow> date \<Rightarrow> (uuid \<times> source list) list \<Rightarrow> db \<Rightarrow> error + db" where
  "fill_invoice draw invoice_id pay_rate period_start period_end groups db =
     (case bill_groups draw 0 invoice_id pay_rate period_start period_end groups (delete_lines invoice_id db) of
        Inl e \<Rightarrow> Inl e
      | Inr db' \<Rightarrow>
          if lines_of invoice_id db' = [] then Inl (ValueError ''Tracked time is too short to invoice'')
          else Inr db')"

text \<open>
  The method: its result is the tables and the outcome, since a failure after the invoice was
  created has committed its creation and deletion.  Only \<open>UniqueViolation\<close> and \<open>ValueError\<close>
  are handled.
\<close>

definition create_team_invoice_from_time ::
  "uuid \<Rightarrow> date \<Rightarrow> date \<Rightarrow> date \<Rightarrow> date \<Rightarrow> uuid option \<Rightarrow> string \<Rightarrow> string \<Rightarrow> string \<Rightarrow> timestamp \<Rightarrow> uuid \<Rightarrow> uuid \<Rightarrow>
   (nat \<Rightarrow> uuid) \<Rightarrow> db \<Rightarrow> db \<times> (error + uuid)" where
  "create_team_invoice_from_time user_id issued_on due_on period_start period_end project_id currency
       purchase_order notes now invoice_id line_id draw db =
     (if period_end < period_start then (db, Inl (ValueError ''Invoice period is invalid''))
      else case find (\<lambda>u. us_id u = user_id \<and> us_enabled u) (users db) of
        None \<Rightarrow> (db, Inl (ValueError ''Invoice owner not found''))
      | Some owner \<Rightarrow>
          (let groups = group_sources (uninvoiced_sources user_id period_start period_end project_id db) []
           in if groups = [] then (db, Inl (ValueError ''No uninvoiced completed time matches this period''))
              else case create_team_invoice user_id issued_on due_on ''Tracked time'' 1 0 currency
                     purchase_order notes now invoice_id line_id db of
                Inl e \<Rightarrow> (db, Inl e)
              | Inr (db1, _) \<Rightarrow>
                  (case fill_invoice draw invoice_id (us_pay_rate owner) period_start period_end groups db1 of
                     Inr db2 \<Rightarrow> (db2, Inr invoice_id)
                   | Inl UniqueViolation \<Rightarrow>
                       (delete_invoice invoice_id db1, Inl (ValueError ''Some selected time was already invoiced''))
                   | Inl (ValueError m) \<Rightarrow> (delete_invoice invoice_id db1, Inl (ValueError m))
                   | Inl e \<Rightarrow> (db1, Inl e))))"

subsection \<open>From draft to paid\<close>

definition update_invoice :: "uuid \<Rightarrow> (team_invoice \<Rightarrow> team_invoice) \<Rightarrow> db \<Rightarrow> db" where
  "update_invoice invoice_id f db =
     db\<lparr>team_invoices := update_where (\<lambda>i. ti_id i = invoice_id) f (team_invoices db)\<rparr>"

definition submit_team_invoice :: "uuid \<Rightarrow> uuid \<Rightarrow> timestamp \<Rightarrow> db \<Rightarrow> error + db" where
  "submit_team_invoice invoice_id user_id now db =
     (case find_invoice invoice_id db of
        None \<Rightarrow> Inl (ValueError ''Draft team invoice not found'')
      | Some i \<Rightarrow>
          if ti_user i = user_id \<and> ti_status i \<in> {Invoice_Draft, Invoice_Submitted} \<and> lines_of invoice_id db \<noteq> []
          then Inr (update_invoice invoice_id
                 (\<lambda>i. i\<lparr>ti_status := Invoice_Submitted, ti_updated := now,
                        ti_submitted := (case ti_submitted i of None \<Rightarrow> Some now | Some t \<Rightarrow> Some t)\<rparr>) db)
          else Inl (ValueError ''Draft team invoice not found''))"

definition edit_manual_line :: "uuid \<Rightarrow> string \<Rightarrow> rat option \<Rightarrow> rat option \<Rightarrow> db \<Rightarrow> error + db" where
  "edit_manual_line invoice_id description quantity unit_price db =
     (if strip description = [] \<or> quantity = None \<or> the quantity \<le> 0 then
        Inl (ValueError ''Manual line description and quantity are required'')
      else if unit_price = None \<or> the unit_price < 0 then Inl (ValueError ''Manual line rate is invalid'')
      else
        let p = (\<lambda>l. il_invoice l = invoice_id \<and> \<not> il_tracked l)
        in if exists_row p (invoice_lines db) \<and> numeric_cents (the quantity) \<le> 0 then Inl CheckViolation
           else if rowcount p (invoice_lines db) \<noteq> 1 then
             Inl (ValueError ''Tracked invoice lines cannot be manually replaced'')
           else Inr (db\<lparr>invoice_lines := update_where p
                  (\<lambda>l. l\<lparr>il_description := take 500 (strip description),
                         il_quantity := numeric_cents (the quantity),
                         il_price := numeric_cents (the unit_price)\<rparr>) (invoice_lines db)\<rparr>))"

definition update_team_invoice_draft ::
  "uuid \<Rightarrow> uuid \<Rightarrow> date \<Rightarrow> date \<Rightarrow> string \<Rightarrow> string \<Rightarrow> string option \<Rightarrow> rat option \<Rightarrow> rat option \<Rightarrow> timestamp \<Rightarrow>
   db \<Rightarrow> error + db" where
  "update_team_invoice_draft invoice_id user_id issued_on due_on purchase_order notes description quantity
       unit_price now db =
     (if due_on < issued_on then Inl (ValueError ''Invoice due date cannot precede its issue date'')
      else case find_invoice invoice_id db of
        None \<Rightarrow> Inl (ValueError ''Draft team invoice not found'')
      | Some i \<Rightarrow>
          if ti_user i \<noteq> user_id \<or> ti_status i \<noteq> Invoice_Draft then
            Inl (ValueError ''Draft team invoice not found'')
          else case (case description of None \<Rightarrow> Inr db
                     | Some d \<Rightarrow> edit_manual_line invoice_id d quantity unit_price db) of
            Inl e \<Rightarrow> Inl e
          | Inr db1 \<Rightarrow> Inr (update_invoice invoice_id
              (\<lambda>i. i\<lparr>ti_issued := issued_on, ti_due := due_on, ti_purchase_order := take 120 (strip purchase_order),
                     ti_notes := take 1000 (strip notes), ti_updated := now\<rparr>) db1))"

definition delete_team_invoice_draft :: "uuid \<Rightarrow> uuid \<Rightarrow> db \<Rightarrow> error + db" where
  "delete_team_invoice_draft invoice_id user_id db =
     (case find_invoice invoice_id db of
        None \<Rightarrow> Inl (ValueError ''Draft team invoice not found'')
      | Some i \<Rightarrow>
          if ti_user i = user_id \<and> ti_status i = Invoice_Draft then Inr (delete_invoice invoice_id db)
          else Inl (ValueError ''Draft team invoice not found''))"

definition record_team_invoice_document ::
  "uuid \<Rightarrow> string \<Rightarrow> string option \<Rightarrow> string \<Rightarrow> timestamp \<Rightarrow> db \<Rightarrow> error + db" where
  "record_team_invoice_document invoice_id key version_id sha256_digest now db =
     (if rowcount (\<lambda>i. ti_id i = invoice_id) (team_invoices db) \<noteq> 1 then
        Inl (ValueError ''Team invoice not found'')
      else Inr (update_invoice invoice_id
        (\<lambda>i. i\<lparr>ti_document_key := key, ti_document_version := version_id,
               ti_document_sha256 := sha256_digest, ti_sealed := Some now\<rparr>) db))"

definition record_team_invoice_payment ::
  "uuid \<Rightarrow> rat \<Rightarrow> date \<Rightarrow> string \<Rightarrow> uuid \<Rightarrow> timestamp \<Rightarrow> uuid \<Rightarrow> db \<Rightarrow> error + (db \<times> uuid)" where
  "record_team_invoice_payment invoice_id amount paid_on reference recorder_id now payment_id db =
     (if amount \<le> 0 then Inl (ValueError ''Payment amount must be positive'')
      else case find_invoice invoice_id db of
        None \<Rightarrow> Inl (ValueError ''Payable team invoice not found'')
      | Some i \<Rightarrow>
          if ti_status i \<notin> {Invoice_Submitted, Partially_Paid} then
            Inl (ValueError ''Payable team invoice not found'')
          else
            let total = invoice_total invoice_id db;
                remaining = total - ti_paid i;
                new_paid = ti_paid i + amount
            in if remaining < amount then Inl (ValueError ''Payment exceeds the invoice balance'')
               else if numeric_cents amount \<le> 0 then Inl CheckViolation
               else if exists_row (\<lambda>p. ip_id p = payment_id) (invoice_payments db) then Inl UniqueViolation
               else
                 let db1 = db\<lparr>invoice_payments := invoice_payments db @
                       [\<lparr>ip_id = payment_id, ip_invoice = invoice_id, ip_amount = numeric_cents amount,
                         ip_paid_on = paid_on, ip_reference = take 200 (strip reference),
                         ip_recorder = recorder_id, ip_created = now\<rparr>]\<rparr>
                 in Inr (update_invoice invoice_id
                      (\<lambda>i. i\<lparr>ti_paid := numeric_cents new_paid,
                             ti_status := (if new_paid = total then Invoice_Paid else Partially_Paid),
                             ti_updated := now\<rparr>) db1, payment_id))"

definition void_team_invoice :: "uuid \<Rightarrow> timestamp \<Rightarrow> db \<Rightarrow> error + db" where
  "void_team_invoice invoice_id now db =
     (case find_invoice invoice_id db of
        None \<Rightarrow> Inl (ValueError ''Only an unpaid submitted invoice can be voided'')
      | Some i \<Rightarrow>
          if ti_status i = Invoice_Submitted \<and> ti_paid i = 0
          then Inr (update_invoice invoice_id (\<lambda>i. i\<lparr>ti_status := Invoice_Void, ti_updated := now\<rparr>) db)
          else Inl (ValueError ''Only an unpaid submitted invoice can be voided''))"

text \<open>
  The lines come by id, the payments by time.  The invoice, a line and a payment are shown with
  the names of the users and projects they refer to, which the model leaves to the reader.
\<close>

definition team_invoice_snapshot ::
  "uuid \<Rightarrow> db \<Rightarrow> (team_invoice \<times> (invoice_line \<times> rat) list \<times> invoice_payment list \<times> rat \<times> rat) option" where
  "team_invoice_snapshot invoice_id db =
     (case find_invoice invoice_id db of
        None \<Rightarrow> None
      | Some i \<Rightarrow>
          (let lines = map (\<lambda>l. (l, il_quantity l * il_price l)) (sort_key il_id (lines_of invoice_id db));
               payments = sort_key ip_created (filter (\<lambda>p. ip_invoice p = invoice_id) (invoice_payments db));
               total = sum_list (map snd lines)
           in Some (i, lines, payments, total, max 0 (total - ti_paid i))))"

subsection \<open>The ledger\<close>

definition is_cents :: "rat \<Rightarrow> bool" where
  "is_cents x \<longleftrightarrow> of_int \<lfloor>x * 100\<rfloor> = x * 100"

lemma is_cents_iff: "is_cents x \<longleftrightarrow> (\<exists>n. x = of_int n / 100)"
proof
  assume "is_cents x"
  then have "of_int \<lfloor>x * 100\<rfloor> / 100 = (x * 100) / 100" unfolding is_cents_def by (rule arg_cong)
  moreover have "(x * 100) / 100 = x" by simp
  ultimately have "x = of_int \<lfloor>x * 100\<rfloor> / 100" by metis
  then show "\<exists>n. x = of_int n / 100" ..
next
  assume "\<exists>n. x = of_int n / 100"
  then obtain n where "x * 100 = of_int n" by auto
  then show "is_cents x" unfolding is_cents_def by (metis floor_of_int)
qed

lemma is_cents_numeric: "is_cents (numeric_cents x)"
  unfolding is_cents_iff numeric_cents_def by (cases "0 \<le> x") (auto intro: exI [of _ "- n" for n] simp flip: of_int_minus)

lemma is_cents_add: "is_cents x \<Longrightarrow> is_cents y \<Longrightarrow> is_cents (x + y)"
  unfolding is_cents_iff by (metis add_divide_distrib of_int_add)

lemma numeric_cents_add:
  assumes "is_cents a" "0 \<le> a" "0 \<le> x"
  shows "numeric_cents (a + x) = a + numeric_cents x"
proof -
  obtain n where n: "a = of_int n / 100" using assms(1) by (auto simp: is_cents_iff)
  have "(a + x) * 100 + 1 / 2 = of_int n + (x * 100 + 1 / 2)" by (simp add: n algebra_simps)
  then have "\<lfloor>(a + x) * 100 + 1 / 2\<rfloor> = n + \<lfloor>x * 100 + 1 / 2\<rfloor>" by (metis floor_add_int add.commute)
  with assms show ?thesis by (simp add: numeric_cents_def n add_divide_distrib)
qed

definition paid_sum :: "uuid \<Rightarrow> invoice_payment list \<Rightarrow> rat" where
  "paid_sum k ps = sum_list (map ip_amount (filter (\<lambda>p. ip_invoice p = k) ps))"

definition payments_of :: "uuid \<Rightarrow> db \<Rightarrow> invoice_payment list" where
  "payments_of k db = filter (\<lambda>p. ip_invoice p = k) (invoice_payments db)"

definition invoice_ok :: "invoice_payment list \<Rightarrow> team_invoice \<Rightarrow> bool" where
  "invoice_ok ps i \<longleftrightarrow> ti_issued i \<le> ti_due i \<and> ti_paid i = paid_sum (ti_id i) ps \<and>
     (ti_status i \<in> {Invoice_Draft, Invoice_Submitted, Invoice_Void} \<longleftrightarrow> filter (\<lambda>p. ip_invoice p = ti_id i) ps = [])"

definition bill_inv :: "db \<Rightarrow> bool" where
  "bill_inv db \<longleftrightarrow> distinct (map ti_id (team_invoices db)) \<and> distinct (map ti_number (team_invoices db)) \<and>
     distinct (map il_id (invoice_lines db)) \<and>
     distinct (map (\<lambda>s. (so_kind s, so_id s)) (time_sources db)) \<and>
     (\<forall>l \<in> set (invoice_lines db). il_invoice l \<in> ti_id ` set (team_invoices db)) \<and>
     (\<forall>p \<in> set (invoice_payments db). ip_invoice p \<in> ti_id ` set (team_invoices db) \<and>
        0 < ip_amount p \<and> is_cents (ip_amount p)) \<and>
     (\<forall>i \<in> set (team_invoices db). invoice_ok (invoice_payments db) i)"

lemma paid_sum_cents:
  "(\<forall>p \<in> set ps. 0 < ip_amount p \<and> is_cents (ip_amount p)) \<Longrightarrow> 0 \<le> paid_sum k ps \<and> is_cents (paid_sum k ps)"
  by (induction ps) (auto simp: paid_sum_def is_cents_add, simp add: is_cents_def)

lemma paid_sum_none: "filter (\<lambda>p. ip_invoice p = k) ps = [] \<Longrightarrow> paid_sum k ps = 0"
  by (simp add: paid_sum_def)

text \<open>The order of the statuses of an invoice that was submitted.\<close>

inductive status_before :: "invoice_status \<Rightarrow> invoice_status \<Rightarrow> bool" where
  same: "status_before s s"
| part: "status_before Invoice_Submitted Partially_Paid"
| paid: "status_before Invoice_Submitted Invoice_Paid"
| rest: "status_before Partially_Paid Invoice_Paid"
| void: "status_before Invoice_Submitted Invoice_Void"

inductive_simps status_before_simps [simp]:
  "status_before Invoice_Paid s" "status_before Invoice_Void s" "status_before Partially_Paid s"
  "status_before Invoice_Submitted s"

lemma status_before_trans: "status_before s t \<Longrightarrow> status_before t u \<Longrightarrow> status_before s u"
  by (cases s) (auto elim: status_before.cases intro: status_before.intros)

text \<open>What an invoice that is no draft keeps.\<close>

definition later_invoice :: "team_invoice \<Rightarrow> team_invoice \<Rightarrow> bool" where
  "later_invoice i j \<longleftrightarrow> ti_id j = ti_id i \<and> ti_number j = ti_number i \<and> ti_user j = ti_user i \<and>
     ti_issued j = ti_issued i \<and> ti_due j = ti_due i \<and> ti_currency j = ti_currency i \<and>
     ti_notes j = ti_notes i \<and> status_before (ti_status i) (ti_status j) \<and> ti_paid i \<le> ti_paid j"

definition bills_kept :: "db \<Rightarrow> db \<Rightarrow> bool" where
  "bills_kept db db' \<longleftrightarrow> (\<forall>i \<in> set (team_invoices db). ti_status i \<noteq> Invoice_Draft \<longrightarrow>
     (\<exists>j \<in> set (team_invoices db'). later_invoice i j) \<and> lines_of (ti_id i) db' = lines_of (ti_id i) db \<and>
     (\<exists>ps. payments_of (ti_id i) db' = payments_of (ti_id i) db @ ps))"

lemma later_invoice_refl: "later_invoice i i"
  by (simp add: later_invoice_def status_before.same)

lemma later_invoice_trans: "later_invoice i j \<Longrightarrow> later_invoice j k \<Longrightarrow> later_invoice i k"
  unfolding later_invoice_def by (auto intro: status_before_trans)

lemma later_not_draft: "later_invoice i j \<Longrightarrow> ti_status i \<noteq> Invoice_Draft \<Longrightarrow> ti_status j \<noteq> Invoice_Draft"
  by (auto simp: later_invoice_def elim: status_before.cases)

lemma bills_kept_refl: "bills_kept db db"
  by (auto simp: bills_kept_def intro: later_invoice_refl)

lemma bills_kept_trans:
  assumes 1: "bills_kept db db1" and 2: "bills_kept db1 db2"
  shows "bills_kept db db2"
  unfolding bills_kept_def
proof (intro ballI impI)
  fix i assume i: "i \<in> set (team_invoices db)" "ti_status i \<noteq> Invoice_Draft"
  with 1 obtain j where j: "j \<in> set (team_invoices db1)" "later_invoice i j"
    and l: "lines_of (ti_id i) db1 = lines_of (ti_id i) db"
    and p: "\<exists>ps. payments_of (ti_id i) db1 = payments_of (ti_id i) db @ ps"
    unfolding bills_kept_def by blast
  have e: "ti_id j = ti_id i" using j(2) by (simp add: later_invoice_def)
  from 2 j(1) later_not_draft [OF j(2) i(2)] obtain k where k: "k \<in> set (team_invoices db2)" "later_invoice j k"
    and l2: "lines_of (ti_id i) db2 = lines_of (ti_id i) db1"
    and p2: "\<exists>ps. payments_of (ti_id i) db2 = payments_of (ti_id i) db1 @ ps"
    unfolding bills_kept_def e [symmetric] by blast
  from p p2 have "\<exists>ps. payments_of (ti_id i) db2 = payments_of (ti_id i) db @ ps" by auto
  with k j l l2 later_invoice_trans show "(\<exists>j \<in> set (team_invoices db2). later_invoice i j) \<and>
      lines_of (ti_id i) db2 = lines_of (ti_id i) db \<and> (\<exists>ps. payments_of (ti_id i) db2 = payments_of (ti_id i) db @ ps)"
    by metis
qed


lemma find_invoice_only:
  assumes "bill_inv db" "find_invoice k db = Some i" "j \<in> set (team_invoices db)" "ti_id j = k"
  shows "j = i"
  using assms find_in_set [of "\<lambda>i. ti_id i = k" "team_invoices db" i]
    distinct_key_eq [of ti_id "team_invoices db" j i]
  by (simp add: bill_inv_def find_invoice_def)

lemma find_invoice_in: "find_invoice k db = Some i \<Longrightarrow> i \<in> set (team_invoices db) \<and> ti_id i = k"
  unfolding find_invoice_def by (drule find_in_set)

text \<open>An update of one invoice that leaves lines alone.\<close>

lemma update_invoice_ok:
  assumes inv: "bill_inv db" and i: "find_invoice k db = Some i"
    and f: "ti_id (f i) = k" "ti_number (f i) = ti_number i"
    and ok: "invoice_ok (invoice_payments db1) (f i)" and later: "ti_status i \<noteq> Invoice_Draft \<longrightarrow> later_invoice i (f i)"
    and db1: "team_invoices db1 = team_invoices db" "invoice_lines db1 = invoice_lines db" "time_sources db1 = time_sources db"
    and pay: "invoice_payments db1 = invoice_payments db @ ps"
    and ps: "\<forall>p \<in> set ps. ip_invoice p = k \<and> 0 < ip_amount p \<and> is_cents (ip_amount p)"
  shows "bill_inv (update_invoice k f db1) \<and> bills_kept db (update_invoice k f db1)"
proof -
  note only = find_invoice_only [OF inv i]
  note in_t = find_invoice_in [OF i]
  let ?rows = "update_where (\<lambda>i. ti_id i = k) f (team_invoices db)"
  have rows: "team_invoices (update_invoice k f db1) = ?rows" by (simp add: update_invoice_def db1)
  have same: "map ti_id ?rows = map ti_id (team_invoices db)" "map ti_number ?rows = map ti_number (team_invoices db)"
    using only f by (intro map_update_where; force)+
  have ids: "ti_id ` set ?rows = ti_id ` set (team_invoices db)" using arg_cong [OF same(1), of set] by simp
  have oks: "invoice_ok (invoice_payments db1) j" if "j \<in> set ?rows" for j
  proof -
    from that obtain j' where j': "j' \<in> set (team_invoices db)" "j = (if ti_id j' = k then f j' else j')"
      by (auto simp: table_simps)
    show ?thesis
    proof (cases "ti_id j' = k")
      case True
      with only [OF j'(1)] j'(2) ok show ?thesis by simp
    next
      case False
      have "filter (\<lambda>p. ip_invoice p = ti_id j') ps = []" using ps False by (auto simp: filter_empty_conv)
      moreover have "invoice_ok (invoice_payments db) j'" using inv j'(1) by (simp add: bill_inv_def)
      ultimately show ?thesis using False j'(2) by (simp add: invoice_ok_def paid_sum_def pay)
    qed
  qed
  have "ip_invoice p \<in> ti_id ` set (team_invoices db)" if "p \<in> set ps" for p using that ps in_t by auto
  with inv oks ps have "bill_inv (update_invoice k f db1)"
    unfolding bill_inv_def rows ids same by (auto simp: update_invoice_def db1 pay)
  moreover have "bills_kept db (update_invoice k f db1)"
    unfolding bills_kept_def
  proof (intro ballI impI conjI)
    fix j assume j: "j \<in> set (team_invoices db)" "ti_status j \<noteq> Invoice_Draft"
    show "lines_of (ti_id j) (update_invoice k f db1) = lines_of (ti_id j) db"
      by (simp add: lines_of_def update_invoice_def db1)
    show "\<exists>ps. payments_of (ti_id j) (update_invoice k f db1) = payments_of (ti_id j) db @ ps"
      by (simp add: payments_of_def update_invoice_def pay)
    show "\<exists>j' \<in> set (team_invoices (update_invoice k f db1)). later_invoice j j'"
    proof (cases "ti_id j = k")
      case True
      with only [OF j(1)] j(2) later j(1) show ?thesis unfolding rows
        by (intro bexI [of _ "f i"]) (auto simp: table_simps)
    next
      case False
      with j(1) show ?thesis unfolding rows
        by (intro bexI [of _ j]) (auto simp: table_simps later_invoice_refl)
    qed
  qed
  ultimately show ?thesis ..
qed

subsection \<open>Drafting keeps the ledger\<close>

text \<open>Adding a line of a draft, and its sources.\<close>

definition drafting :: "uuid \<Rightarrow> db \<Rightarrow> db \<Rightarrow> bool" where
  "drafting k db db' \<longleftrightarrow> team_invoices db' = team_invoices db \<and> invoice_payments db' = invoice_payments db \<and>
     (\<forall>j. j \<noteq> k \<longrightarrow> lines_of j db' = lines_of j db)"

lemma drafting_refl: "drafting k db db" by (simp add: drafting_def)

lemma drafting_trans: "drafting k db db1 \<Longrightarrow> drafting k db1 db2 \<Longrightarrow> drafting k db db2"
  by (simp add: drafting_def)

lemma drafting_kept:
  assumes "drafting k db db'" and "\<forall>i \<in> set (team_invoices db). ti_id i = k \<longrightarrow> ti_status i = Invoice_Draft"
  shows "bills_kept db db'"
  using assms by (auto simp: drafting_def bills_kept_def payments_of_def intro: later_invoice_refl)

lemma insert_line_ok:
  assumes inv: "bill_inv db" and k: "il_invoice l \<in> ti_id ` set (team_invoices db)" and r: "insert_line l db = Inr db'"
  shows "bill_inv db' \<and> drafting (il_invoice l) db db'"
proof -
  have "il_id l \<notin> il_id ` set (invoice_lines db)" using r by (auto simp: insert_line_def exists_row_def list_ex_iff split: if_splits)
  with assms show ?thesis by (auto simp: insert_line_def bill_inv_def drafting_def lines_of_def split: if_splits)
qed

lemma insert_sources_ok:
  "bill_inv db \<Longrightarrow> insert_sources i ss db = Inr db' \<Longrightarrow> bill_inv db' \<and> drafting k db db'"
proof (induction i ss db rule: insert_sources.induct)
  case (1 i db)
  then show ?case by (simp add: drafting_refl)
next
  case (2 i kind s project secs ss db)
  from 2(3) obtain db1 where i: "insert_source \<lparr>so_line = i, so_kind = kind, so_id = s, so_seconds = secs\<rparr> db = Inr db1"
    and rest: "insert_sources i ss db1 = Inr db'" by (auto split: sum.splits)
  have "(kind, s) \<notin> (\<lambda>s. (so_kind s, so_id s)) ` set (time_sources db)"
    using i by (auto simp: insert_source_def table_simps split: if_splits)
  then have "bill_inv db1 \<and> drafting k db db1"
    using i 2(2) by (auto simp: insert_source_def bill_inv_def drafting_def lines_of_def split: if_splits)
  with 2(1) [OF i _ rest] show ?case using drafting_trans by blast
qed

lemma bill_groups_ok:
  "bill_inv db \<Longrightarrow> k \<in> ti_id ` set (team_invoices db) \<Longrightarrow> bill_groups draw n k rate a b gs db = Inr db' \<Longrightarrow>
   bill_inv db' \<and> drafting k db db'"
proof (induction draw n k rate a b gs db rule: bill_groups.induct)
  case (1 draw n k rate a b db)
  then show ?case by (simp add: drafting_refl)
next
  case (2 draw n k rate a b project ss gs db)
  define q where "q = tracked_quantity (sum_list (map (\<lambda>(_, _, _, secs). secs) ss))"
  show ?case
  proof (cases "q \<le> 0")
    case True
    with 2(5) have "bill_groups draw (Suc n) k rate a b gs db = Inr db'" by (simp add: q_def Let_def)
    with 2(1) [OF q_def True 2(3,4)] show ?thesis by blast
  next
    case False
    with 2(5) obtain p l db1 db2 where p: "find (\<lambda>p. pr_id p = project) (projects db) = Some p"
      and l: "insert_line l db = Inr db1" "il_invoice l = k"
      and l': "l = \<lparr>il_id = draw n, il_invoice = k, il_project = Some project,
                  il_description = ''Tracked time '' @ [CHR 0xE2, CHR 0x80, CHR 0x94] @ '' '' @ pr_name p,
                  il_quantity = q, il_price = rate, il_tracked = True, il_start = Some a, il_end = Some b\<rparr>"
      and s: "insert_sources (draw n) ss db1 = Inr db2" and rest: "bill_groups draw (Suc n) k rate a b gs db2 = Inr db'"
      by (auto simp: q_def Let_def split: option.splits sum.splits)
    have i1: "bill_inv db1 \<and> drafting k db db1" using insert_line_ok [OF 2(3) _ l(1)] l(2) 2(4) by simp
    have i2: "bill_inv db2 \<and> drafting k db1 db2" using insert_sources_ok [OF _ s] i1 by blast
    have d2: "drafting k db db2" using i1 i2 drafting_trans by blast
    have "k \<in> ti_id ` set (team_invoices db2)" using 2(4) d2 by (simp add: drafting_def)
    with 2(2) [OF q_def False p l(1) [unfolded l'] s _ _ rest] i2 d2 drafting_trans show ?thesis by blast
  qed
qed

lemma delete_lines_ok:
  assumes "bill_inv db"
  shows "bill_inv (delete_lines k db) \<and> drafting k db (delete_lines k db)"
  using assms
  by (auto simp: delete_lines_def Let_def bill_inv_def drafting_def lines_of_def delete_where_def distinct_map_filter
      intro!: filter_cong)

lemma fill_invoice_ok:
  assumes inv: "bill_inv db" and k: "k \<in> ti_id ` set (team_invoices db)" and r: "fill_invoice draw k rate a b gs db = Inr db'"
  shows "bill_inv db' \<and> drafting k db db'"
proof -
  note d = delete_lines_ok [OF inv, of k]
  from r have "bill_groups draw 0 k rate a b gs (delete_lines k db) = Inr db'"
    by (auto simp: fill_invoice_def split: sum.splits if_splits)
  moreover have "k \<in> ti_id ` set (team_invoices (delete_lines k db))" using k d by (simp add: drafting_def)
  ultimately show ?thesis using bill_groups_ok d drafting_trans by blast
qed

lemma delete_invoice_ok:
  assumes inv: "bill_inv db" and k: "\<forall>i \<in> set (team_invoices db). ti_id i = k \<longrightarrow> ti_status i = Invoice_Draft"
  shows "bill_inv (delete_invoice k db) \<and> bills_kept db (delete_invoice k db)"
proof -
  have e: "team_invoices (delete_invoice k db) = filter (\<lambda>i. ti_id i \<noteq> k) (team_invoices db)"
    "invoice_payments (delete_invoice k db) = filter (\<lambda>p. ip_invoice p \<noteq> k) (invoice_payments db)"
    "invoice_lines (delete_invoice k db) = filter (\<lambda>l. il_invoice l \<noteq> k) (invoice_lines db)"
    and s: "distinct (map (\<lambda>s. (so_kind s, so_id s)) (time_sources (delete_invoice k db)))"
    using inv by (simp_all add: delete_invoice_def delete_lines_def Let_def delete_where_def bill_inv_def distinct_map_filter)
  have f: "filter (\<lambda>p. ip_invoice p = j) (filter (\<lambda>p. ip_invoice p \<noteq> k) ps) = filter (\<lambda>p. ip_invoice p = j) ps"
    if "j \<noteq> k" for j ps using that by (auto intro: filter_cong)
  have ok: "invoice_ok (invoice_payments (delete_invoice k db)) i = invoice_ok (invoice_payments db) i" if "ti_id i \<noteq> k" for i
    unfolding invoice_ok_def paid_sum_def e f [OF that] ..
  have "bill_inv (delete_invoice k db)"
    using inv s ok unfolding bill_inv_def e by (auto simp: distinct_map_filter)
  moreover have "bills_kept db (delete_invoice k db)"
    unfolding bills_kept_def
  proof (intro ballI impI conjI)
    fix i assume i: "i \<in> set (team_invoices db)" "ti_status i \<noteq> Invoice_Draft"
    with k have ne: "ti_id i \<noteq> k" by blast
    with i(1) show "\<exists>j \<in> set (team_invoices (delete_invoice k db)). later_invoice i j"
      by (intro bexI [of _ i]) (auto simp: e later_invoice_refl)
    show "lines_of (ti_id i) (delete_invoice k db) = lines_of (ti_id i) db"
      using ne by (auto simp: lines_of_def e intro: filter_cong)
    show "\<exists>ps. payments_of (ti_id i) (delete_invoice k db) = payments_of (ti_id i) db @ ps"
      unfolding payments_of_def e f [OF ne] by simp
  qed
  ultimately show ?thesis ..
qed

text \<open>A new draft.\<close>

lemma create_team_invoice_ok:
  assumes inv: "bill_inv db" and r: "create_team_invoice u a b d q pr cur po no now k l db = Inr (db', i)"
  shows "bill_inv db' \<and> bills_kept db db' \<and> k \<notin> ti_id ` set (team_invoices db) \<and>
    k \<in> ti_id ` set (team_invoices db') \<and> (\<forall>i \<in> set (team_invoices db'). ti_id i = k \<longrightarrow> ti_status i = Invoice_Draft)"
proof -
  have ab: "a \<le> b" using r by (auto simp: create_team_invoice_def split: if_splits)
  obtain t ln where t: "ti_id t = k" "ti_issued t = a" "ti_due t = b" "ti_paid t = 0" "ti_status t = Invoice_Draft"
    and new: "\<not> exists_row (\<lambda>r. ti_id r = k \<or> ti_number r = ti_number t) (team_invoices db)"
    and ln: "insert_line ln (db\<lparr>team_invoices := team_invoices db @ [t]\<rparr>) = Inr db'" "il_invoice ln = k"
  proof -
    obtain us where us: "find (\<lambda>x. us_id x = u \<and> us_enabled x) (users db) = Some us"
      using r by (auto simp: create_team_invoice_def split: if_splits option.splits)
    let ?n = "invoice_number us a (invoice_sequence u a db)"
    let ?t = "\<lparr>ti_id = k, ti_number = ?n, ti_user = u, ti_issued = a, ti_due = b, ti_status = Invoice_Draft,
       ti_currency = str_upper (take 3 cur), ti_purchase_order = take 120 (strip po), ti_notes = take 1000 (strip no),
       ti_paid = 0, ti_submitted = None, ti_document_key = [], ti_document_version = None,
       ti_document_sha256 = [], ti_sealed = None, ti_created = now, ti_updated = now\<rparr>"
    let ?l = "\<lparr>il_id = l, il_invoice = k, il_project = None, il_description = take 500 (strip d), il_quantity = q,
       il_price = pr, il_tracked = False, il_start = None, il_end = None\<rparr>"
    have "\<not> exists_row (\<lambda>r. ti_id r = k \<or> ti_number r = ?n) (team_invoices db)"
      using r us by (simp add: create_team_invoice_def Let_def split: if_splits)
    moreover have "insert_line ?l (db\<lparr>team_invoices := team_invoices db @ [?t]\<rparr>) = Inr db'"
      using r us by (simp add: create_team_invoice_def Let_def split: if_splits sum.splits error.splits)
    ultimately show thesis using that [of ?t ?l] by simp
  qed
  let ?db = "db\<lparr>team_invoices := team_invoices db @ [t]\<rparr>"
  have fresh: "k \<notin> ti_id ` set (team_invoices db)" "ti_number t \<notin> ti_number ` set (team_invoices db)"
    using new by (auto simp: table_simps)
  have none: "filter (\<lambda>p. ip_invoice p = k) (invoice_payments db) = []"
    using inv fresh by (auto simp: filter_empty_conv bill_inv_def)
  have tok: "invoice_ok (invoice_payments db) t"
    using none ab t by (simp add: invoice_ok_def paid_sum_def)
  have inv1: "bill_inv ?db" using inv fresh t tok by (auto simp: bill_inv_def)
  have noline: "lines_of j ?db = lines_of j db" for j by (simp add: lines_of_def)
  have i2: "bill_inv db' \<and> drafting k ?db db'" using insert_line_ok [OF inv1 _ ln(1)] ln(2) t by simp
  have "bills_kept db db'"
    unfolding bills_kept_def
  proof (intro ballI impI conjI)
    fix i assume i: "i \<in> set (team_invoices db)" "ti_status i \<noteq> Invoice_Draft"
    with fresh have ne: "ti_id i \<noteq> k" by auto
    show "\<exists>j \<in> set (team_invoices db'). later_invoice i j" using i2 i later_invoice_refl by (auto simp: drafting_def)
    show "lines_of (ti_id i) db' = lines_of (ti_id i) db" using i2 ne noline by (simp add: drafting_def)
    show "\<exists>ps. payments_of (ti_id i) db' = payments_of (ti_id i) db @ ps" using i2 by (simp add: drafting_def payments_of_def)
  qed
  moreover have "\<forall>i \<in> set (team_invoices db). ti_id i \<noteq> k" using fresh by blast
  ultimately show ?thesis using i2 fresh(1) t by (simp add: drafting_def)
qed

lemma from_time_ok:
  assumes inv: "bill_inv db"
    and r: "create_team_invoice_from_time u a b s e p cur po no now k l draw db = (db', out)"
  shows "bill_inv db' \<and> bills_kept db db'"
proof (cases "db' = db")
  case True
  with inv bills_kept_refl show ?thesis by simp
next
  case False
  obtain us where us: "find (\<lambda>x. us_id x = u \<and> us_enabled x) (users db) = Some us"
    using r False by (auto simp: create_team_invoice_from_time_def split: if_splits option.splits)
  define gs where "gs = group_sources (uninvoiced_sources u s e p db) []"
  obtain db1 i where c: "create_team_invoice u a b ''Tracked time'' 1 0 cur po no now k l db = Inr (db1, i)"
    and d: "db' = db1 \<or> db' = delete_invoice k db1 \<or> fill_invoice draw k (us_pay_rate us) s e gs db1 = Inr db'"
  proof (cases "create_team_invoice u a b ''Tracked time'' 1 0 cur po no now k l db")
    case (Inl er)
    with r False us show thesis by (auto simp: create_team_invoice_from_time_def Let_def split: if_splits)
  next
    case (Inr x)
    obtain db1 i where x: "x = (db1, i)" by (cases x)
    have "create_team_invoice_from_time u a b s e p cur po no now k l draw db =
      (case fill_invoice draw k (us_pay_rate us) s e gs db1 of
         Inr db2 \<Rightarrow> (db2, Inr k)
       | Inl UniqueViolation \<Rightarrow> (delete_invoice k db1, Inl (ValueError ''Some selected time was already invoiced''))
       | Inl (ValueError m) \<Rightarrow> (delete_invoice k db1, Inl (ValueError m))
       | Inl e \<Rightarrow> (db1, Inl e))"
      using r False us Inr x by (simp add: create_team_invoice_from_time_def Let_def gs_def split: if_splits)
    with r have "db' = db1 \<or> db' = delete_invoice k db1 \<or> fill_invoice draw k (us_pay_rate us) s e gs db1 = Inr db'"
      by (auto split: sum.splits error.splits)
    with Inr x that show thesis by simp
  qed
  note k = create_team_invoice_ok [OF inv c]
  have "bill_inv db' \<and> bills_kept db1 db'"
    using d
  proof (elim disjE)
    assume "db' = db1" with k bills_kept_refl show ?thesis by simp
  next
    assume "db' = delete_invoice k db1" with k delete_invoice_ok show ?thesis by blast
  next
    assume "fill_invoice draw k (us_pay_rate us) s e gs db1 = Inr db'"
    with k fill_invoice_ok drafting_kept show ?thesis by blast
  qed
  with k bills_kept_trans show ?thesis by blast
qed

subsection \<open>The life of an invoice keeps the ledger\<close>

lemma submit_ok:
  assumes inv: "bill_inv db" and r: "submit_team_invoice k u now db = Inr db'"
  shows "bill_inv db' \<and> bills_kept db db'"
proof -
  let ?f = "\<lambda>i. i\<lparr>ti_status := Invoice_Submitted, ti_updated := now,
      ti_submitted := (case ti_submitted i of None \<Rightarrow> Some now | Some t \<Rightarrow> Some t)\<rparr>"
  from r obtain i where i: "find_invoice k db = Some i" "ti_status i \<in> {Invoice_Draft, Invoice_Submitted}"
    and db': "db' = update_invoice k ?f db"
    by (auto simp: submit_team_invoice_def split: option.splits if_splits)
  from find_invoice_in [OF i(1)] inv i(2) have "invoice_ok (invoice_payments db) (?f i)"
    by (auto simp: bill_inv_def invoice_ok_def)
  moreover have "ti_status i \<noteq> Invoice_Draft \<longrightarrow> later_invoice i (?f i)" using i(2) by (auto simp: later_invoice_def)
  ultimately show ?thesis unfolding db'
    using update_invoice_ok [OF inv i(1), of ?f db "[]"] find_invoice_in [OF i(1)] by simp
qed

lemma edit_manual_line_ok:
  assumes "bill_inv db" and "edit_manual_line k d q p db = Inr db'"
  shows "bill_inv db' \<and> drafting k db db'"
proof -
  let ?f = "\<lambda>l. l\<lparr>il_description := take 500 (strip d), il_quantity := numeric_cents (the q), il_price := numeric_cents (the p)\<rparr>"
  let ?p = "\<lambda>l. il_invoice l = k \<and> \<not> il_tracked l"
  have db': "db' = db\<lparr>invoice_lines := update_where ?p ?f (invoice_lines db)\<rparr>"
    using assms(2) by (auto simp: edit_manual_line_def Let_def split: if_splits)
  let ?ls = "update_where ?p ?f (invoice_lines db)"
  have ids: "map il_id ?ls = map il_id (invoice_lines db)" by (auto intro: map_update_where)
  have "\<forall>l \<in> set ?ls. il_invoice l \<in> il_invoice ` set (invoice_lines db)" by (auto simp: table_simps)
  then have refs: "\<forall>l \<in> set ?ls. il_invoice l \<in> ti_id ` set (team_invoices db)"
    using assms(1) by (auto simp only: bill_inv_def image_iff Ball_def)
  have kept: "lines_of j db' = lines_of j db" if "j \<noteq> k" for j
  proof -
    have "filter (\<lambda>l. il_invoice l = j) (update_where ?p ?f ls) = filter (\<lambda>l. il_invoice l = j) ls" for ls
      using that by (induction ls) (auto simp: update_where_def)
    then show ?thesis by (simp add: lines_of_def db')
  qed
  have "bill_inv db'" using assms(1) ids refs by (simp add: bill_inv_def db')
  moreover have "drafting k db db'" using kept by (simp add: drafting_def db')
  ultimately show ?thesis ..
qed

lemma update_draft_ok:
  assumes inv: "bill_inv db" and r: "update_team_invoice_draft k u a b po no d q p now db = Inr db'"
  shows "bill_inv db' \<and> bills_kept db db'"
proof -
  let ?f = "\<lambda>i. i\<lparr>ti_issued := a, ti_due := b, ti_purchase_order := take 120 (strip po),
      ti_notes := take 1000 (strip no), ti_updated := now\<rparr>"
  from r obtain i db1 where ab: "a \<le> b" and i: "find_invoice k db = Some i" "ti_status i = Invoice_Draft"
    and e: "(case d of None \<Rightarrow> Inr db | Some d \<Rightarrow> edit_manual_line k d q p db) = Inr db1"
    and db': "db' = update_invoice k ?f db1"
    by (auto simp: update_team_invoice_draft_def split: option.splits if_splits sum.splits)
  have 1: "bill_inv db1 \<and> drafting k db db1"
    using e inv edit_manual_line_ok drafting_refl by (cases d) auto
  then have i1: "find_invoice k db1 = Some i" using i(1) by (simp add: drafting_def find_invoice_def)
  have ok: "invoice_ok (invoice_payments db1) (?f i)"
    using 1 find_invoice_in [OF i1] ab by (auto simp: bill_inv_def invoice_ok_def)
  have "bill_inv db' \<and> bills_kept db1 db'" unfolding db'
    using update_invoice_ok [OF conjunct1 [OF 1] i1, of ?f db1 "[]"] find_invoice_in [OF i1] ok i(2) by simp
  moreover have "bills_kept db db1"
    using drafting_kept [OF conjunct2 [OF 1]] find_invoice_only [OF inv i(1)] i(2) by blast
  ultimately show ?thesis using bills_kept_trans by blast
qed

lemma delete_draft_ok:
  assumes inv: "bill_inv db" and r: "delete_team_invoice_draft k u db = Inr db'"
  shows "bill_inv db' \<and> bills_kept db db'"
proof -
  from r obtain i where i: "find_invoice k db = Some i" "ti_status i = Invoice_Draft" "db' = delete_invoice k db"
    by (auto simp: delete_team_invoice_draft_def split: option.splits if_splits)
  with delete_invoice_ok [OF inv] find_invoice_only [OF inv i(1)] show ?thesis by blast
qed

lemma document_ok:
  assumes inv: "bill_inv db" and r: "record_team_invoice_document k key v h now db = Inr db'"
  shows "bill_inv db' \<and> bills_kept db db'"
proof -
  let ?f = "\<lambda>i. i\<lparr>ti_document_key := key, ti_document_version := v, ti_document_sha256 := h, ti_sealed := Some now\<rparr>"
  from r have n: "rowcount (\<lambda>i. ti_id i = k) (team_invoices db) = 1" and db': "db' = update_invoice k ?f db"
    by (auto simp: record_team_invoice_document_def split: if_splits)
  obtain i where i: "find_invoice k db = Some i"
  proof (cases "find_invoice k db")
    case None
    then have "rowcount (\<lambda>i. ti_id i = k) (team_invoices db) = 0"
      by (auto simp: find_invoice_def find_None_iff rowcount_def filter_empty_conv)
    with n show thesis by simp
  qed (use that in blast)
  have "invoice_ok (invoice_payments db) (?f i)" using inv find_invoice_in [OF i] by (auto simp: bill_inv_def invoice_ok_def)
  moreover have "later_invoice i (?f i)" by (simp add: later_invoice_def status_before.same)
  ultimately show ?thesis unfolding db'
    using update_invoice_ok [OF inv i, of ?f db "[]"] find_invoice_in [OF i] by simp
qed

lemma void_ok:
  assumes inv: "bill_inv db" and r: "void_team_invoice k now db = Inr db'"
  shows "bill_inv db' \<and> bills_kept db db'"
proof -
  let ?f = "\<lambda>i. i\<lparr>ti_status := Invoice_Void, ti_updated := now\<rparr>"
  from r obtain i where i: "find_invoice k db = Some i" "ti_status i = Invoice_Submitted" and db': "db' = update_invoice k ?f db"
    by (auto simp: void_team_invoice_def split: option.splits if_splits)
  have "invoice_ok (invoice_payments db) (?f i)" using inv find_invoice_in [OF i(1)] i(2) by (auto simp: bill_inv_def invoice_ok_def)
  moreover have "later_invoice i (?f i)" by (simp add: later_invoice_def i(2))
  ultimately show ?thesis unfolding db'
    using update_invoice_ok [OF inv i(1), of ?f db "[]"] find_invoice_in [OF i(1)] by simp
qed

text \<open>What a payment does.\<close>

abbreviation (input) paid_update :: "rat \<Rightarrow> rat \<Rightarrow> timestamp \<Rightarrow> team_invoice \<Rightarrow> team_invoice" where
  "paid_update new_paid due now \<equiv> (\<lambda>i. i\<lparr>ti_paid := numeric_cents new_paid,
     ti_status := (if new_paid = due then Invoice_Paid else Partially_Paid), ti_updated := now\<rparr>)"

lemma payment_parts:
  assumes r: "record_team_invoice_payment k amount on ref who now pid db = Inr (db', i')"
  obtains i p where "0 < amount" "find_invoice k db = Some i" "ti_status i \<in> {Invoice_Submitted, Partially_Paid}"
    "ti_paid i + amount \<le> invoice_total k db" "0 < ip_amount p" "ip_amount p = numeric_cents amount" "ip_invoice p = k"
    "db' = update_invoice k (paid_update (ti_paid i + amount) (invoice_total k db) now)
      (db\<lparr>invoice_payments := invoice_payments db @ [p]\<rparr>)"
proof -
  from r obtain i where i: "\<not> amount \<le> 0" "find_invoice k db = Some i" "\<not> ti_status i \<notin> {Invoice_Submitted, Partially_Paid}"
    by (auto simp: record_team_invoice_payment_def split: if_splits option.splits)
  note r1 = r [unfolded record_team_invoice_payment_def Let_def i(2) option.case if_not_P [OF i(1)] if_not_P [OF i(3)]]
  have f: "\<not> invoice_total k db - ti_paid i < amount" "\<not> numeric_cents amount \<le> 0"
    "\<not> exists_row (\<lambda>p. ip_id p = pid) (invoice_payments db)"
    using r1 by (simp_all split: if_splits)
  note r2 = r1 [unfolded if_not_P [OF f(1)] if_not_P [OF f(2)] if_not_P [OF f(3)]]
  let ?p = "\<lparr>ip_id = pid, ip_invoice = k, ip_amount = numeric_cents amount, ip_paid_on = on,
    ip_reference = take 200 (strip ref), ip_recorder = who, ip_created = now\<rparr>"
  show thesis
  proof (rule that)
    show "db' = update_invoice k (paid_update (ti_paid i + amount) (invoice_total k db) now)
        (db\<lparr>invoice_payments := invoice_payments db @ [?p]\<rparr>)"
      using r2 [unfolded sum.inject prod.inject, THEN conjunct1] by (rule sym)
  qed (use i f in simp_all)
qed

lemma payment_ok:
  assumes inv: "bill_inv db" and r: "record_team_invoice_payment k amount on ref who now pid db = Inr (db', i')"
  shows "bill_inv db' \<and> bills_kept db db'"
proof -
  from r obtain i p where i: "0 < amount" "find_invoice k db = Some i" "ti_status i \<in> {Invoice_Submitted, Partially_Paid}"
    and p: "0 < ip_amount p" "ip_amount p = numeric_cents amount" "ip_invoice p = k"
    and db': "db' = update_invoice k (paid_update (ti_paid i + amount) (invoice_total k db) now)
      (db\<lparr>invoice_payments := invoice_payments db @ [p]\<rparr>)" by (rule payment_parts)
  let ?f = "paid_update (ti_paid i + amount) (invoice_total k db) now"
  let ?db = "db\<lparr>invoice_payments := invoice_payments db @ [p]\<rparr>"
  have ok: "invoice_ok (invoice_payments db) i" and k: "ti_id i = k"
    using inv find_invoice_in [OF i(2)] by (auto simp: bill_inv_def)
  have "0 \<le> ti_paid i \<and> is_cents (ti_paid i)" using paid_sum_cents [of "invoice_payments db" k] inv ok k
    by (simp add: bill_inv_def invoice_ok_def)
  then have new: "numeric_cents (ti_paid i + amount) = ti_paid i + ip_amount p"
    using numeric_cents_add i(1) p(2) by simp
  have "paid_sum k (invoice_payments db @ [p]) = ti_paid i + ip_amount p"
    using ok k p by (simp add: invoice_ok_def paid_sum_def)
  then have "invoice_ok (invoice_payments ?db) (?f i)"
    using ok p(3) unfolding invoice_ok_def new by (simp add: k)
  moreover have "later_invoice i (?f i)" using i(3) p(1) by (auto simp: later_invoice_def new)
  ultimately show ?thesis unfolding db'
    using update_invoice_ok [OF inv i(2), of ?f ?db "[p]"] p is_cents_numeric k by simp
qed

subsection \<open>Runs\<close>

datatype bill_op =
    Create_Invoice uuid date date string rat rat string string string timestamp uuid uuid
  | Create_From_Time uuid date date date date "uuid option" string string string timestamp uuid uuid "nat \<Rightarrow> uuid"
  | Submit_Invoice uuid uuid timestamp
  | Edit_Draft uuid uuid date date string string "string option" "rat option" "rat option" timestamp
  | Delete_Draft uuid uuid
  | Seal_Document uuid string "string option" string timestamp
  | Pay_Invoice uuid rat date string uuid timestamp uuid
  | Void_Invoice uuid timestamp

text \<open>What a statement leaves behind; drafting from time commits even when it answers an error.\<close>

fun bill_exec :: "bill_op \<Rightarrow> db \<Rightarrow> error + db" where
  "bill_exec (Create_Invoice u a b d q p cur po no now k l) db = map_sum (\<lambda>e. e) fst (create_team_invoice u a b d q p cur po no now k l db)"
| "bill_exec (Create_From_Time u a b s e p cur po no now k l draw) db =
     Inr (fst (create_team_invoice_from_time u a b s e p cur po no now k l draw db))"
| "bill_exec (Submit_Invoice k u now) db = submit_team_invoice k u now db"
| "bill_exec (Edit_Draft k u a b po no d q p now) db = update_team_invoice_draft k u a b po no d q p now db"
| "bill_exec (Delete_Draft k u) db = delete_team_invoice_draft k u db"
| "bill_exec (Seal_Document k key v h now) db = record_team_invoice_document k key v h now db"
| "bill_exec (Pay_Invoice k x on ref who now pid) db = map_sum (\<lambda>e. e) fst (record_team_invoice_payment k x on ref who now pid db)"
| "bill_exec (Void_Invoice k now) db = void_team_invoice k now db"

lemma bill_exec_ok:
  assumes inv: "bill_inv db" and r: "bill_exec c db = Inr db'"
  shows "bill_inv db' \<and> bills_kept db db'"
proof (cases c)
  case (Create_Invoice u a b d q p cur po no now k l)
  from r obtain i where "create_team_invoice u a b d q p cur po no now k l db = Inr (db', i)"
    unfolding Create_Invoice bill_exec.simps map_fst_Inr by (rule exE)
  from create_team_invoice_ok [OF inv this] show ?thesis by blast
next
  case (Create_From_Time u a b s e p cur po no now k l draw)
  with r have "db' = fst (create_team_invoice_from_time u a b s e p cur po no now k l draw db)"
    by (simp only: bill_exec.simps sum.inject)
  then show ?thesis using from_time_ok [OF inv surjective_pairing] by (simp only:)
next
  case (Pay_Invoice k x on ref who now pid)
  from r obtain i where "record_team_invoice_payment k x on ref who now pid db = Inr (db', i)"
    unfolding Pay_Invoice bill_exec.simps map_fst_Inr by (rule exE)
  from payment_ok [OF inv this] show ?thesis .
next
  case Submit_Invoice
  show ?thesis by (rule submit_ok [OF inv r [unfolded Submit_Invoice bill_exec.simps]])
next
  case Edit_Draft
  show ?thesis by (rule update_draft_ok [OF inv r [unfolded Edit_Draft bill_exec.simps]])
next
  case Delete_Draft
  show ?thesis by (rule delete_draft_ok [OF inv r [unfolded Delete_Draft bill_exec.simps]])
next
  case Seal_Document
  show ?thesis by (rule document_ok [OF inv r [unfolded Seal_Document bill_exec.simps]])
next
  case Void_Invoice
  show ?thesis by (rule void_ok [OF inv r [unfolded Void_Invoice bill_exec.simps]])
qed

interpretation billing: transactional_order bill_exec bill_inv "\<lambda>_. True" bills_kept
  proof unfold_locales
  show "bill_inv t" if "bill_inv s" "bill_exec c s = Inr t" for s c t using bill_exec_ok [OF that] ..
  show "bills_kept s t" if "bill_inv s" "bill_exec c s = Inr t" for s c t using bill_exec_ok [OF that] ..
qed (rule bills_kept_refl, rule bills_kept_trans)

subsection \<open>Properties\<close>

text \<open>C4. Whatever sequence of requests runs, the ledger stays sound: numbers are unique, no
  tracked segment or manual entry is billed twice, what an invoice has been paid is the sum of its
  payments, and drafts and void invoices have none.  An invoice that has left the draft state keeps
  its number, owner, dates, currency and lines, only gains payments, and its status only
  advances.\<close>

theorem billing_runs:
  assumes "bill_inv db"
  shows "bill_inv (exec_all bill_exec cs db) \<and> bills_kept db (exec_all bill_exec cs db)"
  using billing.exec_all_inv [OF assms, of cs] billing.exec_all_rel [OF assms, of cs]
  by (simp add: list_all_iff)

lemma numeric_cents_mono: "0 \<le> x \<Longrightarrow> x \<le> y \<Longrightarrow> numeric_cents x \<le> numeric_cents y"
  by (auto simp: numeric_cents_def intro!: divide_right_mono of_int_le_iff [THEN iffD2] floor_mono)

lemma sum_list_map_insort: "sum_list (map f (insort_key g x xs)) = f x + sum_list (map f xs)"
  for f :: "'a \<Rightarrow> rat"
  by (induction xs) auto

lemma sum_list_map_sort: "sum_list (map f (sort_key g xs)) = sum_list (map f xs)"
  for f :: "'a \<Rightarrow> rat"
  by (induction xs) (simp_all add: sum_list_map_insort)

lemma find_update_invoice:
  assumes "find_invoice k db = Some i" and "ti_id (f i) = k" and "team_invoices db1 = team_invoices db"
  shows "find_invoice k (update_invoice k f db1) = Some (f i)"
proof -
  have "find (\<lambda>i. ti_id i = k) rows = Some i \<Longrightarrow> find (\<lambda>i. ti_id i = k) (update_where (\<lambda>i. ti_id i = k) f rows) = Some (f i)" for rows
    using assms(2) by (induction rows) (auto simp: update_where_def split: if_splits)
  with assms show ?thesis by (simp add: find_invoice_def update_invoice_def)
qed

text \<open>C23. A payment that is accepted never takes an invoice above its total: what was paid grows by
  the amount in cents, stays within the total in cents, and the invoice becomes paid exactly when
  the amount is the whole balance.  The snapshot then shows the same lines and the new balance.\<close>

theorem payment_settles:
  assumes inv: "bill_inv db" and r: "record_team_invoice_payment k amount on ref who now pid db = Inr (db', i')"
  shows "\<exists>i j ls ps. find_invoice k db = Some i \<and>
    team_invoice_snapshot k db' = Some (j, ls, ps, invoice_total k db, max 0 (invoice_total k db - ti_paid j)) \<and>
    ti_paid j = ti_paid i + numeric_cents amount \<and> ti_paid j \<le> numeric_cents (invoice_total k db) \<and>
    ti_status j = (if amount = invoice_total k db - ti_paid i then Invoice_Paid else Partially_Paid) \<and>
    sum_list (map ip_amount ps) = ti_paid j"
proof -
  from r obtain i p where i: "0 < amount" "find_invoice k db = Some i" "ti_status i \<in> {Invoice_Submitted, Partially_Paid}"
    "ti_paid i + amount \<le> invoice_total k db"
    and p: "0 < ip_amount p" "ip_amount p = numeric_cents amount" "ip_invoice p = k"
    and db': "db' = update_invoice k (paid_update (ti_paid i + amount) (invoice_total k db) now)
      (db\<lparr>invoice_payments := invoice_payments db @ [p]\<rparr>)" by (rule payment_parts)
  let ?j = "paid_update (ti_paid i + amount) (invoice_total k db) now i"
  have ok: "invoice_ok (invoice_payments db) i" and k: "ti_id i = k"
    using inv find_invoice_in [OF i(2)] by (auto simp: bill_inv_def)
  have cents: "0 \<le> ti_paid i \<and> is_cents (ti_paid i)"
    using paid_sum_cents [of "invoice_payments db" k] inv ok k by (simp add: bill_inv_def invoice_ok_def)
  then have paid: "numeric_cents (ti_paid i + amount) = ti_paid i + numeric_cents amount" using numeric_cents_add i(1) by simp
  have le: "numeric_cents (ti_paid i + amount) \<le> numeric_cents (invoice_total k db)"
    using cents i by (intro numeric_cents_mono) auto
  have find: "find_invoice k db' = Some ?j" unfolding db' by (rule find_update_invoice [OF i(2)]) (simp_all add: k)
  have lines: "lines_of k db' = lines_of k db" by (simp add: db' lines_of_def update_invoice_def)
  have sum: "sum_list (map ip_amount (filter (\<lambda>p. ip_invoice p = k) (invoice_payments db'))) = ti_paid i + numeric_cents amount"
    using ok k p by (simp add: db' update_invoice_def invoice_ok_def paid_sum_def)
  show ?thesis
    by (rule exI [of _ i], rule exI [of _ ?j]) (use i(2) find lines paid le sum in \<open>auto simp: team_invoice_snapshot_def invoice_total_def sum_list_map_sort comp_def Let_def\<close>)
qed








subsection \<open>Examples\<close>

definition sample_billing :: db where
  "sample_billing = empty_db\<lparr>
     users := [\<lparr>us_id = ''u'', us_email = ''u@x'', us_full_name = ''Una Vee'', us_role = Member, us_enabled = True,
       us_daily_limit = 0, us_weekly_limit = 0, us_pay_rate = 20, us_require_approval = False\<rparr>],
     projects := [\<lparr>pr_id = ''p'', pr_name = ''Site'', pr_enabled = True\<rparr>],
     sessions := [\<lparr>ws_id = ''w'', ws_user = Some ''u'', ws_device = ''d'', ws_project = Some ''p'', ws_task = None,
       ws_status = Stopped, ws_note = [], ws_started = 0, ws_ended = Some 5400000000, ws_created = 0, ws_updated = 0\<rparr>],
     segments := [\<lparr>sg_id = ''g'', sg_session = ''w'', sg_started = 0, sg_ended = Some 5400000000\<rparr>]\<rparr>"

lemma sample_billing_inv: "bill_inv sample_billing"
  by (simp add: bill_inv_def sample_billing_def empty_db_def)

text \<open>
  The number of an invoice counts the invoices left in the year: after a draft that is not the last
  one is deleted, the next number is taken and nothing more can be drafted.
\<close>

lemma deleted_draft_blocks_numbers:
  "isl (bill_exec (Create_Invoice ''u'' 719163 719170 ''x'' 1 5 ''EUR'' [] [] 3 ''k3'' ''l3'')
     (exec_all bill_exec
       [Create_Invoice ''u'' 719163 719170 ''x'' 1 5 ''EUR'' [] [] 1 ''k1'' ''l1'',
        Create_Invoice ''u'' 719163 719170 ''x'' 1 5 ''EUR'' [] [] 2 ''k2'' ''l2'', Delete_Draft ''k1'' ''u''] sample_billing))"
  by code_simp

theorem billing_runs_witness:
  "bill_inv (exec_all bill_exec [Create_From_Time ''u'' 719163 719170 719163 719163 None ''EUR'' [] [] 1 ''k'' ''l'' (\<lambda>_. ''t''),
     Submit_Invoice ''k'' ''u'' 2, Pay_Invoice ''k'' 10 719164 [] ''u'' 3 ''q''] sample_billing)"
  using billing_runs [OF sample_billing_inv] by blast

definition billed :: db where
  "billed = exec_all bill_exec [Create_From_Time ''u'' 719163 719170 719163 719163 None ''EUR'' [] [] 1 ''k'' ''l'' (\<lambda>_. ''t''),
     Submit_Invoice ''k'' ''u'' 2] sample_billing"

lemma billed_inv: "bill_inv billed"
  unfolding billed_def by (rule billing.exec_all_inv [OF sample_billing_inv]) (simp add: list_all_iff del: bill_exec.simps)

theorem payment_settles_witness:
  "\<exists>j ls ps. team_invoice_snapshot ''k'' (fst (projr (record_team_invoice_payment ''k'' 30 719164 [] ''u'' 3 ''q'' billed))) =
     Some (j, ls, ps, invoice_total ''k'' billed, max 0 (invoice_total ''k'' billed - ti_paid j)) \<and>
     ti_paid j \<le> numeric_cents (invoice_total ''k'' billed)"
proof -
  let ?r = "record_team_invoice_payment ''k'' 30 719164 [] ''u'' 3 ''q'' billed"
  have "\<not> isl ?r" by code_simp
  then obtain db' i where r: "?r = Inr (db', i)" by (cases ?r) auto
  from payment_settles [OF billed_inv r] r show ?thesis by auto
qed


end
