(* ===== verification/Sealing.thy ===== *)
theory Sealing
  imports Prelude "HOL-Library.Char_ord" "HOL-Library.List_Lexorder"
begin

section \<open>Sealed text and files\<close>

text \<open>
  \<open>agent/queue.py\<close>, \<open>_seal_bytes\<close>, \<open>_open_bytes\<close>, \<open>_seal_text\<close> and \<open>_open_text\<close>, with what they use
  of Python: UTF-8, the URL-safe Base64 of \<open>base64\<close> and \<open>json.dumps\<close>.  Bytes are a \<open>string\<close>, one
  character per byte; text has code points below 256.  AES-GCM is the package \<open>cryptography\<close>, a
  parameter: a pair of functions of which the code relies on \<open>aead_law\<close>.
\<close>

type_synonym bytes = string

subsection \<open>UTF-8\<close>

definition utf8_char :: "char \<Rightarrow> bytes" where
  "utf8_char c = (if code c < 128 then [c] else [char_of (192 + code c div 64), char_of (128 + code c mod 64)])"

definition utf8_encode :: "string \<Rightarrow> bytes" where "utf8_encode s = concat (map utf8_char s)"

text \<open>\<open>None\<close> is a \<open>UnicodeDecodeError\<close>, or a code point the model has no character for.\<close>

fun utf8_decode :: "bytes \<Rightarrow> string option" where
  "utf8_decode [] = Some []"
| "utf8_decode (b # bs) =
     (if code b < 128 then map_option (Cons b) (utf8_decode bs)
      else if 194 \<le> code b \<and> code b < 196 then
        (case bs of
           [] \<Rightarrow> None
         | b' # bs' \<Rightarrow>
             if 128 \<le> code b' \<and> code b' < 192
             then map_option (Cons (char_of ((code b - 192) * 64 + (code b' - 128)))) (utf8_decode bs')
             else None)
      else None)"

lemma code_lt [simp]: "code c < 256"
  unfolding code_def by (metis nat_of_char_less_256)

lemma char_of_code [simp]: "char_of (code c) = c"
  by (simp add: code_def)

lemma code_char_of [simp]: "n < 256 \<Longrightarrow> code (char_of n) = n"
  by (simp add: code_def)

lemma utf8_roundtrip: "utf8_decode (utf8_encode s) = Some s"
proof (induction s)
  case (Cons c s)
  show ?case
  proof (cases "code c < 128")
    case False
    have q: "code c div 64 < 4" using code_lt [of c] by (simp add: less_mult_imp_div_less)
    have "1 < code c div 64" using False div_le_mono [of 128 "code c" 64] by simp
    moreover have "code c mod 64 < 64" by simp
    ultimately show ?thesis using Cons False q by (simp add: utf8_encode_def utf8_char_def)
  qed (use Cons in \<open>simp add: utf8_encode_def utf8_char_def\<close>)
qed (simp add: utf8_encode_def)

subsection \<open>Base64\<close>

definition b64_char :: "nat \<Rightarrow> char" where
  "b64_char n = (if n < 26 then char_of (65 + n) else if n < 52 then char_of (71 + n)
     else if n < 62 then char_of (n - 4) else if n = 62 then CHR ''-'' else CHR ''_'')"

text \<open>The two characters of either alphabet are read, since \<open>-_\<close> are translated to \<open>+/\<close> first.\<close>

definition b64_value :: "char \<Rightarrow> nat option" where
  "b64_value c = (let n = code c in
     if 65 \<le> n \<and> n \<le> 90 then Some (n - 65) else if 97 \<le> n \<and> n \<le> 122 then Some (n - 71)
     else if 48 \<le> n \<and> n \<le> 57 then Some (n + 4) else if n = 43 \<or> n = 45 then Some 62
     else if n = 47 \<or> n = 95 then Some 63 else None)"

fun b64_encode :: "bytes \<Rightarrow> string" where
  "b64_encode [] = []"
| "b64_encode [a] = [b64_char (code a div 4), b64_char (code a mod 4 * 16), CHR ''='', CHR ''='']"
| "b64_encode [a, b] = [b64_char (code a div 4), b64_char (code a mod 4 * 16 + code b div 16),
     b64_char (code b mod 16 * 4), CHR ''='']"
| "b64_encode (a # b # c # bs) = b64_char (code a div 4) # b64_char (code a mod 4 * 16 + code b div 16) #
     b64_char (code b mod 16 * 4 + code c div 64) # b64_char (code c mod 64) # b64_encode bs"

text \<open>
  Decoding skips what is in no alphabet and stops at the padding that completes a group; \<open>quad\<close>
  characters of the group are read, \<open>left\<close> holds their bits that are not written yet.  \<open>None\<close> is
  \<open>binascii.Error\<close>, which is a \<open>ValueError\<close>.
\<close>

fun b64_go :: "string \<Rightarrow> nat \<Rightarrow> nat \<Rightarrow> nat \<Rightarrow> bytes option" where
  "b64_go [] quad left pads = (if quad = 0 then Some [] else None)"
| "b64_go (c # cs) quad left pads =
     (if c = CHR ''='' then
        (if quad < 2 then b64_go cs quad left pads
         else if 4 \<le> quad + Suc pads then Some [] else b64_go cs quad left (Suc pads))
      else case b64_value c of
        None \<Rightarrow> b64_go cs quad left pads
      | Some v \<Rightarrow>
          if quad = 0 then b64_go cs 1 v 0
          else if quad = 1 then map_option (Cons (char_of (left * 4 + v div 16))) (b64_go cs 2 (v mod 16) 0)
          else if quad = 2 then map_option (Cons (char_of (left * 16 + v div 4))) (b64_go cs 3 (v mod 4) 0)
          else map_option (Cons (char_of (left * 64 + v))) (b64_go cs 0 0 0))"

definition b64_decode :: "string \<Rightarrow> bytes option" where
  "b64_decode s = (if list_all (\<lambda>c. code c < 128) s then b64_go s 0 0 0 else None)"

lemma b64_value_char [simp]: "n < 64 \<Longrightarrow> b64_value (b64_char n) = Some n"
  by (auto simp: b64_value_def b64_char_def Let_def code_def)

lemma b64_char_no_pad [simp]: "n < 64 \<Longrightarrow> b64_char n \<noteq> CHR ''=''"
  using b64_value_char [of n] by (auto simp: b64_value_def code_def)

lemma code_div [simp]: "code c div 4 < 64" "code c div 16 < 16" "code c div 64 < 4"
  using code_lt [of c] by (simp_all add: less_mult_imp_div_less)

lemma sextets [simp]:
  "code a mod 4 * 16 < 64" "code a mod 4 * 16 + code b div 16 < 64" "code b mod 16 * 4 < 64"
  "code b mod 16 * 4 + code c div 64 < 64"
  using mod_less_divisor [of 4 "code a"] mod_less_divisor [of 16 "code b"] code_div [of b] code_div [of c]
  by linarith+

lemma b64_char_ascii [simp]: "n < 64 \<Longrightarrow> code (b64_char n) < 128"
  by (auto simp: b64_char_def code_def)

lemma b64_encode_ascii: "list_all (\<lambda>c. code c < 128) (b64_encode bs)"
  by (induction bs rule: b64_encode.induct) (simp_all add: code_def [of "CHR ''=''"])

lemma b64_roundtrip: "b64_decode (b64_encode bs) = Some bs"
  unfolding b64_decode_def if_P [OF b64_encode_ascii] by (induction bs rule: b64_encode.induct) simp_all

subsection \<open>JSON\<close>

text \<open>Values of \<open>json\<close> without floating point numbers; the keys of an object are distinct.\<close>

datatype json = JNull | JInt int | JBool bool | JString string | JList "json list" | JObject "(string \<times> json) list"

definition hex_digit :: "nat \<Rightarrow> char" where
  "hex_digit n = (if n < 10 then char_of (48 + n) else char_of (87 + n))"

definition json_char :: "char \<Rightarrow> string" where
  "json_char c = (let n = code c in
     if n = 34 \<or> n = 92 then [CHR 92, c]
     else if n = 10 then [CHR 92, CHR ''n''] else if n = 13 then [CHR 92, CHR ''r''] else if n = 9 then [CHR 92, CHR ''t'']
     else if n = 12 then [CHR 92, CHR ''f''] else if n = 8 then [CHR 92, CHR ''b'']
     else if 32 \<le> n \<and> n < 127 then [c]
     else [CHR 92, CHR ''u'', CHR ''0'', CHR ''0'', hex_digit (n div 16), hex_digit (n mod 16)])"

definition json_string :: "string \<Rightarrow> string" where
  "json_string s = CHR 34 # concat (map json_char s) @ [CHR 34]"

fun join_with :: "char \<Rightarrow> string list \<Rightarrow> string" where
  "join_with c [] = []"
| "join_with c [w] = w"
| "join_with c (w # ws) = w @ c # join_with c ws"

text \<open>\<open>json.dumps(value, sort_keys=True, separators=(",", ":"))\<close>.\<close>

fun json_dumps :: "json \<Rightarrow> string" and json_items :: "json list \<Rightarrow> string list"
  and json_members :: "(string \<times> json) list \<Rightarrow> (string \<times> string) list" where
  "json_dumps (JInt i) = (if i < 0 then CHR ''-'' # digits (nat (- i)) else digits (nat i))"
| "json_dumps JNull = ''null''"
| "json_dumps (JList vs) = CHR ''['' # join_with CHR '','' (json_items vs) @ '']''"
| "json_items [] = []"
| "json_items (v # vs) = json_dumps v # json_items vs"
| "json_dumps (JBool b) = (if b then ''true'' else ''false'')"
| "json_dumps (JString s) = json_string s"
| "json_dumps (JObject kvs) = CHR 123 # join_with CHR '','' (map (\<lambda>(k, t). json_string k @ CHR '':'' # t)
     (sort_key fst (json_members kvs))) @ [CHR 125]"
| "json_members [] = []"
| "json_members ((k, v) # kvs) = (k, json_dumps v) # json_members kvs"

subsection \<open>Sealing\<close>

record aead =
  ae_encrypt :: "bytes \<Rightarrow> bytes \<Rightarrow> bytes \<Rightarrow> bytes"
  ae_decrypt :: "bytes \<Rightarrow> bytes \<Rightarrow> bytes \<Rightarrow> bytes option"

text \<open>Documented behaviour of \<open>AESGCM\<close>: it decrypts what it encrypted, which is 16 bytes longer.\<close>

definition aead_law :: "aead \<Rightarrow> bool" where
  "aead_law A \<longleftrightarrow> (\<forall>n v a. ae_decrypt A n (ae_encrypt A n v a) a = Some v \<and>
     length (ae_encrypt A n v a) = length v + 16)"

definition queue_magic :: bytes where "queue_magic = ''DFQ1''"

definition text_prefix :: string where "text_prefix = ''dfenc1:''"

datatype open_error = Bad_Format | Invalid_Tag

text \<open>\<open>nonce\<close> is what \<open>os.urandom(12)\<close> draws.\<close>

definition seal_bytes :: "aead \<Rightarrow> bytes \<Rightarrow> bytes \<Rightarrow> bytes \<Rightarrow> bytes" where
  "seal_bytes A nonce v aad = queue_magic @ nonce @ ae_encrypt A nonce v aad"

definition open_bytes :: "aead \<Rightarrow> bytes \<Rightarrow> bytes \<Rightarrow> open_error + bytes" where
  "open_bytes A v aad =
     (if take (length queue_magic) v \<noteq> queue_magic \<or> length v < length queue_magic + 13 then Inl Bad_Format
      else let offset = length queue_magic
           in case ae_decrypt A (take 12 (drop offset v)) (drop (offset + 12) v) aad of
                None \<Rightarrow> Inl Invalid_Tag
              | Some p \<Rightarrow> Inr p)"

definition field_aad :: "string \<Rightarrow> string \<Rightarrow> bytes" where
  "field_aad record_id field = utf8_encode (record_id @ CHR '':'' # field)"

definition seal_text :: "aead \<Rightarrow> bytes \<Rightarrow> string \<Rightarrow> string \<Rightarrow> string \<Rightarrow> string" where
  "seal_text A nonce v record_id field =
     (if v = [] then [] else text_prefix @ b64_encode (seal_bytes A nonce (utf8_encode v) (field_aad record_id field)))"

definition is_sealed :: "string \<Rightarrow> bool" where
  "is_sealed v \<longleftrightarrow> take (length text_prefix) v = text_prefix"

definition open_text :: "aead \<Rightarrow> string \<Rightarrow> string \<Rightarrow> string \<Rightarrow> error + string" where
  "open_text A v record_id field =
     (if v = [] \<or> \<not> is_sealed v then Inr v
      else let failed = Inl (ValueError ''offline queue metadata authentication failed'')
           in case b64_decode (drop (length text_prefix) v) of
                None \<Rightarrow> failed
              | Some encrypted \<Rightarrow>
                  (case open_bytes A encrypted (field_aad record_id field) of
                     Inl _ \<Rightarrow> failed
                   | Inr p \<Rightarrow> (case utf8_decode p of None \<Rightarrow> failed | Some t \<Rightarrow> Inr t)))"

lemma open_seal_bytes:
  assumes "aead_law A" and "length nonce = 12"
  shows "open_bytes A (seal_bytes A nonce v aad) aad = Inr v"
proof -
  have l: "ae_decrypt A nonce (ae_encrypt A nonce v aad) aad = Some v" "length (ae_encrypt A nonce v aad) = length v + 16"
    using assms(1) by (simp_all add: aead_law_def)
  have m: "length queue_magic = 4" by (simp add: queue_magic_def)
  show ?thesis using l assms(2) unfolding open_bytes_def seal_bytes_def Let_def by (simp add: m)
qed

lemma is_sealed_seal: "v \<noteq> [] \<Longrightarrow> is_sealed (seal_text A nonce v record_id field)"
  by (simp add: is_sealed_def seal_text_def)

lemma open_sealed:
  assumes "aead_law A" and "length nonce = 12"
  shows "open_text A (seal_text A nonce v record_id field) record_id field = Inr v"
proof (cases "v = []")
  case False
  let ?s = "seal_text A nonce v record_id field"
  have "drop (length text_prefix) ?s = b64_encode (seal_bytes A nonce (utf8_encode v) (field_aad record_id field))"
    using False by (simp add: seal_text_def)
  moreover have "?s \<noteq> []" using False by (simp add: seal_text_def text_prefix_def)
  ultimately show ?thesis
    using is_sealed_seal [OF False] by (simp add: open_text_def b64_roundtrip open_seal_bytes [OF assms] utf8_roundtrip)
qed (simp add: seal_text_def open_text_def)

text \<open>C31. Text that was sealed for a field of a record opens to the same text, whatever its
  characters, when the nonce has twelve bytes.\<close>

theorem seal_text_roundtrip:
  assumes "aead_law A" and "length nonce = 12"
  shows "open_text A (seal_text A nonce v record_id field) record_id field = Inr v"
  by (rule open_sealed [OF assms])

text \<open>A cipher that only adds a tag, to evaluate the model.\<close>

definition plain_aead :: aead where
  "plain_aead = \<lparr>ae_encrypt = \<lambda>n v a. v @ replicate 16 CHR ''.'', ae_decrypt = \<lambda>n c a. Some (take (length c - 16) c)\<rparr>"

lemma plain_aead_law: "aead_law plain_aead"
  by (simp add: aead_law_def plain_aead_def)

theorem seal_text_roundtrip_witness:
  "open_text plain_aead (seal_text plain_aead (replicate 12 CHR ''n'') ''http://a'' ''r'' ''active_url'') ''r'' ''active_url'' = Inr ''http://a''"
  using seal_text_roundtrip [OF plain_aead_law, of "replicate 12 CHR ''n''"] by simp

end
