(* ===== verification/Offline_Queue.thy ===== *)
theory Offline_Queue
  imports Sealing "HOL-Library.Product_Lexorder"
begin

section \<open>The encrypted queue of the desktop agent\<close>

text \<open>
  \<open>agent/queue.py\<close>.  The state of an \<open>OfflineQueue\<close> is its SQLite tables, the files below its
  directory and the cached counters.  Times are the texts the code stores and SQLite sorts.  What
  the code draws at random (record ids, nonces) and reads from the clock is an argument.  A table
  is in the order of insertion, which stable sorting keeps between equal keys.
\<close>

record activity_snapshot =
  an_keys :: int
  an_clicks :: int
  an_distance :: int
  an_focused :: int
  an_interactive :: int
  an_automation :: bool

record queued_record =
  qr_id :: string
  qr_captured :: string
  qr_keys :: int
  qr_clicks :: int
  qr_distance :: int
  qr_focused :: int
  qr_interactive :: int
  qr_session :: string
  qr_app :: string
  qr_path :: string
  qr_url :: string
  qr_automation :: bool
  qr_blurred :: bool

record queue_row = queued_record +
  qr_created :: string

record journal_event =
  je_id :: string
  je_observed :: string
  je_status :: string
  je_task :: string
  je_project :: string
  je_note :: string
  je_idle :: int
  je_interval :: int
  je_transition :: bool

record journal_row = journal_event +
  je_created :: string

record usage_event =
  ue_id :: string
  ue_observed :: string
  ue_app :: string
  ue_url :: string
  ue_focused :: int

record usage_row = usage_event +
  ue_created :: string

record local_row =
  lr_key :: string
  lr_value :: string
  lr_updated :: string

record offline_queue =
  oq_dir :: string
  oq_max :: int
  oq_files :: "(string \<times> bytes) list"
  oq_records :: "queue_row list"
  oq_states :: "journal_row list"
  oq_usage :: "usage_row list"
  oq_local :: "local_row list"
  oq_pending :: int
  oq_pending_states :: int
  oq_pending_usage :: int
  oq_quarantined :: int

subsection \<open>Files\<close>

definition read_file :: "string \<Rightarrow> (string \<times> bytes) list \<Rightarrow> bytes option" where
  "read_file p files = map_of files p"

definition unlink :: "string \<Rightarrow> (string \<times> bytes) list \<Rightarrow> (string \<times> bytes) list" where
  "unlink p files = filter (\<lambda>f. fst f \<noteq> p) files"

definition write_file :: "string \<Rightarrow> bytes \<Rightarrow> (string \<times> bytes) list \<Rightarrow> (string \<times> bytes) list" where
  "write_file p b files = (p, b) # unlink p files"

definition move_file :: "string \<Rightarrow> string \<Rightarrow> (string \<times> bytes) list \<Rightarrow> (string \<times> bytes) list" where
  "move_file p p' files = (case read_file p files of None \<Rightarrow> files | Some b \<Rightarrow> write_file p' b (unlink p files))"

text \<open>A write that completes: the temporary file is renamed.\<close>

definition atomic_write :: "string \<Rightarrow> bytes \<Rightarrow> (string \<times> bytes) list \<Rightarrow> (string \<times> bytes) list" where
  "atomic_write p b files = (let part = p @ ''.part'' in move_file part p (write_file part b files))"

definition image_path :: "string \<Rightarrow> string \<Rightarrow> string" where
  "image_path dir i = dir @ ''/images/'' @ i @ ''.dfq''"

definition quarantine_path :: "string \<Rightarrow> string \<Rightarrow> string \<Rightarrow> string" where
  "quarantine_path dir i extension = dir @ ''/quarantine/'' @ i @ extension"

definition keycheck_path :: "string \<Rightarrow> string" where
  "keycheck_path dir = dir @ ''/queue.keycheck''"

text \<open>The name of a file directly in a directory, and \<open>Path.suffix\<close>.\<close>

definition name_in :: "string \<Rightarrow> string \<Rightarrow> string option" where
  "name_in folder p = (let n = drop (length folder) p in
     if take (length folder) p = folder \<and> CHR ''/'' \<notin> set n then Some n else None)"

definition path_name :: "string \<Rightarrow> string" where
  "path_name p = rev (takeWhile (\<lambda>c. c \<noteq> CHR ''/'') (rev p))"

definition path_suffix :: "string \<Rightarrow> string" where
  "path_suffix p = (let r = rev (path_name p); ext = takeWhile (\<lambda>c. c \<noteq> CHR ''.'') r
     in if ext = [] \<or> length r \<le> Suc (length ext) then [] else CHR ''.'' # rev ext)"

subsection \<open>Rows\<close>

definition oldest :: "int \<Rightarrow> ('r \<Rightarrow> 'k :: linorder) \<Rightarrow> 'r list \<Rightarrow> 'r list" where
  "oldest limit key rows = take (nat (max 1 limit)) (sort_key key rows)"

fun traverse :: "('a \<Rightarrow> error + 'b) \<Rightarrow> 'a list \<Rightarrow> error + 'b list" where
  "traverse f [] = Inr []"
| "traverse f (x # xs) =
     (case f x of Inl e \<Rightarrow> Inl e
      | Inr y \<Rightarrow> (case traverse f xs of Inl e \<Rightarrow> Inl e | Inr ys \<Rightarrow> Inr (y # ys)))"

text \<open>The counters: \<open>max(0, n - max(0, rowcount))\<close>.\<close>

definition less_deleted :: "int \<Rightarrow> nat \<Rightarrow> int" where
  "less_deleted n deleted = max 0 (n - max 0 (int deleted))"

subsection \<open>Time states\<close>

definition new_state :: "string \<Rightarrow> string \<Rightarrow> string \<Rightarrow> string \<Rightarrow> string \<Rightarrow> string \<Rightarrow> int \<Rightarrow> int \<Rightarrow> bool \<Rightarrow> journal_event" where
  "new_state i observed status task project txt idle interval transition =
     \<lparr>je_id = i, je_observed = observed, je_status = status, je_task = task, je_project = project,
      je_note = take 500 txt, je_idle = max 0 idle, je_interval = max 1 interval, je_transition = transition\<rparr>"

definition add_state :: "aead \<Rightarrow> bytes \<Rightarrow> string \<Rightarrow> journal_event \<Rightarrow> offline_queue \<Rightarrow> error + (offline_queue \<times> journal_event)" where
  "add_state A nonce now e q =
     (if je_status e \<notin> {''active'', ''paused'', ''stopped''} then Inl (ValueError ''invalid state event status'')
      else if exists_row (\<lambda>r. je_id r = je_id e) (oq_states q) then Inl UniqueViolation
      else
        let event = new_state (je_id e) (je_observed e) (je_status e) (je_task e) (je_project e) (je_note e)
              (je_idle e) (je_interval e) (je_transition e);
            row = journal_event.extend
              (event\<lparr>je_note := (if je_note event = [] then [] else seal_text A nonce (je_note event) (je_id event) ''note'')\<rparr>)
              (journal_row.fields now)
        in Inr (q\<lparr>oq_states := oq_states q @ [row], oq_pending_states := oq_pending_states q + 1\<rparr>, event))"

definition open_state :: "aead \<Rightarrow> journal_row \<Rightarrow> error + journal_event" where
  "open_state A r = map_sum (\<lambda>e. e) (\<lambda>t. (journal_event.truncate r)\<lparr>je_note := t\<rparr>) (open_text A (je_note r) (je_id r) ''note'')"

definition state_order :: "journal_row \<Rightarrow> string \<times> string" where
  "state_order r = (je_observed r, je_created r)"

definition pending_states :: "aead \<Rightarrow> int \<Rightarrow> offline_queue \<Rightarrow> error + journal_event list" where
  "pending_states A limit q = traverse (open_state A) (oldest limit state_order (oq_states q))"

definition acknowledge_state :: "journal_event \<Rightarrow> offline_queue \<Rightarrow> offline_queue" where
  "acknowledge_state e q =
     q\<lparr>oq_states := delete_where (\<lambda>r. je_id r = je_id e) (oq_states q),
       oq_pending_states := less_deleted (oq_pending_states q) (rowcount (\<lambda>r. je_id r = je_id e) (oq_states q))\<rparr>"

subsection \<open>Local state\<close>

definition local_state :: "aead \<Rightarrow> string \<Rightarrow> offline_queue \<Rightarrow> error + string" where
  "local_state A key q =
     (if key = [] \<or> 80 < length key then Inl (ValueError ''invalid local state key'')
      else case find (\<lambda>r. lr_key r = key) (oq_local q) of
        None \<Rightarrow> Inr []
      | Some r \<Rightarrow> open_text A (lr_value r) key ''local_state'')"

definition set_local_state :: "aead \<Rightarrow> bytes \<Rightarrow> string \<Rightarrow> string \<Rightarrow> string \<Rightarrow> offline_queue \<Rightarrow> error + offline_queue" where
  "set_local_state A nonce now key v q =
     (if key = [] \<or> 80 < length key \<or> 262144 < length v then Inl (ValueError ''invalid local state value'')
      else if v = [] then Inr (q\<lparr>oq_local := delete_where (\<lambda>r. lr_key r = key) (oq_local q)\<rparr>)
      else
        let row = \<lparr>lr_key = key, lr_value = seal_text A nonce v key ''local_state'', lr_updated = now\<rparr>
        in Inr (if exists_row (\<lambda>r. lr_key r = key) (oq_local q)
                then q\<lparr>oq_local := update_where (\<lambda>r. lr_key r = key) (\<lambda>_. row) (oq_local q)\<rparr>
                else q\<lparr>oq_local := oq_local q @ [row]\<rparr>))"

subsection \<open>Usage of applications\<close>

definition add_usage ::
  "aead \<Rightarrow> bytes \<Rightarrow> bytes \<Rightarrow> string \<Rightarrow> usage_event \<Rightarrow> offline_queue \<Rightarrow> error + (offline_queue \<times> usage_event)" where
  "add_usage A nonce nonce' now e q =
     (let event = e\<lparr>ue_app := take 160 (ue_app e), ue_url := take 255 (ue_url e),
            ue_focused := max 0 (min 3600 (ue_focused e))\<rparr>;
          row = usage_event.extend
            (event\<lparr>ue_app := seal_text A nonce (ue_app event) (ue_id event) ''active_app'',
                   ue_url := seal_text A nonce' (ue_url event) (ue_id event) ''active_url''\<rparr>) (usage_row.fields now)
      in if exists_row (\<lambda>r. ue_id r = ue_id e) (oq_usage q) then Inl UniqueViolation
         else Inr (q\<lparr>oq_usage := oq_usage q @ [row], oq_pending_usage := oq_pending_usage q + 1\<rparr>, event))"

definition open_usage :: "aead \<Rightarrow> usage_row \<Rightarrow> error + usage_event" where
  "open_usage A r =
     (case open_text A (ue_app r) (ue_id r) ''active_app'' of
        Inl e \<Rightarrow> Inl e
      | Inr app \<Rightarrow>
          (case open_text A (ue_url r) (ue_id r) ''active_url'' of
             Inl e \<Rightarrow> Inl e
           | Inr url \<Rightarrow> Inr ((usage_event.truncate r)\<lparr>ue_app := app, ue_url := url\<rparr>)))"

definition usage_order :: "usage_row \<Rightarrow> string \<times> string" where
  "usage_order r = (ue_observed r, ue_created r)"

definition pending_usage :: "aead \<Rightarrow> int \<Rightarrow> offline_queue \<Rightarrow> error + usage_event list" where
  "pending_usage A limit q = traverse (open_usage A) (oldest limit usage_order (oq_usage q))"

definition acknowledge_usage :: "usage_event \<Rightarrow> offline_queue \<Rightarrow> offline_queue" where
  "acknowledge_usage e q =
     q\<lparr>oq_usage := delete_where (\<lambda>r. ue_id r = ue_id e) (oq_usage q),
       oq_pending_usage := less_deleted (oq_pending_usage q) (rowcount (\<lambda>r. ue_id r = ue_id e) (oq_usage q))\<rparr>"

subsection \<open>Quarantine\<close>

definition record_json :: "queued_record \<Rightarrow> json" where
  "record_json r = JObject
     [(''id'', JString (qr_id r)), (''captured_at'', JString (qr_captured r)), (''keyboard_events'', JInt (qr_keys r)),
      (''mouse_clicks'', JInt (qr_clicks r)), (''mouse_distance'', JInt (qr_distance r)),
      (''focused_seconds'', JInt (qr_focused r)), (''interactive_seconds'', JInt (qr_interactive r)),
      (''session_id'', JString (qr_session r)), (''active_app'', JString (qr_app r)), (''active_url'', JString (qr_url r)),
      (''automation_suspected'', JBool (qr_automation r)), (''screenshot_blurred'', JBool (qr_blurred r))]"

definition state_json :: "journal_event \<Rightarrow> json" where
  "state_json e = JObject
     [(''id'', JString (je_id e)), (''observed_at'', JString (je_observed e)), (''status'', JString (je_status e)),
      (''task_id'', JString (je_task e)), (''project_id'', JString (je_project e)), (''note'', JString (je_note e)),
      (''idle_seconds'', JInt (je_idle e)), (''heartbeat_interval_seconds'', JInt (je_interval e)),
      (''transition'', JBool (je_transition e))]"

definition usage_json :: "usage_event \<Rightarrow> json" where
  "usage_json e = JObject
     [(''id'', JString (ue_id e)), (''observed_at'', JString (ue_observed e)), (''active_app'', JString (ue_app e)),
      (''active_url'', JString (ue_url e)), (''focused_seconds'', JInt (ue_focused e))]"

definition write_quarantine ::
  "aead \<Rightarrow> bytes \<Rightarrow> string \<Rightarrow> string \<Rightarrow> string \<Rightarrow> json \<Rightarrow> string \<Rightarrow> offline_queue \<Rightarrow> offline_queue" where
  "write_quarantine A nonce now kind item_id payload reason q =
     (let envelope = utf8_encode (json_dumps (JObject
            [(''kind'', JString kind), (''id'', JString item_id), (''reason'', JString (take 1000 reason)),
             (''payload'', payload), (''quarantined_at'', JString now)]))
      in q\<lparr>oq_files := atomic_write (quarantine_path (oq_dir q) item_id ''.meta.dfq'')
              (seal_bytes A nonce envelope (utf8_encode (''quarantine:'' @ item_id))) (oq_files q),
           oq_quarantined := oq_quarantined q + 1\<rparr>)"

definition delete_record :: "string \<Rightarrow> offline_queue \<Rightarrow> offline_queue" where
  "delete_record i q =
     q\<lparr>oq_records := delete_where (\<lambda>r. qr_id r = i) (oq_records q),
       oq_pending := less_deleted (oq_pending q) (rowcount (\<lambda>r. qr_id r = i) (oq_records q))\<rparr>"

definition quarantine_record :: "aead \<Rightarrow> bytes \<Rightarrow> string \<Rightarrow> queued_record \<Rightarrow> string \<Rightarrow> offline_queue \<Rightarrow> offline_queue" where
  "quarantine_record A nonce now r reason q =
     delete_record (qr_id r) (write_quarantine A nonce now ''screenshot'' (qr_id r) (record_json r) reason
       (q\<lparr>oq_files := move_file (qr_path r) (quarantine_path (oq_dir q) (qr_id r) ''.screenshot.dfq'') (oq_files q)\<rparr>))"

definition quarantine_state :: "aead \<Rightarrow> bytes \<Rightarrow> string \<Rightarrow> journal_event \<Rightarrow> string \<Rightarrow> offline_queue \<Rightarrow> offline_queue" where
  "quarantine_state A nonce now e reason q =
     acknowledge_state e (write_quarantine A nonce now ''state'' (je_id e) (state_json e) reason q)"

definition quarantine_usage :: "aead \<Rightarrow> bytes \<Rightarrow> string \<Rightarrow> usage_event \<Rightarrow> string \<Rightarrow> offline_queue \<Rightarrow> offline_queue" where
  "quarantine_usage A nonce now e reason q =
     acknowledge_usage e (write_quarantine A nonce now ''usage'' (ue_id e) (usage_json e) reason q)"

subsection \<open>Screenshots\<close>

definition unlink_all :: "string list \<Rightarrow> (string \<times> bytes) list \<Rightarrow> (string \<times> bytes) list" where
  "unlink_all ps files = fold unlink ps files"

text \<open>\<open>_trim\<close>: the oldest rows above the limit go, with their images.\<close>

definition trim_queue :: "offline_queue \<Rightarrow> offline_queue" where
  "trim_queue q =
     (let excess = take (nat (max (int (length (oq_records q)) - oq_max q) 0)) (sort_key qr_created (oq_records q));
          gone = map qr_id excess
      in q\<lparr>oq_records := delete_where (\<lambda>r. qr_id r \<in> set gone) (oq_records q),
           oq_pending := max 0 (oq_pending q - int (length excess)),
           oq_files := unlink_all (map qr_path excess) (oq_files q)\<rparr>)"

definition new_record :: "string \<Rightarrow> string \<Rightarrow> string \<Rightarrow> activity_snapshot \<Rightarrow> string \<Rightarrow> string \<Rightarrow> string \<Rightarrow> bool \<Rightarrow> queued_record" where
  "new_record dir i captured activity app session url blurred =
     \<lparr>qr_id = i, qr_captured = captured, qr_keys = an_keys activity, qr_clicks = an_clicks activity,
      qr_distance = an_distance activity, qr_focused = an_focused activity, qr_interactive = an_interactive activity,
      qr_session = session, qr_app = take 160 app, qr_path = image_path dir i, qr_url = take 255 url,
      qr_automation = an_automation activity, qr_blurred = blurred\<rparr>"

text \<open>
  \<open>draw n\<close> is the \<open>n\<close>-th nonce.  The image is written before the row, so the file stays when
  the insertion fails.
\<close>

definition add_screenshot ::
  "aead \<Rightarrow> (nat \<Rightarrow> bytes) \<Rightarrow> string \<Rightarrow> bytes \<Rightarrow> queued_record \<Rightarrow> offline_queue \<Rightarrow> offline_queue \<times> (error + queued_record)" where
  "add_screenshot A draw now screenshot r q =
     (let q1 = q\<lparr>oq_files := atomic_write (qr_path r) (seal_bytes A (draw 0) screenshot (utf8_encode (qr_id r))) (oq_files q)\<rparr>;
          row = queued_record.extend
            (r\<lparr>qr_app := seal_text A (draw 1) (qr_app r) (qr_id r) ''active_app'',
               qr_url := seal_text A (draw 2) (qr_url r) (qr_id r) ''active_url''\<rparr>) (queue_row.fields now)
      in if exists_row (\<lambda>x. qr_id x = qr_id r) (oq_records q) then (q1, Inl UniqueViolation)
         else (trim_queue (q1\<lparr>oq_records := oq_records q @ [row], oq_pending := oq_pending q + 1\<rparr>), Inr r))"

definition add_to_queue ::
  "aead \<Rightarrow> (nat \<Rightarrow> bytes) \<Rightarrow> string \<Rightarrow> string \<Rightarrow> bytes \<Rightarrow> activity_snapshot \<Rightarrow> string \<Rightarrow> string \<Rightarrow> string \<Rightarrow> string \<Rightarrow> bool \<Rightarrow>
   offline_queue \<Rightarrow> offline_queue \<times> (error + queued_record)" where
  "add_to_queue A draw record_id now screenshot activity app captured session url blurred q =
     add_screenshot A draw now screenshot (new_record (oq_dir q) record_id captured activity app session url blurred) q"

definition open_record :: "aead \<Rightarrow> queue_row \<Rightarrow> error + queued_record" where
  "open_record A r =
     (case open_text A (qr_app r) (qr_id r) ''active_app'' of
        Inl e \<Rightarrow> Inl e
      | Inr app \<Rightarrow>
          (case open_text A (qr_url r) (qr_id r) ''active_url'' of
             Inl e \<Rightarrow> Inl e
           | Inr url \<Rightarrow> Inr ((queued_record.truncate r)\<lparr>qr_app := app, qr_url := url\<rparr>)))"

definition pending_records :: "aead \<Rightarrow> int \<Rightarrow> offline_queue \<Rightarrow> error + queued_record list" where
  "pending_records A limit q = traverse (open_record A) (oldest limit qr_created (oq_records q))"

definition acknowledge_record :: "queued_record \<Rightarrow> offline_queue \<Rightarrow> offline_queue" where
  "acknowledge_record r q = (let q1 = delete_record (qr_id r) q in q1\<lparr>oq_files := unlink (qr_path r) (oq_files q1)\<rparr>)"

definition read_screenshot :: "aead \<Rightarrow> queued_record \<Rightarrow> offline_queue \<Rightarrow> error + bytes" where
  "read_screenshot A r q =
     (case read_file (qr_path r) (oq_files q) of
        None \<Rightarrow> Inl (RuntimeError ''FileNotFoundError'')
      | Some data \<Rightarrow>
          (case open_bytes A data (utf8_encode (qr_id r)) of
             Inl Bad_Format \<Rightarrow> Inl (ValueError ''offline queue ciphertext format is invalid'')
           | Inl Invalid_Tag \<Rightarrow> Inl (ValueError ''offline screenshot authentication failed'')
           | Inr b \<Rightarrow> Inr b))"

subsection \<open>Opening a queue\<close>

text \<open>
  Rows an old version left in plain text are sealed.  \<open>draw i column\<close> is the nonce drawn for a
  column of a record.  Images that no row refers to and partial files are removed.
\<close>

definition seal_plain :: "aead \<Rightarrow> (string \<Rightarrow> string \<Rightarrow> bytes) \<Rightarrow> string \<Rightarrow> string \<Rightarrow> string \<Rightarrow> string" where
  "seal_plain A draw i column v = (if v \<noteq> [] \<and> \<not> is_sealed v then seal_text A (draw i column) v i column else v)"

fun upgrade_records ::
  "aead \<Rightarrow> (string \<Rightarrow> string \<Rightarrow> bytes) \<Rightarrow> string \<Rightarrow> queue_row list \<Rightarrow> (string \<times> bytes) list \<Rightarrow>
   queue_row list \<times> (string \<times> bytes) list \<times> string list" where
  "upgrade_records A draw dir [] files = ([], files, [])"
| "upgrade_records A draw dir (r # rs) files =
     (let r1 = r\<lparr>qr_app := seal_plain A draw (qr_id r) ''active_app'' (qr_app r),
                 qr_url := seal_plain A draw (qr_id r) ''active_url'' (qr_url r)\<rparr>
      in case (if path_suffix (qr_path r) \<noteq> ''.dfq'' then read_file (qr_path r) files else None) of
           None \<Rightarrow> (let (rs', files', legacy) = upgrade_records A draw dir rs files in (r1 # rs', files', legacy))
         | Some plain \<Rightarrow>
             (let p = image_path dir (qr_id r);
                  files1 = atomic_write p (seal_bytes A (draw (qr_id r) ''screenshot'') plain (utf8_encode (qr_id r))) files;
                  (rs', files', legacy) = upgrade_records A draw dir rs files1
              in (r1\<lparr>qr_path := p\<rparr> # rs', files', qr_path r # legacy)))"

definition keep_image :: "string \<Rightarrow> string list \<Rightarrow> string \<Rightarrow> bool" where
  "keep_image dir referenced p =
     (name_in (dir @ ''/images/'') p = None \<or> p \<in> set referenced \<and> path_suffix p \<noteq> ''.part'')"

definition initialize_queue :: "aead \<Rightarrow> (string \<Rightarrow> string \<Rightarrow> bytes) \<Rightarrow> offline_queue \<Rightarrow> offline_queue" where
  "initialize_queue A draw q =
     (let (records, files, legacy) = upgrade_records A draw (oq_dir q) (oq_records q) (oq_files q);
          states = map (\<lambda>r. r\<lparr>je_note := seal_plain A draw (je_id r) ''note'' (je_note r)\<rparr>) (oq_states q);
          usage = map (\<lambda>r. r\<lparr>ue_app := seal_plain A draw (ue_id r) ''active_app'' (ue_app r),
                              ue_url := seal_plain A draw (ue_id r) ''active_url'' (ue_url r)\<rparr>) (oq_usage q);
          files1 = unlink_all legacy files;
          files2 = filter (\<lambda>f. keep_image (oq_dir q) (map qr_path records) (fst f)) files1
      in q\<lparr>oq_records := records, oq_states := states, oq_usage := usage, oq_files := files2,
           oq_pending := int (length records), oq_pending_states := int (length states),
           oq_pending_usage := int (length usage)\<rparr>)"

definition ends_with :: "string \<Rightarrow> string \<Rightarrow> bool" where
  "ends_with ext s \<longleftrightarrow> drop (length s - length ext) s = ext \<and> length ext \<le> length s"

definition quarantined_files :: "string \<Rightarrow> (string \<times> bytes) list \<Rightarrow> nat" where
  "quarantined_files dir files =
     rowcount (\<lambda>f. \<exists>n \<in> set_option (name_in (dir @ ''/quarantine/'') (fst f)). ends_with ''.meta.dfq'' n) files"

text \<open>\<open>check\<close> is the HMAC of a constant text under the key derived from the secret.\<close>

definition verify_key :: "string \<Rightarrow> string \<Rightarrow> (string \<times> bytes) list \<Rightarrow> error + (string \<times> bytes) list" where
  "verify_key dir expected files =
     (case read_file (keycheck_path dir) files of
        Some content \<Rightarrow>
          if strip content = expected then Inr files
          else Inl (ValueError ''offline queue key does not match; restore the previous device token'')
      | None \<Rightarrow> Inr (write_file (keycheck_path dir) expected files))"

definition open_queue ::
  "(string \<Rightarrow> aead) \<Rightarrow> (string \<Rightarrow> string) \<Rightarrow> (string \<Rightarrow> string \<Rightarrow> bytes) \<Rightarrow> string \<Rightarrow> offline_queue \<Rightarrow> error + offline_queue" where
  "open_queue derive check draw secret q =
     (if length secret < 32 then Inl (ValueError ''offline queue encryption secret must be at least 32 characters'')
      else case verify_key (oq_dir q) (check secret) (oq_files q) of
        Inl e \<Rightarrow> Inl e
      | Inr files \<Rightarrow>
          (let q1 = initialize_queue (derive secret) draw (q\<lparr>oq_files := files\<rparr>)
           in Inr (q1\<lparr>oq_quarantined := int (quarantined_files (oq_dir q) (oq_files q1))\<rparr>)))"

subsection \<open>Facts about files\<close>

lemma read_unlink: "read_file p (unlink p' fs) = (if p = p' then None else read_file p fs)"
  by (induction fs) (auto simp: read_file_def unlink_def)

lemma read_write: "read_file p (write_file p' b fs) = (if p = p' then Some b else read_file p fs)"
  using read_unlink [of p p' fs] by (simp add: write_file_def read_file_def)

lemma read_move: "p \<noteq> p' \<Longrightarrow> read_file x (move_file p p' fs) =
    (if x = p' \<and> read_file p fs \<noteq> None then read_file p fs else if x = p then None else read_file x fs)"
  by (auto simp: move_file_def read_write read_unlink split: option.splits)

lemma read_atomic: "x \<noteq> p @ ''.part'' \<Longrightarrow> read_file x (atomic_write p b fs) = (if x = p then Some b else read_file x fs)"
  by (simp add: atomic_write_def Let_def read_move read_write)

lemma read_unlink_all: "read_file p (unlink_all ps fs) = (if p \<in> set ps then None else read_file p fs)"
  unfolding unlink_all_def by (induction ps arbitrary: fs) (auto simp: read_unlink)

lemmas read_simps = read_unlink read_write read_move read_atomic read_unlink_all

lemma read_None_iff: "read_file p fs = None \<longleftrightarrow> p \<notin> fst ` set fs"
  by (simp add: read_file_def map_of_eq_None_iff)

text \<open>Which files there are.\<close>

lemma paths_unlink: "fst ` set (unlink p fs) = fst ` set fs - {p}"
  by (auto simp: unlink_def)

lemma paths_write: "fst ` set (write_file p b fs) = insert p (fst ` set fs)"
  by (auto simp: write_file_def unlink_def)

lemma paths_unlink_all: "fst ` set (unlink_all ps fs) = fst ` set fs - set ps"
  unfolding unlink_all_def by (induction ps arbitrary: fs) (auto simp: paths_unlink)

lemma paths_move: "read_file p fs \<noteq> None \<Longrightarrow> fst ` set (move_file p p' fs) = insert p' (fst ` set fs - {p})"
  unfolding move_file_def by (auto simp only: paths_write paths_unlink option.case split: option.splits)

lemma paths_atomic: "fst ` set (atomic_write p b fs) = insert p (fst ` set fs - {p @ ''.part''})"
  by (auto simp: atomic_write_def Let_def paths_move paths_write read_write)

lemmas paths_simps = paths_unlink paths_write paths_unlink_all paths_move paths_atomic

subsection \<open>The contract of an outbox\<close>

text \<open>
  Time states, usage and screenshots are sent the same way: the oldest row is opened and sent,
  and acknowledged once the server has it.  \<open>drain n\<close> is \<open>n\<close> such rounds, all successful.
\<close>

fun drain :: "(int \<Rightarrow> 'q \<Rightarrow> error + 'e list) \<Rightarrow> ('e \<Rightarrow> 'q \<Rightarrow> 'q) \<Rightarrow> nat \<Rightarrow> 'q \<Rightarrow> 'e list \<times> 'q" where
  "drain pending ack 0 q = ([], q)"
| "drain pending ack (Suc n) q =
     (case pending 1 q of
        Inr (e # _) \<Rightarrow> (let (es, q') = drain pending ack n (ack e q) in (e # es, q'))
      | _ \<Rightarrow> ([], q))"

lemma traverse_Inr: "traverse f xs = Inr ys \<longleftrightarrow> list_all2 (\<lambda>x y. f x = Inr y) xs ys"
proof (induction xs arbitrary: ys)
  case (Cons x xs)
  show ?case by (cases ys) (auto simp: Cons [symmetric] split: sum.splits)
qed auto

lemma traverse_total: "(\<And>x. x \<in> set xs \<Longrightarrow> \<exists>y. f x = Inr y) \<Longrightarrow> \<exists>ys. traverse f xs = Inr ys"
  by (induction xs) (auto split: sum.splits, metis Inl_Inr_False)

lemma traverse_stuck: "x \<in> set xs \<Longrightarrow> f x = Inl e \<Longrightarrow> \<exists>e. traverse f xs = Inl e"
  by (induction xs) (auto split: sum.splits)

locale outbox =
  fixes rows :: "'q \<Rightarrow> 'r list"
    and ident :: "'r \<Rightarrow> string"
    and order :: "'r \<Rightarrow> 'k :: linorder"
    and open_row :: "'r \<Rightarrow> error + 'e"
    and event_id :: "'e \<Rightarrow> string"
    and pending :: "int \<Rightarrow> 'q \<Rightarrow> error + 'e list"
    and ack :: "'e \<Rightarrow> 'q \<Rightarrow> 'q"
    and waiting :: "'q \<Rightarrow> int"
  assumes pending_def: "pending limit q = traverse open_row (oldest limit order (rows q))"
    and open_id: "open_row r = Inr e \<Longrightarrow> event_id e = ident r"
    and rows_ack: "rows (ack e q) = delete_where (\<lambda>r. ident r = event_id e) (rows q)"
    and waiting_ack: "waiting (ack e q) = less_deleted (waiting q) (rowcount (\<lambda>r. ident r = event_id e) (rows q))"
begin

text \<open>What is sent first is the oldest row, and acknowledging it removes this row alone.\<close>

lemma pending_Nil: "rows q = [] \<Longrightarrow> pending limit q = Inr []"
  by (simp add: pending_def oldest_def)

lemma pending_one: "sort_key order (rows q) = r # rs \<Longrightarrow> pending 1 q = traverse open_row [r]"
  by (simp add: pending_def oldest_def)

lemma pending_head:
  assumes "pending 1 q = Inr (e # es)"
  shows "\<exists>r rs. sort_key order (rows q) = r # rs \<and> open_row r = Inr e \<and> es = []"
proof (cases "sort_key order (rows q)")
  case (Cons r rs)
  with assms show ?thesis by (auto simp: pending_one split: sum.splits)
qed (use assms in \<open>simp add: pending_def oldest_def\<close>)

lemma sorted_ack:
  assumes d: "distinct (map ident (rows q))" and s: "sort_key order (rows q) = r # rs" and o: "open_row r = Inr e"
  shows "sort_key order (rows (ack e q)) = rs"
proof -
  have "distinct (map ident (sort_key order (rows q)))"
    using d by (simp add: distinct_map inj_on_def)
  then have n: "ident r \<notin> ident ` set rs" by (simp add: s)
  have "sort_key order (rows (ack e q)) = filter (\<lambda>x. ident x \<noteq> ident r) (sort_key order (rows q))"
    by (simp add: rows_ack delete_where_def open_id [OF o] filter_sort)
  also have "\<dots> = rs" unfolding s using n by (simp add: filter_id_conv) (metis imageI)
  finally show ?thesis .
qed

lemma distinct_ack: "distinct (map ident (rows q)) \<Longrightarrow> distinct (map ident (rows (ack e q)))"
  by (simp add: rows_ack delete_where_def distinct_map_filter)

lemma count_ack:
  "waiting q = int (length (rows q)) \<Longrightarrow> waiting (ack e q) = int (length (rows (ack e q)))"
  using length_delete_where [of "\<lambda>r. ident r = event_id e" "rows q"] by (simp add: waiting_ack rows_ack less_deleted_def)

text \<open>Every row that can be opened is sent, in order, and the outbox is empty after as many rounds.\<close>

lemma drain_all:
  assumes "distinct (map ident (rows q))" and "\<forall>r \<in> set (rows q). \<exists>e. open_row r = Inr e"
  shows "\<exists>es. traverse open_row (sort_key order (rows q)) = Inr es \<and>
    fst (drain pending ack (length (rows q)) q) = es \<and> rows (snd (drain pending ack (length (rows q)) q)) = []"
  using assms
proof (induction "length (rows q)" arbitrary: q)
  case 0
  then show ?case by simp
next
  case (Suc n)
  have len: "length (sort_key order (rows q)) = Suc n" using Suc(2) by simp
  then obtain r rs where s: "sort_key order (rows q) = r # rs" by (cases "sort_key order (rows q)") auto
  have "r \<in> set (rows q)" by (metis s list.set_intros(1) set_sort)
  with Suc(4) obtain e where o: "open_row r = Inr e" by blast
  let ?q = "ack e q"
  note rest = sorted_ack [OF Suc(3) s o]
  have n: "n = length (rows ?q)" using arg_cong [OF rest, of length] len s by simp
  have "set (rows ?q) \<subseteq> set (rows q)" by (auto simp: rows_ack delete_where_def)
  with Suc(1) [OF n distinct_ack [OF Suc(3)]] Suc(4) obtain es where
    ih: "traverse open_row rs = Inr es" "fst (drain pending ack n ?q) = es" "rows (snd (drain pending ack n ?q)) = []"
    unfolding rest n by blast
  have "pending 1 q = Inr [e]" by (simp add: pending_one [OF s] o)
  then show ?case using ih o s by (simp add: Suc(2) [symmetric] split_beta Let_def)
qed

text \<open>A row that cannot be opened and is the oldest blocks the outbox.\<close>

lemma drain_blocked:
  assumes "sort_key order (rows q) = r # rs" and "open_row r = Inl e"
  shows "drain pending ack n q = ([], q)"
  using assms by (cases n) (simp_all add: pending_one)

end

interpretation states_box: outbox oq_states je_id state_order "open_state A" je_id "pending_states A" acknowledge_state oq_pending_states for A
  by unfold_locales (auto simp: pending_states_def open_state_def acknowledge_state_def journal_event.defs map_sum_def split: sum.splits)

interpretation usage_box: outbox oq_usage ue_id usage_order "open_usage A" ue_id "pending_usage A" acknowledge_usage oq_pending_usage for A
  by unfold_locales (auto simp: pending_usage_def open_usage_def acknowledge_usage_def usage_event.defs split: sum.splits)

interpretation records_box: outbox oq_records qr_id qr_created "open_record A" qr_id "pending_records A" acknowledge_record oq_pending for A
  by unfold_locales (auto simp: pending_records_def open_record_def acknowledge_record_def delete_record_def Let_def queued_record.defs split: sum.splits)

end
