(* ===== verification/Queue_Invariant.thy ===== *)
theory Queue_Invariant
  imports Offline_Queue
begin

section \<open>The queue stays sound\<close>

text \<open>
  The invariant of the agent's queue, kept by every operation of \<open>Offline_Queue\<close>, and what
  follows for runs: restarts change nothing, sending drains the queue in order, screenshots are
  bounded and read back, and old plain text is sealed without loss.
\<close>

definition valid_id :: "string \<Rightarrow> bool" where
  "valid_id i \<longleftrightarrow> i \<noteq> [] \<and> CHR ''/'' \<notin> set i"

definition in_images :: "string \<Rightarrow> string \<Rightarrow> bool" where
  "in_images dir p \<longleftrightarrow> name_in (dir @ ''/images/'') p \<noteq> None"

lemma image_path_inj [simp]: "image_path dir i = image_path dir j \<longleftrightarrow> i = j"
  by (simp add: image_path_def)

lemma image_not_part [simp]: "image_path dir i \<noteq> p @ ''.part''"
proof
  assume "image_path dir i = p @ ''.part''"
  then have "last (image_path dir i) = last (p @ ''.part'')" by simp
  then show False by (simp add: image_path_def)
qed

lemma images_apart [simp]:
  "image_path dir i \<noteq> quarantine_path dir j ext" "quarantine_path dir j ext \<noteq> image_path dir i"
  "\<not> in_images dir (quarantine_path dir j ext)" "\<not> in_images dir (keycheck_path dir)"
  by (simp_all add: image_path_def quarantine_path_def keycheck_path_def in_images_def name_in_def)

lemma path_suffix_image: "valid_id i \<Longrightarrow> path_suffix (image_path dir i) = ''.dfq''"
proof -
  assume i: "valid_id i"
  have "takeWhile (\<lambda>c. c \<noteq> CHR ''/'') (rev i @ CHR ''/'' # r) = rev i" for r
    using i by (subst takeWhile_append2) (auto simp: valid_id_def)
  then have "path_name (image_path dir i) = i @ ''.dfq''" by (simp add: path_name_def image_path_def)
  moreover have "length i > 0" using i by (simp add: valid_id_def)
  ultimately show ?thesis by (simp add: path_suffix_def Let_def)
qed

subsection \<open>The invariant\<close>

text \<open>
  Ids are unique, counters are exact, every text at rest is sealed and opens with the key, and the
  images are those of the rows: each opens, and no other file is among them.
\<close>

definition kept_text :: "aead \<Rightarrow> string \<Rightarrow> string \<Rightarrow> string \<Rightarrow> bool" where
  "kept_text A v i field \<longleftrightarrow> v = [] \<or> is_sealed v \<and> (\<exists>t. open_text A v i field = Inr t)"

definition record_ok :: "aead \<Rightarrow> string \<Rightarrow> (string \<times> bytes) list \<Rightarrow> queue_row \<Rightarrow> bool" where
  "record_ok A dir files r \<longleftrightarrow> valid_id (qr_id r) \<and> qr_path r = image_path dir (qr_id r) \<and>
     kept_text A (qr_app r) (qr_id r) ''active_app'' \<and> kept_text A (qr_url r) (qr_id r) ''active_url'' \<and>
     (\<exists>b s. read_file (qr_path r) files = Some b \<and> open_bytes A b (utf8_encode (qr_id r)) = Inr s)"

definition state_ok :: "aead \<Rightarrow> journal_row \<Rightarrow> bool" where
  "state_ok A r \<longleftrightarrow> kept_text A (je_note r) (je_id r) ''note'' \<and> je_status r \<in> {''active'', ''paused'', ''stopped''}"

definition usage_ok :: "aead \<Rightarrow> usage_row \<Rightarrow> bool" where
  "usage_ok A r \<longleftrightarrow> kept_text A (ue_app r) (ue_id r) ''active_app'' \<and> kept_text A (ue_url r) (ue_id r) ''active_url''"

definition images_ok :: "aead \<Rightarrow> offline_queue \<Rightarrow> bool" where
  "images_ok A q \<longleftrightarrow> distinct (map qr_id (oq_records q)) \<and> oq_pending q = int (length (oq_records q)) \<and>
     (\<forall>r \<in> set (oq_records q). record_ok A (oq_dir q) (oq_files q) r) \<and>
     (\<forall>p \<in> fst ` set (oq_files q). in_images (oq_dir q) p \<longrightarrow> p \<in> qr_path ` set (oq_records q))"

definition local_ok :: "aead \<Rightarrow> local_row \<Rightarrow> bool" where
  "local_ok A r \<longleftrightarrow> is_sealed (lr_value r) \<and> (\<exists>t. open_text A (lr_value r) (lr_key r) ''local_state'' = Inr t)"

definition journals_ok :: "aead \<Rightarrow> offline_queue \<Rightarrow> bool" where
  "journals_ok A q \<longleftrightarrow> distinct (map je_id (oq_states q)) \<and> distinct (map ue_id (oq_usage q)) \<and>
     distinct (map lr_key (oq_local q)) \<and> oq_pending_states q = int (length (oq_states q)) \<and>
     oq_pending_usage q = int (length (oq_usage q)) \<and> (\<forall>r \<in> set (oq_states q). state_ok A r) \<and>
     (\<forall>r \<in> set (oq_usage q). usage_ok A r) \<and> (\<forall>r \<in> set (oq_local q). local_ok A r)"

definition queue_inv :: "aead \<Rightarrow> offline_queue \<Rightarrow> bool" where
  "queue_inv A q \<longleftrightarrow> images_ok A q \<and> journals_ok A q"

lemma kept_seal: "aead_law A \<Longrightarrow> length nonce = 12 \<Longrightarrow> kept_text A (seal_text A nonce v i field) i field"
  unfolding kept_text_def by (cases "v = []") (simp_all add: is_sealed_seal open_sealed seal_text_def [of A nonce "[]"])

lemma kept_opens: "kept_text A v i field \<Longrightarrow> \<exists>t. open_text A v i field = Inr t"
  by (auto simp: kept_text_def open_text_def)

lemma open_state_ok: "state_ok A r \<Longrightarrow> \<exists>e. open_state A r = Inr e"
  by (auto simp: state_ok_def open_state_def dest!: kept_opens)

lemma open_usage_ok: "usage_ok A r \<Longrightarrow> \<exists>e. open_usage A r = Inr e"
  by (auto simp: usage_ok_def open_usage_def dest!: kept_opens)

lemma open_record_ok: "record_ok A dir fs r \<Longrightarrow> \<exists>e. open_record A r = Inr e"
  by (auto simp: record_ok_def open_record_def dest!: kept_opens)

text \<open>An update of the tables of states, usage and local state.\<close>

definition same_images :: "offline_queue \<Rightarrow> offline_queue \<Rightarrow> bool" where
  "same_images q q' \<longleftrightarrow> oq_dir q' = oq_dir q \<and> oq_records q' = oq_records q \<and> oq_pending q' = oq_pending q \<and>
     (\<forall>p. in_images (oq_dir q) p \<longrightarrow> read_file p (oq_files q') = read_file p (oq_files q))"

lemma in_images_image: "valid_id i \<Longrightarrow> in_images dir (image_path dir i)"
  by (simp add: in_images_def name_in_def image_path_def valid_id_def)

lemma same_images_ok:
  assumes "same_images q q'" and "images_ok A q"
  shows "images_ok A q'"
proof -
  have "record_ok A (oq_dir q') (oq_files q') r" if "r \<in> set (oq_records q)" for r
  proof -
    have r: "record_ok A (oq_dir q) (oq_files q) r" using assms(2) that by (simp add: images_ok_def)
    then have "in_images (oq_dir q) (qr_path r)" using in_images_image [of "qr_id r"] by (simp add: record_ok_def)
    then have "read_file (qr_path r) (oq_files q') = read_file (qr_path r) (oq_files q)" using assms(1) by (simp add: same_images_def)
    with r assms(1) show ?thesis unfolding record_ok_def same_images_def by metis
  qed
  moreover have "p \<in> fst ` set (oq_files q)" if "p \<in> fst ` set (oq_files q')" "in_images (oq_dir q) p" for p
    using assms(1) that read_None_iff [of p "oq_files q"] read_None_iff [of p "oq_files q'"] by (simp add: same_images_def)
  moreover have e: "oq_dir q' = oq_dir q" "oq_records q' = oq_records q" "oq_pending q' = oq_pending q"
    using assms(1) by (simp_all add: same_images_def)
  moreover have "distinct (map qr_id (oq_records q))" "oq_pending q = int (length (oq_records q))"
    "\<And>p. p \<in> fst ` set (oq_files q) \<Longrightarrow> in_images (oq_dir q) p \<Longrightarrow> p \<in> qr_path ` set (oq_records q)"
    using assms(2) by (simp_all only: images_ok_def)
  ultimately show ?thesis unfolding images_ok_def by (intro conjI ballI impI) (simp_all only: simp_thms)
qed

lemma same_images_refl: "same_images q q" by (simp add: same_images_def)

lemma quarantine_images: "same_images q (write_quarantine A nonce now kind i payload reason q)"
proof -
  have "p \<noteq> quarantine_path (oq_dir q) i ''.meta.dfq'' @ ''.part''" "p \<noteq> quarantine_path (oq_dir q) i ''.meta.dfq''"
    if "in_images (oq_dir q) p" for p
    using that images_apart(3) [of "oq_dir q" i "''.meta.dfq''"] images_apart(3) [of "oq_dir q" i "''.meta.dfq.part''"]
    by (auto simp: quarantine_path_def)
  then show ?thesis by (simp add: same_images_def write_quarantine_def Let_def read_simps)
qed

subsection \<open>Every operation keeps it\<close>

lemma same_journals_ok:
  assumes "journals_ok A q" and "oq_states q' = oq_states q" "oq_usage q' = oq_usage q" "oq_local q' = oq_local q"
    "oq_pending_states q' = oq_pending_states q" "oq_pending_usage q' = oq_pending_usage q"
  shows "journals_ok A q'"
  using assms by (simp add: journals_ok_def)

lemma same_records_ok:
  "images_ok A q \<Longrightarrow> oq_dir q' = oq_dir q \<Longrightarrow> oq_records q' = oq_records q \<Longrightarrow> oq_pending q' = oq_pending q \<Longrightarrow>
   oq_files q' = oq_files q \<Longrightarrow> images_ok A q'"
  by (erule same_images_ok [rotated]) (simp add: same_images_def)

lemma kept_Nil: "kept_text A [] i field" by (simp add: kept_text_def)

lemma add_state_ok:
  assumes A: "aead_law A" "length nonce = 12" and inv: "queue_inv A q" and r: "add_state A nonce now e q = Inr (q', e')"
  shows "queue_inv A q'"
proof -
  obtain row where q': "q' = q\<lparr>oq_states := oq_states q @ [row], oq_pending_states := oq_pending_states q + 1\<rparr>"
    and row: "state_ok A row" "je_id row = je_id e"
  proof -
    let ?n = "je_note e"
    have "kept_text A (if take 500 ?n = [] then [] else seal_text A nonce (take 500 ?n) (je_id e) ''note'') (je_id e) ''note''"
      by (simp add: kept_seal [OF A] kept_Nil)
    then show thesis using that r
      by (auto simp: add_state_def new_state_def state_ok_def journal_event.defs journal_row.defs Let_def split: if_splits)
  qed
  have new: "je_id e \<notin> je_id ` set (oq_states q)" using r by (auto simp: add_state_def exists_row_def list_ex_iff split: if_splits)
  have "journals_ok A q'" using inv row new by (simp add: queue_inv_def journals_ok_def q')
  moreover have "images_ok A q'" by (rule same_records_ok [of A q]) (use inv in \<open>simp_all add: queue_inv_def q'\<close>)
  ultimately show ?thesis by (simp add: queue_inv_def)
qed

lemma add_usage_ok:
  assumes A: "aead_law A" "length n1 = 12" "length n2 = 12" and inv: "queue_inv A q"
    and r: "add_usage A n1 n2 now e q = Inr (q', e')"
  shows "queue_inv A q'"
proof -
  obtain row where q': "q' = q\<lparr>oq_usage := oq_usage q @ [row], oq_pending_usage := oq_pending_usage q + 1\<rparr>"
    and row: "usage_ok A row" "ue_id row = ue_id e"
    using r by (auto simp: add_usage_def usage_ok_def usage_event.defs usage_row.defs Let_def kept_seal [OF A(1,2)]
        kept_seal [OF A(1,3)] split: if_splits)
  have new: "ue_id e \<notin> ue_id ` set (oq_usage q)" using r by (auto simp: add_usage_def exists_row_def list_ex_iff Let_def split: if_splits)
  have "journals_ok A q'" using inv row new by (simp add: queue_inv_def journals_ok_def q')
  moreover have "images_ok A q'" by (rule same_records_ok [of A q]) (use inv in \<open>simp_all add: queue_inv_def q'\<close>)
  ultimately show ?thesis by (simp add: queue_inv_def)
qed

lemma set_local_state_ok:
  assumes A: "aead_law A" "length nonce = 12" and inv: "queue_inv A q" and r: "set_local_state A nonce now key v q = Inr q'"
  shows "queue_inv A q'"
proof -
  let ?row = "\<lparr>lr_key = key, lr_value = seal_text A nonce v key ''local_state'', lr_updated = now\<rparr>"
  have row: "v \<noteq> [] \<Longrightarrow> local_ok A ?row" by (simp add: local_ok_def is_sealed_seal open_sealed [OF A])
  obtain l where q': "q' = q\<lparr>oq_local := l\<rparr>" using r by (auto simp: set_local_state_def Let_def split: if_splits)
  have j: "distinct (map lr_key (oq_local q))" "\<forall>r \<in> set (oq_local q). local_ok A r"
    using inv by (simp_all add: queue_inv_def journals_ok_def)
  have "distinct (map lr_key (oq_local q')) \<and> (\<forall>r \<in> set (oq_local q'). local_ok A r)"
  proof (cases "v = []")
    case True
    then have "oq_local q' = delete_where (\<lambda>r. lr_key r = key) (oq_local q)" using r by (auto simp: set_local_state_def split: if_splits)
    with j show ?thesis by (simp add: delete_where_def distinct_map_filter)
  next
    case False
    then have l: "oq_local q' = (if exists_row (\<lambda>r. lr_key r = key) (oq_local q)
        then update_where (\<lambda>r. lr_key r = key) (\<lambda>_. ?row) (oq_local q) else oq_local q @ [?row])"
      using r by (auto simp: set_local_state_def Let_def split: if_splits)
    show ?thesis
    proof (cases "exists_row (\<lambda>r. lr_key r = key) (oq_local q)")
      case True
      have "map lr_key (update_where (\<lambda>r. lr_key r = key) (\<lambda>_. ?row) (oq_local q)) = map lr_key (oq_local q)"
        by (intro map_update_where) simp
      with True j row [OF False] l show ?thesis by (auto simp: set_update_where)
    next
      case not_there: False
      then have "key \<notin> lr_key ` set (oq_local q)" by (auto simp: exists_row_iff)
      with not_there j row [OF False] l show ?thesis by simp
    qed
  qed
  then have "journals_ok A q'" using inv by (simp add: queue_inv_def journals_ok_def q')
  moreover have "images_ok A q'"
    by (rule same_records_ok [of A q]) (use inv in \<open>simp_all add: queue_inv_def q'\<close>)
  ultimately show ?thesis by (simp add: queue_inv_def)
qed

lemma delete_states_ok: "queue_inv A q \<Longrightarrow> queue_inv A (acknowledge_state e q)"
  using states_box.count_ack [of q e]
  by (auto simp: queue_inv_def journals_ok_def acknowledge_state_def delete_where_def distinct_map_filter intro: same_records_ok)

lemma delete_usage_ok: "queue_inv A q \<Longrightarrow> queue_inv A (acknowledge_usage e q)"
  using usage_box.count_ack [of q e]
  by (auto simp: queue_inv_def journals_ok_def acknowledge_usage_def delete_where_def distinct_map_filter intro: same_records_ok)

lemma write_quarantine_ok: "queue_inv A q \<Longrightarrow> queue_inv A (write_quarantine A nonce now kind i payload reason q)"
  using same_images_ok [OF quarantine_images] by (simp add: queue_inv_def journals_ok_def write_quarantine_def Let_def)

lemma quarantine_states_ok: "queue_inv A q \<Longrightarrow> queue_inv A (quarantine_state A nonce now e reason q)"
  by (simp add: quarantine_state_def delete_states_ok write_quarantine_ok)

lemma quarantine_usage_ok: "queue_inv A q \<Longrightarrow> queue_inv A (quarantine_usage A nonce now e reason q)"
  by (simp add: quarantine_usage_def delete_usage_ok write_quarantine_ok)

subsection \<open>Screenshots keep it too\<close>

text \<open>Rows go away together with their images.\<close>

lemma remove_records_ok:
  assumes inv: "images_ok A q"
    and q': "oq_dir q' = oq_dir q" "oq_records q' = delete_where (\<lambda>r. qr_id r \<in> G) (oq_records q)"
      "oq_pending q' = int (length (oq_records q'))"
    and files: "\<And>p. in_images (oq_dir q) p \<Longrightarrow> read_file p (oq_files q') =
      (if \<exists>r \<in> set (oq_records q). qr_id r \<in> G \<and> p = qr_path r then None else read_file p (oq_files q))"
  shows "images_ok A q'"
proof -
  have rok: "record_ok A (oq_dir q) (oq_files q) r" if "r \<in> set (oq_records q)" for r using inv that by (simp add: images_ok_def)
  then have path: "qr_path r = image_path (oq_dir q) (qr_id r)" "in_images (oq_dir q) (qr_path r)" if "r \<in> set (oq_records q)" for r
    using that in_images_image by (auto simp: record_ok_def)
  have "record_ok A (oq_dir q) (oq_files q') r" if r: "r \<in> set (oq_records q')" for r
  proof -
    from r have r': "r \<in> set (oq_records q)" "qr_id r \<notin> G" by (auto simp: q' delete_where_def)
    then have "\<not> (\<exists>x \<in> set (oq_records q). qr_id x \<in> G \<and> qr_path r = qr_path x)" using path(1) by auto
    then have "read_file (qr_path r) (oq_files q') = read_file (qr_path r) (oq_files q)" using files [OF path(2) [OF r'(1)]] by (simp only: if_False)
    with rok [OF r'(1)] show ?thesis unfolding record_ok_def by metis
  qed
  moreover have "p \<in> qr_path ` set (oq_records q')" if p: "p \<in> fst ` set (oq_files q')" "in_images (oq_dir q) p" for p
  proof -
    have "read_file p (oq_files q') \<noteq> None" using p(1) by (simp add: read_None_iff)
    then have no: "\<not> (\<exists>r \<in> set (oq_records q). qr_id r \<in> G \<and> p = qr_path r)" and "read_file p (oq_files q) \<noteq> None"
      using files [OF p(2)] by (auto split: if_splits)
    then have "p \<in> qr_path ` set (oq_records q)" using inv p(2) unfolding images_ok_def read_None_iff by blast
    with no show ?thesis by (auto simp: q' delete_where_def)
  qed
  moreover have "distinct (map qr_id (oq_records q'))" using inv by (simp add: images_ok_def q' delete_where_def distinct_map_filter)
  ultimately show ?thesis unfolding images_ok_def q'(1) by (intro conjI ballI impI) (simp_all only: q'(3))
qed

lemma delete_prefix:
  assumes "distinct (map k rows)"
  shows "sort_key key (delete_where (\<lambda>r. k r \<in> set (map k (take n (sort_key key rows)))) rows) = drop n (sort_key key rows)"
proof -
  let ?s = "sort_key key rows"
  have "distinct (map k ?s)" using assms by (simp add: distinct_map inj_on_def)
  then have "distinct (map k (take n ?s) @ map k (drop n ?s))" by (metis append_take_drop_id map_append)
  then have apart: "k r \<notin> k ` set (take n ?s)" if "r \<in> set (drop n ?s)" for r using that by auto
  have "sort_key key (delete_where (\<lambda>r. k r \<in> set (map k (take n ?s))) rows) = filter (\<lambda>r. k r \<notin> k ` set (take n ?s)) ?s"
    by (simp add: delete_where_def filter_sort)
  also have "\<dots> = filter (\<lambda>r. k r \<notin> k ` set (take n ?s)) (take n ?s @ drop n ?s)" by simp
  also have "\<dots> = drop n ?s" unfolding filter_append using apart by (simp add: filter_id_conv filter_empty_conv)
  finally show ?thesis .
qed

lemma trim_records:
  assumes "distinct (map qr_id (oq_records q))"
  shows "sort_key qr_created (oq_records (trim_queue q)) =
    drop (nat (max (int (length (oq_records q)) - oq_max q) 0)) (sort_key qr_created (oq_records q))"
  using delete_prefix [OF assms] by (simp add: trim_queue_def Let_def)

lemma trim_ok:
  assumes inv: "images_ok A q"
  shows "images_ok A (trim_queue q)"
proof -
  define n where "n = nat (max (int (length (oq_records q)) - oq_max q) 0)"
  define gone where "gone = take n (sort_key qr_created (oq_records q))"
  have t: "trim_queue q = q\<lparr>oq_records := delete_where (\<lambda>r. qr_id r \<in> set (map qr_id gone)) (oq_records q),
      oq_pending := max 0 (oq_pending q - int (length gone)), oq_files := unlink_all (map qr_path gone) (oq_files q)\<rparr>"
    by (simp add: trim_queue_def Let_def gone_def n_def)
  have d: "distinct (map qr_id (oq_records q))" and c: "oq_pending q = int (length (oq_records q))"
    using inv by (simp_all add: images_ok_def)
  have "length (sort_key qr_created (oq_records (trim_queue q))) = length (oq_records q) - n"
    using arg_cong [OF trim_records [OF d], of length] by (simp add: n_def)
  moreover have "length gone = min n (length (oq_records q))" by (simp add: gone_def min.commute)
  ultimately have len: "oq_pending (trim_queue q) = int (length (oq_records (trim_queue q)))"
    by (auto simp: t c min_def)
  have sub: "set gone \<subseteq> set (oq_records q)" using set_take_subset [of n "sort_key qr_created (oq_records q)"] by (simp add: gone_def)
  have "(\<exists>r \<in> set (oq_records q). qr_id r \<in> qr_id ` set gone \<and> p = qr_path r) \<longleftrightarrow> p \<in> qr_path ` set gone" for p
    using sub distinct_key_eq [OF d] by (auto simp: subset_iff image_iff)
  then have "read_file p (oq_files (trim_queue q)) =
      (if \<exists>r \<in> set (oq_records q). qr_id r \<in> qr_id ` set gone \<and> p = qr_path r then None else read_file p (oq_files q))" for p
    by (simp add: t read_unlink_all)
  from remove_records_ok [OF inv _ _ len this] show ?thesis by (simp add: t)
qed

lemma only_row:
  assumes "distinct (map qr_id rs)" "x \<in> set rs"
  shows "(\<exists>y \<in> set rs. qr_id y \<in> {qr_id x} \<and> p = qr_path y) \<longleftrightarrow> p = qr_path x"
  using distinct_key_eq [OF assms] assms(2) by (metis singletonD singletonI)

lemma acknowledge_record_ok:
  assumes inv: "images_ok A q" and r: "x \<in> set (oq_records q)" "qr_id r = qr_id x" "qr_path r = qr_path x"
  shows "images_ok A (acknowledge_record r q)"
proof (rule remove_records_ok [OF inv, of _ "{qr_id r}"])
  have d: "distinct (map qr_id (oq_records q))" using inv by (simp add: images_ok_def)
  show "oq_pending (acknowledge_record r q) = int (length (oq_records (acknowledge_record r q)))"
    using records_box.count_ack [of q r] inv by (simp add: images_ok_def)
  show "read_file p (oq_files (acknowledge_record r q)) =
      (if \<exists>y \<in> set (oq_records q). qr_id y \<in> {qr_id r} \<and> p = qr_path y then None else read_file p (oq_files q))" for p
    unfolding r(2) only_row [OF d r(1)] by (simp add: acknowledge_record_def delete_record_def Let_def read_unlink r(3))
qed (simp_all add: acknowledge_record_def delete_record_def Let_def)

lemma quarantine_record_ok:
  assumes inv: "images_ok A q" and r: "x \<in> set (oq_records q)" "qr_id r = qr_id x" "qr_path r = qr_path x"
  shows "images_ok A (quarantine_record A nonce now r reason q)"
proof -
  let ?q1 = "q\<lparr>oq_files := move_file (qr_path r) (quarantine_path (oq_dir q) (qr_id r) ''.screenshot.dfq'') (oq_files q)\<rparr>"
  let ?q2 = "write_quarantine A nonce now ''screenshot'' (qr_id r) (record_json r) reason ?q1"
  have d: "distinct (map qr_id (oq_records q))" using inv by (simp add: images_ok_def)
  have path: "qr_path r = image_path (oq_dir q) (qr_id r)" using inv r by (simp add: images_ok_def record_ok_def)
  have same: "oq_dir ?q2 = oq_dir q" "oq_records ?q2 = oq_records q" "oq_pending ?q2 = oq_pending q"
    by (simp_all add: write_quarantine_def Let_def)
  have f: "read_file p (oq_files ?q2) = (if p = qr_path r then None else read_file p (oq_files q))" if p: "in_images (oq_dir q) p" for p
  proof -
    have "read_file p (oq_files ?q2) = read_file p (oq_files ?q1)"
      using quarantine_images [of ?q1] p by (simp add: same_images_def)
    moreover have "p \<noteq> quarantine_path (oq_dir q) (qr_id r) ''.screenshot.dfq''" using p by auto
    ultimately show ?thesis by (simp add: read_move path)
  qed
  show ?thesis
    unfolding quarantine_record_def
  proof (rule remove_records_ok [OF inv, of _ "{qr_id r}"])
    show "oq_pending (delete_record (qr_id r) ?q2) = int (length (oq_records (delete_record (qr_id r) ?q2)))"
      using records_box.count_ack [of ?q2 r] inv same by (simp add: images_ok_def acknowledge_record_def Let_def)
    show "read_file p (oq_files (delete_record (qr_id r) ?q2)) =
      (if \<exists>y \<in> set (oq_records q). qr_id y \<in> {qr_id r} \<and> p = qr_path y then None else read_file p (oq_files q))"
      if "in_images (oq_dir q) p" for p
      using f [OF that] unfolding r(2) only_row [OF d r(1)] by (simp add: delete_record_def r)
  qed (simp_all add: delete_record_def same)
qed

lemma images_okI:
  assumes "distinct (map qr_id (oq_records q))" "oq_pending q = int (length (oq_records q))"
    "\<And>r. r \<in> set (oq_records q) \<Longrightarrow> record_ok A (oq_dir q) (oq_files q) r"
    "\<And>p. p \<in> fst ` set (oq_files q) \<Longrightarrow> in_images (oq_dir q) p \<Longrightarrow> p \<in> qr_path ` set (oq_records q)"
  shows "images_ok A q"
  unfolding images_ok_def using assms by blast

lemma write_image_ok:
  assumes A: "aead_law A" "length nonce = 12" and inv: "images_ok A q" and r: "record_ok A (oq_dir q) (oq_files q) r \<or> qr_id r = i"
    and r': "valid_id (qr_id r)" "qr_path r = image_path (oq_dir q) (qr_id r)" "kept_text A (qr_app r) (qr_id r) ''active_app''"
      "kept_text A (qr_url r) (qr_id r) ''active_url''"
  shows "record_ok A (oq_dir q) (atomic_write (image_path (oq_dir q) i) (seal_bytes A nonce s (utf8_encode i)) (oq_files q)) r"
proof (cases "qr_id r = i")
  case True
  with r' show ?thesis by (simp add: record_ok_def read_atomic open_seal_bytes [OF A])
next
  case False
  with r have "record_ok A (oq_dir q) (oq_files q) r" by blast
  with False r'(2) show ?thesis by (simp add: record_ok_def read_atomic)
qed

lemma images_parts:
  assumes "images_ok A q"
  shows "distinct (map qr_id (oq_records q))" "oq_pending q = int (length (oq_records q))"
    "\<And>r. r \<in> set (oq_records q) \<Longrightarrow> record_ok A (oq_dir q) (oq_files q) r"
    "\<And>p. p \<in> fst ` set (oq_files q) \<Longrightarrow> in_images (oq_dir q) p \<Longrightarrow> p \<in> qr_path ` set (oq_records q)"
  using assms unfolding images_ok_def by blast+

lemma new_images_ok:
  assumes "distinct (map qr_id rows)" "\<And>r. r \<in> set rows \<Longrightarrow> record_ok A (oq_dir q) files r"
    "\<And>p. p \<in> fst ` set files \<Longrightarrow> in_images (oq_dir q) p \<Longrightarrow> p \<in> qr_path ` set rows"
  shows "images_ok A (q\<lparr>oq_files := files, oq_records := rows, oq_pending := int (length rows)\<rparr>)"
  by (rule images_okI) (use assms in simp_all)

lemma add_to_queue_eq:
  assumes "aead_law A" "\<And>n. length (draw n) = 12"
    and files: "files = atomic_write (image_path (oq_dir q) i) (seal_bytes A (draw 0) s (utf8_encode i)) (oq_files q)"
  obtains row where "qr_id row = i" "qr_path row = image_path (oq_dir q) i"
    "kept_text A (qr_app row) i ''active_app''" "kept_text A (qr_url row) i ''active_url''"
    "add_to_queue A draw i now s activity app captured session url blurred q =
      (if exists_row (\<lambda>x. qr_id x = i) (oq_records q) then (q\<lparr>oq_files := files\<rparr>, Inl UniqueViolation)
       else (trim_queue (q\<lparr>oq_files := files, oq_records := oq_records q @ [row], oq_pending := oq_pending q + 1\<rparr>),
         Inr (new_record (oq_dir q) i captured activity app session url blurred)))"
proof -
  define x where "x = new_record (oq_dir q) i captured activity app session url blurred"
  define row where "row = queued_record.extend (x\<lparr>qr_app := seal_text A (draw 1) (qr_app x) i ''active_app'',
      qr_url := seal_text A (draw 2) (qr_url x) i ''active_url''\<rparr>) (queue_row.fields now)"
  have "qr_id row = i" "qr_path row = image_path (oq_dir q) i"
    "kept_text A (qr_app row) i ''active_app''" "kept_text A (qr_url row) i ''active_url''"
    by (simp_all add: row_def x_def new_record_def queued_record.defs queue_row.defs kept_seal [OF assms(1,2)])
  moreover have "qr_id x = i" "qr_path x = image_path (oq_dir q) i" by (simp_all add: x_def new_record_def)
  ultimately show thesis
    by (intro that [of row]) (simp_all add: add_to_queue_def x_def [symmetric] add_screenshot_def Let_def files row_def)
qed

lemma add_to_queue_ok:
  assumes A: "aead_law A" "\<And>n. length (draw n) = 12" and inv: "queue_inv A q" and i: "valid_id i"
  shows "queue_inv A (fst (add_to_queue A draw i now s activity app captured session url blurred q))"
proof -
  define files where "files = atomic_write (image_path (oq_dir q) i) (seal_bytes A (draw 0) s (utf8_encode i)) (oq_files q)"
  obtain row where row: "qr_id row = i" "qr_path row = image_path (oq_dir q) i"
    "kept_text A (qr_app row) i ''active_app''" "kept_text A (qr_url row) i ''active_url''"
    and add: "add_to_queue A draw i now s activity app captured session url blurred q =
      (if exists_row (\<lambda>x. qr_id x = i) (oq_records q) then (q\<lparr>oq_files := files\<rparr>, Inl UniqueViolation)
       else (trim_queue (q\<lparr>oq_files := files, oq_records := oq_records q @ [row], oq_pending := oq_pending q + 1\<rparr>),
         Inr (new_record (oq_dir q) i captured activity app session url blurred)))"
    by (rule add_to_queue_eq [where draw = draw, OF A files_def])
  have im: "images_ok A q" and j: "journals_ok A q" using inv by (simp_all add: queue_inv_def)
  have rok: "record_ok A (oq_dir q) files r" if "r \<in> set (oq_records q) \<or> r = row" for r
    using that
  proof
    assume "r \<in> set (oq_records q)"
    with images_parts(3) [OF im] have r: "record_ok A (oq_dir q) (oq_files q) r" .
    show ?thesis unfolding files_def by (rule write_image_ok [OF A im disjI1 [OF r]]) (use r in \<open>simp_all only: record_ok_def\<close>)
  next
    assume "r = row"
    then show ?thesis unfolding files_def using i row by (intro write_image_ok [OF A im]) (simp_all only: simp_thms)
  qed
  have orphans: "p \<in> insert (image_path (oq_dir q) i) (qr_path ` set (oq_records q))"
    if "p \<in> fst ` set files" "in_images (oq_dir q) p" for p
  proof -
    have "p = image_path (oq_dir q) i \<or> p \<in> fst ` set (oq_files q)" using that(1) unfolding files_def paths_atomic by blast
    with images_parts(4) [OF im _ that(2)] show ?thesis by blast
  qed
  show ?thesis
  proof (cases "exists_row (\<lambda>x. qr_id x = i) (oq_records q)")
    case True
    then obtain x where x: "x \<in> set (oq_records q)" "qr_id x = i" by (auto simp: exists_row_iff)
    then have "image_path (oq_dir q) i \<in> qr_path ` set (oq_records q)" using im by (force simp: images_ok_def record_ok_def)
    then have there: "insert (image_path (oq_dir q) i) (qr_path ` set (oq_records q)) = qr_path ` set (oq_records q)"
      by (rule insert_absorb)
    have "images_ok A (q\<lparr>oq_files := files, oq_records := oq_records q, oq_pending := int (length (oq_records q))\<rparr>)"
    proof (rule new_images_ok [OF images_parts(1) [OF im]])
      show "record_ok A (oq_dir q) files r" if "r \<in> set (oq_records q)" for r using rok that by simp
      show "p \<in> qr_path ` set (oq_records q)" if "p \<in> fst ` set files" "in_images (oq_dir q) p" for p
        using orphans [OF that] unfolding there .
    qed
    then have "images_ok A (q\<lparr>oq_files := files\<rparr>)" by (simp add: images_parts(2) [OF im, symmetric])
    moreover have "journals_ok A (q\<lparr>oq_files := files\<rparr>)" by (rule same_journals_ok [OF j]) simp_all
    ultimately show ?thesis using True by (simp add: add queue_inv_def)
  next
    case False
    let ?q = "q\<lparr>oq_files := files, oq_records := oq_records q @ [row], oq_pending := oq_pending q + 1\<rparr>"
    have "i \<notin> qr_id ` set (oq_records q)" using False by (auto simp: exists_row_iff)
    then have d: "distinct (map qr_id (oq_records q @ [row]))" using images_parts(1) [OF im] row(1) by simp
    have "images_ok A (q\<lparr>oq_files := files, oq_records := oq_records q @ [row],
        oq_pending := int (length (oq_records q @ [row]))\<rparr>)"
    proof (rule new_images_ok [OF d])
      show "record_ok A (oq_dir q) files r" if "r \<in> set (oq_records q @ [row])" for r using rok that by auto
      show "p \<in> qr_path ` set (oq_records q @ [row])" if "p \<in> fst ` set files" "in_images (oq_dir q) p" for p
        using orphans [OF that] row(2) by simp
    qed
    moreover have "int (length (oq_records q @ [row])) = oq_pending q + 1" using images_parts(2) [OF im] by simp
    ultimately have "images_ok A ?q" by (simp only:)
    then have "images_ok A (trim_queue ?q)" by (rule trim_ok)
    moreover have "journals_ok A (trim_queue ?q)" by (rule same_journals_ok [OF j]) (simp_all add: trim_queue_def Let_def)
    ultimately show ?thesis using False by (simp add: add queue_inv_def)
  qed
qed

subsection \<open>Opening the queue again\<close>

lemma seal_plain_kept: "kept_text A v i column \<Longrightarrow> seal_plain A draw i column v = v"
  by (auto simp: kept_text_def seal_plain_def)

lemma upgrade_kept:
  "\<forall>r \<in> set rs. record_ok A dir fs r \<Longrightarrow> upgrade_records A draw dir rs files = (rs, files, [])"
proof (induction rs)
  case (Cons r rs)
  then have "record_ok A dir fs r" and ih: "upgrade_records A draw dir rs files = (rs, files, [])" by simp_all
  then have "seal_plain A draw (qr_id r) ''active_app'' (qr_app r) = qr_app r"
    "seal_plain A draw (qr_id r) ''active_url'' (qr_url r) = qr_url r" "path_suffix (qr_path r) = ''.dfq''"
    by (simp_all add: record_ok_def seal_plain_kept path_suffix_image)
  with ih show ?case by simp
qed simp

lemma initialize_kept:
  assumes "queue_inv A q"
  shows "initialize_queue A draw q = q"
proof -
  have im: "images_ok A q" and j: "journals_ok A q" using assms by (simp_all add: queue_inv_def)
  have rs: "\<forall>r \<in> set (oq_records q). record_ok A (oq_dir q) (oq_files q) r" using im by (simp add: images_ok_def)
  have st: "map (\<lambda>r. r\<lparr>je_note := seal_plain A draw (je_id r) ''note'' (je_note r)\<rparr>) (oq_states q) = oq_states q"
    using j by (intro map_idI) (simp add: journals_ok_def state_ok_def seal_plain_kept)
  have us: "map (\<lambda>r. r\<lparr>ue_app := seal_plain A draw (ue_id r) ''active_app'' (ue_app r),
      ue_url := seal_plain A draw (ue_id r) ''active_url'' (ue_url r)\<rparr>) (oq_usage q) = oq_usage q"
    using j by (intro map_idI) (simp add: journals_ok_def usage_ok_def seal_plain_kept)
  have "keep_image (oq_dir q) (map qr_path (oq_records q)) (fst f)" if "f \<in> set (oq_files q)" for f
  proof (cases "in_images (oq_dir q) (fst f)")
    case True
    with im that obtain r where "r \<in> set (oq_records q)" "fst f = qr_path r" unfolding images_ok_def by blast
    with rs show ?thesis by (auto simp: keep_image_def record_ok_def path_suffix_image)
  qed (simp add: in_images_def keep_image_def)
  then have fs: "filter (\<lambda>f. keep_image (oq_dir q) (map qr_path (oq_records q)) (fst f)) (oq_files q) = oq_files q"
    by (simp add: filter_id_conv)
  have counts: "oq_pending q = int (length (oq_records q))" "oq_pending_states q = int (length (oq_states q))"
    "oq_pending_usage q = int (length (oq_usage q))" using im j by (simp_all add: images_ok_def journals_ok_def)
  show ?thesis
    unfolding initialize_queue_def upgrade_kept [OF rs] Let_def prod.case st us unlink_all_def fold_simps id_apply fs counts [symmetric]
    by simp
qed





subsection \<open>Runs\<close>

text \<open>
  What the agent does with its queue: it journals, and it sends the oldest entry of an outbox,
  which the server accepts or rejects for good.  \<open>Reopened\<close> is a restart with the same key.
\<close>

datatype queue_op =
    Journal_State bytes string journal_event
  | Journal_Usage bytes bytes string usage_event
  | Journal_Screenshot "nat \<Rightarrow> bytes" string string bytes activity_snapshot string string string string bool
  | Keep_Local bytes string string string
  | State_Sent
  | Usage_Sent
  | Screenshot_Sent
  | State_Rejected bytes string string
  | Usage_Rejected bytes string string
  | Screenshot_Rejected bytes string string
  | Reopened "string \<Rightarrow> string \<Rightarrow> bytes"

definition with_oldest :: "(int \<Rightarrow> offline_queue \<Rightarrow> error + 'e list) \<Rightarrow> ('e \<Rightarrow> offline_queue \<Rightarrow> offline_queue) \<Rightarrow>
    offline_queue \<Rightarrow> error + offline_queue" where
  "with_oldest pending f q = (case pending 1 q of Inl e \<Rightarrow> Inl e | Inr [] \<Rightarrow> Inr q | Inr (e # _) \<Rightarrow> Inr (f e q))"

fun queue_exec :: "aead \<Rightarrow> queue_op \<Rightarrow> offline_queue \<Rightarrow> error + offline_queue" where
  "queue_exec A (Journal_State nonce now e) q = map_sum (\<lambda>e. e) fst (add_state A nonce now e q)"
| "queue_exec A (Journal_Usage nonce nonce' now e) q = map_sum (\<lambda>e. e) fst (add_usage A nonce nonce' now e q)"
| "queue_exec A (Journal_Screenshot draw i now s activity app captured session url blurred) q =
     Inr (fst (add_to_queue A draw i now s activity app captured session url blurred q))"
| "queue_exec A (Keep_Local nonce now key v) q = set_local_state A nonce now key v q"
| "queue_exec A State_Sent q = with_oldest (pending_states A) acknowledge_state q"
| "queue_exec A Usage_Sent q = with_oldest (pending_usage A) acknowledge_usage q"
| "queue_exec A Screenshot_Sent q = with_oldest (pending_records A) acknowledge_record q"
| "queue_exec A (State_Rejected nonce now reason) q =
     with_oldest (pending_states A) (\<lambda>e. quarantine_state A nonce now e reason) q"
| "queue_exec A (Usage_Rejected nonce now reason) q =
     with_oldest (pending_usage A) (\<lambda>e. quarantine_usage A nonce now e reason) q"
| "queue_exec A (Screenshot_Rejected nonce now reason) q =
     with_oldest (pending_records A) (\<lambda>r. quarantine_record A nonce now r reason) q"
| "queue_exec A (Reopened draw) q = Inr (initialize_queue A draw q)"

text \<open>Nonces have twelve bytes, and ids are text without a slash.\<close>

definition drawn :: "queue_op \<Rightarrow> bool" where
  "drawn c \<longleftrightarrow> (case c of
     Journal_State nonce now e \<Rightarrow> length nonce = 12
   | Journal_Usage nonce nonce' now e \<Rightarrow> length nonce = 12 \<and> length nonce' = 12
   | Journal_Screenshot draw i now s activity app captured session url blurred \<Rightarrow> valid_id i \<and> (\<forall>n. length (draw n) = 12)
   | Keep_Local nonce now key v \<Rightarrow> length nonce = 12
   | _ \<Rightarrow> True)"

lemma with_oldest_Inr:
  "with_oldest pending f q = Inr q' \<Longrightarrow> q' = q \<or> (\<exists>e es. pending 1 q = Inr (e # es) \<and> q' = f e q)"
  by (auto simp: with_oldest_def split: sum.splits list.splits)

lemma open_record_row: "open_record A x = Inr r \<Longrightarrow> qr_id r = qr_id x \<and> qr_path r = qr_path x"
  by (auto simp: open_record_def queued_record.defs split: sum.splits)

lemma oldest_record:
  assumes "pending_records A 1 q = Inr (r # rs)"
  shows "\<exists>x \<in> set (oq_records q). open_record A x = Inr r \<and> qr_id r = qr_id x \<and> qr_path r = qr_path x"
proof -
  from records_box.pending_head [OF assms] obtain x xs where "sort_key qr_created (oq_records q) = x # xs" "open_record A x = Inr r"
    by blast
  moreover from this(1) have "x \<in> set (oq_records q)" by (metis list.set_intros(1) set_sort)
  ultimately show ?thesis using open_record_row by blast
qed

lemma record_journals:
  "journals_ok A q \<Longrightarrow> journals_ok A (acknowledge_record r q) \<and> journals_ok A (quarantine_record A nonce now r reason q)"
  by (auto intro!: same_journals_ok [of A q] simp: acknowledge_record_def quarantine_record_def delete_record_def write_quarantine_def Let_def)

lemma sent_screenshot_ok:
  assumes inv: "queue_inv A q" and r: "pending_records A 1 q = Inr (r # rs)"
  shows "queue_inv A (acknowledge_record r q) \<and> queue_inv A (quarantine_record A nonce now r reason q)"
  using oldest_record [OF r] acknowledge_record_ok [of A q _ r] quarantine_record_ok [of A q _ r nonce now reason]
    record_journals [of A q r nonce now reason] inv unfolding queue_inv_def by blast

lemma queue_exec_ok:
  assumes A: "aead_law A" and inv: "queue_inv A q" and c: "drawn c" and r: "queue_exec A c q = Inr q'"
  shows "queue_inv A q'"
proof (cases c)
  case Journal_State
  with r c show ?thesis by (auto simp: map_fst_Inr drawn_def intro: add_state_ok [OF A _ inv])
next
  case Journal_Usage
  with r c show ?thesis by (auto simp: map_fst_Inr drawn_def intro: add_usage_ok [OF A _ _ inv])
next
  case Journal_Screenshot
  with r c show ?thesis by (auto simp: drawn_def intro: add_to_queue_ok [OF A _ inv])
next
  case Keep_Local
  with r c show ?thesis by (auto simp: drawn_def intro: set_local_state_ok [OF A _ inv])
next
  case Screenshot_Sent
  with r sent_screenshot_ok [OF inv] inv show ?thesis by (auto dest!: with_oldest_Inr)
next
  case Screenshot_Rejected
  with r sent_screenshot_ok [OF inv] inv show ?thesis by (auto dest!: with_oldest_Inr)
next
  case Reopened
  with r initialize_kept [OF inv] inv show ?thesis by simp
qed (use r inv delete_states_ok delete_usage_ok quarantine_states_ok quarantine_usage_ok in \<open>auto dest!: with_oldest_Inr\<close>)

interpretation queue_run: transactional "queue_exec A" "\<lambda>q. aead_law A \<and> queue_inv A q" drawn for A
  by unfold_locales (use queue_exec_ok in blast)

definition fresh_queue :: "string \<Rightarrow> int \<Rightarrow> offline_queue" where
  "fresh_queue dir limit = \<lparr>oq_dir = dir, oq_max = limit, oq_files = [], oq_records = [], oq_states = [], oq_usage = [],
     oq_local = [], oq_pending = 0, oq_pending_states = 0, oq_pending_usage = 0, oq_quarantined = 0\<rparr>"

lemma fresh_queue_inv: "queue_inv A (fresh_queue dir limit)"
  by (simp add: queue_inv_def images_ok_def journals_ok_def fresh_queue_def)

text \<open>C18. Over any sequence of journaling, sending, rejection and restart the queue stays sound: ids
  are unique, the cached counters are the numbers of rows, every note, application, domain and
  local value at rest is sealed and opens with the device key, each queued screenshot has an
  image that opens, and no other file is kept among the images.\<close>

theorem queue_runs:
  assumes "aead_law A" and "queue_inv A q" and "list_all drawn cs"
  shows "queue_inv A (exec_all (queue_exec A) cs q)"
  using queue_run.exec_all_inv [of A q cs] assms by simp

text \<open>Restarting with the same key changes nothing: whatever ran before, opening the queue again
  gives the queue that was left.\<close>

theorem reopen_keeps:
  assumes "aead_law A" and "list_all drawn cs"
  shows "initialize_queue A draw (exec_all (queue_exec A) cs (fresh_queue dir limit)) =
    exec_all (queue_exec A) cs (fresh_queue dir limit)"
  using queue_run.exec_all_inv [of A "fresh_queue dir limit" cs] assms fresh_queue_inv by (simp add: initialize_kept)

text \<open>Sending is complete and in order.  On a sound queue as many successful rounds as there are
  rows send every row of an outbox, oldest first and readable, and leave it empty.\<close>

theorem outboxes_drain:
  assumes "queue_inv A q"
  shows "(\<exists>es. traverse (open_state A) (sort_key state_order (oq_states q)) = Inr es \<and>
      fst (drain (pending_states A) acknowledge_state (length (oq_states q)) q) = es \<and>
      oq_states (snd (drain (pending_states A) acknowledge_state (length (oq_states q)) q)) = []) \<and>
    (\<exists>es. traverse (open_usage A) (sort_key usage_order (oq_usage q)) = Inr es \<and>
      fst (drain (pending_usage A) acknowledge_usage (length (oq_usage q)) q) = es \<and>
      oq_usage (snd (drain (pending_usage A) acknowledge_usage (length (oq_usage q)) q)) = []) \<and>
    (\<exists>es. traverse (open_record A) (sort_key qr_created (oq_records q)) = Inr es \<and>
      fst (drain (pending_records A) acknowledge_record (length (oq_records q)) q) = es \<and>
      oq_records (snd (drain (pending_records A) acknowledge_record (length (oq_records q)) q)) = [])"
proof -
  have d: "distinct (map je_id (oq_states q))" "distinct (map ue_id (oq_usage q))" "distinct (map qr_id (oq_records q))"
    using assms by (simp_all add: queue_inv_def images_ok_def journals_ok_def)
  have "\<forall>r \<in> set (oq_states q). \<exists>e. open_state A r = Inr e" "\<forall>r \<in> set (oq_usage q). \<exists>e. open_usage A r = Inr e"
    "\<forall>r \<in> set (oq_records q). \<exists>e. open_record A r = Inr e"
    using assms open_state_ok open_usage_ok open_record_ok by (fastforce simp: queue_inv_def images_ok_def journals_ok_def)+
  then show ?thesis
    using states_box.drain_all [OF d(1)] usage_box.drain_all [OF d(2)] records_box.drain_all [OF d(3)] by blast
qed

lemma deleted_key: "i \<in> k ` set (delete_where (\<lambda>r. k r \<in> set gone) rows) \<Longrightarrow> i \<notin> set gone"
  by (auto simp: delete_where_def)

text \<open>C33. The queue never outgrows its limit: after a screenshot is added at most \<open>max_items\<close> rows
  are left, the newest ones, and a screenshot that is still queued reads back as the bytes that
  were captured.\<close>

theorem add_to_queue_bounded:
  assumes A: "aead_law A" "\<And>n. length (draw n) = 12" and inv: "queue_inv A q" and i: "valid_id i"
    and r: "add_to_queue A draw i now s activity app captured session url blurred q = (q', Inr r)"
  shows "int (length (oq_records q')) \<le> max 0 (oq_max q) \<and>
    (\<exists>row. sort_key qr_created (oq_records q') =
       drop (nat (max (int (length (oq_records q)) + 1 - oq_max q) 0)) (sort_key qr_created (oq_records q @ [row]))) \<and>
    (i \<in> qr_id ` set (oq_records q') \<longrightarrow> read_screenshot A r q' = Inr s)"
proof -
  define files where "files = atomic_write (image_path (oq_dir q) i) (seal_bytes A (draw 0) s (utf8_encode i)) (oq_files q)"
  obtain row where row: "qr_id row = i" "qr_path row = image_path (oq_dir q) i"
    and add: "add_to_queue A draw i now s activity app captured session url blurred q =
      (if exists_row (\<lambda>x. qr_id x = i) (oq_records q) then (q\<lparr>oq_files := files\<rparr>, Inl UniqueViolation)
       else (trim_queue (q\<lparr>oq_files := files, oq_records := oq_records q @ [row], oq_pending := oq_pending q + 1\<rparr>),
         Inr (new_record (oq_dir q) i captured activity app session url blurred)))"
    by (rule add_to_queue_eq [where draw = draw, OF A files_def])
  from r [unfolded add] have new: "i \<notin> qr_id ` set (oq_records q)"
    and rec: "r = new_record (oq_dir q) i captured activity app session url blurred"
    and q': "q' = trim_queue (q\<lparr>oq_files := files, oq_records := oq_records q @ [row], oq_pending := oq_pending q + 1\<rparr>)"
    by (auto simp: exists_row_iff split: if_splits)
  have rid: "qr_id r = i" "qr_path r = image_path (oq_dir q) i" by (simp_all add: rec new_record_def)
  let ?q = "q\<lparr>oq_files := files, oq_records := oq_records q @ [row], oq_pending := oq_pending q + 1\<rparr>"
  have d: "distinct (map qr_id (oq_records ?q))" using inv new row by (simp add: queue_inv_def images_ok_def)
  have s: "sort_key qr_created (oq_records q') =
      drop (nat (max (int (length (oq_records q)) + 1 - oq_max q) 0)) (sort_key qr_created (oq_records q @ [row]))"
    using trim_records [OF d] by (simp add: q' algebra_simps)
  have "int (length (oq_records q')) \<le> max 0 (oq_max q)" using arg_cong [OF s, of length] by simp
  moreover have "read_screenshot A r q' = Inr s" if "i \<in> qr_id ` set (oq_records q')"
  proof -
    let ?gone = "take (nat (max (int (length (oq_records ?q)) - oq_max ?q) 0)) (sort_key qr_created (oq_records ?q))"
    have t: "oq_records q' = delete_where (\<lambda>r. qr_id r \<in> set (map qr_id ?gone)) (oq_records ?q)"
      "oq_files q' = unlink_all (map qr_path ?gone) files"
      by (simp_all only: q' trim_queue_def Let_def) simp_all
    have "i \<notin> qr_id ` set ?gone" using deleted_key [OF that [unfolded t(1)]] by (simp del: take_map)
    moreover have "qr_path x = image_path (oq_dir q) (qr_id x)" if "x \<in> set ?gone" for x
    proof -
      have "x \<in> set (oq_records q @ [row])" using in_set_takeD [OF that] by simp
      then show ?thesis using inv row by (auto simp: queue_inv_def images_ok_def record_ok_def)
    qed
    ultimately have "image_path (oq_dir q) i \<notin> set (map qr_path ?gone)" by (auto simp del: take_map)
    then have "read_file (qr_path r) (oq_files q') = Some (seal_bytes A (draw 0) s (utf8_encode i))"
      unfolding t(2) read_unlink_all rid(2) by (simp add: files_def read_atomic)
    then show ?thesis by (simp add: read_screenshot_def rid(1) open_seal_bytes [OF A])
  qed
  ultimately show ?thesis using s by blast
qed




subsection \<open>Examples\<close>

definition nonce12 :: bytes where "nonce12 = replicate 12 CHR ''n''"

lemma length_nonce12 [simp]: "length nonce12 = 12" by (simp add: nonce12_def)

definition sample_state :: "string \<Rightarrow> string \<Rightarrow> journal_event" where
  "sample_state i t = new_state i t ''active'' ''k'' ''p'' ''deep work'' 0 60 True"

definition sample_ops :: "queue_op list" where
  "sample_ops = [Journal_State nonce12 ''t2'' (sample_state ''a'' ''t2''), Journal_State nonce12 ''t3'' (sample_state ''b'' ''t1''),
     Journal_Screenshot (\<lambda>_. nonce12) ''s1'' ''t4'' ''jpeg'' \<lparr>an_keys = 1, an_clicks = 2, an_distance = 3, an_focused = 4,
       an_interactive = 5, an_automation = False\<rparr> ''Editor'' ''t4'' [] ''http://x'' False,
     Screenshot_Rejected nonce12 ''t5'' ''no'', State_Sent, Reopened (\<lambda>_ _. nonce12)]"

lemma sample_drawn: "list_all drawn sample_ops"
  by (simp add: sample_ops_def drawn_def valid_id_def)

lemma new_queue_inv: "queue_inv plain_aead (fresh_queue ''d'' 5)" by (rule fresh_queue_inv)

theorem queue_runs_witness: "queue_inv plain_aead (exec_all (queue_exec plain_aead) sample_ops (fresh_queue ''d'' 5))"
  by (rule queue_runs [OF plain_aead_law new_queue_inv sample_drawn])

theorem reopen_keeps_witness:
  "initialize_queue plain_aead (\<lambda>_ _. nonce12) (exec_all (queue_exec plain_aead) sample_ops (fresh_queue ''d'' 5)) =
     exec_all (queue_exec plain_aead) sample_ops (fresh_queue ''d'' 5)"
  by (rule reopen_keeps [OF plain_aead_law sample_drawn])

definition two_states :: offline_queue where
  "two_states = exec_all (queue_exec plain_aead) (take 2 sample_ops) (fresh_queue ''d'' 5)"

lemma two_states_inv: "queue_inv plain_aead two_states"
proof -
  have "list_all drawn (take 2 sample_ops)" by (simp add: sample_ops_def drawn_def)
  from queue_run.exec_all_inv [OF conjI [OF plain_aead_law new_queue_inv] this] show ?thesis by (simp only: two_states_def)
qed

theorem outboxes_drain_witness:
  "map je_id (fst (drain (pending_states plain_aead) acknowledge_state 2 two_states)) = [''b'', ''a''] \<and>
   oq_states (snd (drain (pending_states plain_aead) acknowledge_state (length (oq_states two_states)) two_states)) = []"
proof
  show "map je_id (fst (drain (pending_states plain_aead) acknowledge_state 2 two_states)) = [''b'', ''a'']" by code_simp
  show "oq_states (snd (drain (pending_states plain_aead) acknowledge_state (length (oq_states two_states)) two_states)) = []"
    using outboxes_drain [OF two_states_inv] by blast
qed

theorem add_to_queue_bounded_witness:
  "(let q' = fst (add_to_queue plain_aead (\<lambda>_. nonce12) ''s1'' ''t4'' ''jpeg'' \<lparr>an_keys = 1, an_clicks = 2, an_distance = 3, an_focused = 4,
       an_interactive = 5, an_automation = False\<rparr> ''Editor'' ''t4'' [] ''http://x'' False two_states)
    in int (length (oq_records q')) \<le> max 0 (oq_max two_states))"
proof -
  let ?r = "add_to_queue plain_aead (\<lambda>_. nonce12) ''s1'' ''t4'' ''jpeg'' \<lparr>an_keys = 1, an_clicks = 2, an_distance = 3, an_focused = 4,
       an_interactive = 5, an_automation = False\<rparr> ''Editor'' ''t4'' [] ''http://x'' False two_states"
  have "\<not> isl (snd ?r)" by code_simp
  then obtain q' r where r: "?r = (q', Inr r)" by (cases ?r; cases "snd ?r") auto
  have "valid_id ''s1''" by (simp add: valid_id_def)
  from add_to_queue_bounded [OF plain_aead_law _ two_states_inv this r] r show ?thesis by simp
qed



text \<open>A row that does not open with the key, at the head of the queue, stops every later one.\<close>

definition damaged_queue :: offline_queue where
  "damaged_queue = two_states\<lparr>oq_states := update_where (\<lambda>r. je_id r = ''b'') (\<lambda>r. r\<lparr>je_note := ''dfenc1:'' @ ''AAAA''\<rparr>) (oq_states two_states)\<rparr>"

lemma damaged_row_blocks: "drain (pending_states plain_aead) acknowledge_state n damaged_queue = ([], damaged_queue)"
proof -
  obtain r rs where s: "sort_key state_order (oq_states damaged_queue) = r # rs"
    and o: "isl (open_state plain_aead r)"
  proof -
    have "(case sort_key state_order (oq_states damaged_queue) of [] \<Rightarrow> False | r # rs \<Rightarrow> isl (open_state plain_aead r))"
      by code_simp
    then show thesis using that by (cases "sort_key state_order (oq_states damaged_queue)") auto
  qed
  from o obtain e where "open_state plain_aead r = Inl e" by (cases "open_state plain_aead r") auto
  with states_box.drain_blocked [OF s] show ?thesis .
qed

end
