(* ===== verification/Agent_Windows.thy ===== *)
theory Agent_Windows
  imports Sealing Calendar
begin

section \<open>Windows of automatic tracking and of reminders\<close>

text \<open>
  \<open>agent/automatic.py\<close> and \<open>agent/reminders.py\<close>.  Policies and settings arrive as JSON and are
  checked with \<open>isinstance\<close>, so they are \<open>json\<close> here.  The agent calls both modules with
  \<open>datetime.now().astimezone()\<close>, whose zone is a fixed offset: a wall clock in it is the instant
  plus the offset, and comparing two datetimes of the zone is comparing wall clocks.
\<close>

subsection \<open>Dynamic values\<close>

text \<open>\<open>value.get(key)\<close>, \<open>None\<close> when the key is absent.\<close>

definition jget :: "string \<Rightarrow> (string \<times> json) list \<Rightarrow> json" where
  "jget key kvs = (case map_of kvs key of None \<Rightarrow> JNull | Some v \<Rightarrow> v)"

definition jget_or :: "string \<Rightarrow> json \<Rightarrow> (string \<times> json) list \<Rightarrow> json" where
  "jget_or key absent kvs = (case map_of kvs key of None \<Rightarrow> absent | Some v \<Rightarrow> v)"

fun jtruthy :: "json \<Rightarrow> bool" where
  "jtruthy JNull = False"
| "jtruthy (JInt i) = (i \<noteq> 0)"
| "jtruthy (JBool b) = b"
| "jtruthy (JString s) = (s \<noteq> [])"
| "jtruthy (JList vs) = (vs \<noteq> [])"
| "jtruthy (JObject kvs) = (kvs \<noteq> [])"

text \<open>\<open>str(value)\<close> of a scalar; the text of a list or an object is \<open>show\<close>.\<close>

definition int_text :: "int \<Rightarrow> string" where
  "int_text i = (if i < 0 then CHR ''-'' # digits (nat (- i)) else digits (nat i))"

fun jstr :: "(json \<Rightarrow> string) \<Rightarrow> json \<Rightarrow> string" where
  "jstr show JNull = ''None''"
| "jstr show (JInt i) = int_text i"
| "jstr show (JBool b) = (if b then ''True'' else ''False'')"
| "jstr show (JString s) = s"
| "jstr show v = show v"

definition ascii_digit :: "char \<Rightarrow> bool" where "ascii_digit c \<longleftrightarrow> 48 \<le> code c \<and> code c \<le> 57"

definition nat_of_digits :: "string \<Rightarrow> nat" where
  "nat_of_digits s = foldl (\<lambda>acc c. acc * 10 + (code c - 48)) 0 s"

text \<open>\<open>int(s)\<close>: white space around, a sign, and underscores between digits.\<close>

fun digit_groups :: "string \<Rightarrow> bool" where
  "digit_groups [] = False"
| "digit_groups [c] = ascii_digit c"
| "digit_groups (c # d # cs) = (ascii_digit c \<and> (if d = CHR ''_'' then digit_groups cs else digit_groups (d # cs)))"

definition py_int :: "string \<Rightarrow> int option" where
  "py_int s =
     (let t = strip s; u = (if t \<noteq> [] \<and> hd t \<in> {CHR ''-'', CHR ''+''} then tl t else t)
      in if digit_groups u
         then Some (if t \<noteq> [] \<and> hd t = CHR ''-'' then - int (nat_of_digits (filter ascii_digit u))
           else int (nat_of_digits (filter ascii_digit u)))
         else None)"

subsection \<open>Texts of dates and times\<close>

definition zero_pad :: "nat \<Rightarrow> int \<Rightarrow> string" where
  "zero_pad n i = (let s = digits (nat i) in replicate (n - length s) CHR ''0'' @ s)"

text \<open>\<open>str(date)\<close>, \<open>str(time)\<close> of a time without microseconds, and \<open>isoformat()\<close> in an offset.\<close>

definition date_text :: "date \<Rightarrow> string" where
  "date_text d = zero_pad 4 (year_of d) @ ''-'' @ zero_pad 2 (month_of d) @ ''-'' @ zero_pad 2 (day_of d)"

definition clock_text :: "int \<Rightarrow> string" where
  "clock_text c = (let s = c div usec_per_second
     in zero_pad 2 (s div 3600) @ '':'' @ zero_pad 2 (s div 60 mod 60) @ '':'' @ zero_pad 2 (s mod 60))"

definition micro_text :: "int \<Rightarrow> string" where
  "micro_text c = (let u = c mod usec_per_second in if u = 0 then [] else ''.'' @ zero_pad 6 u)"

definition offset_text :: "int \<Rightarrow> string" where
  "offset_text offset = (let a = \<bar>offset\<bar>; s = a div usec_per_second
     in (if offset < 0 then ''-'' else ''+'') @ zero_pad 2 (s div 3600) @ '':'' @ zero_pad 2 (s div 60 mod 60) @
        (if a mod (60 * usec_per_second) = 0 then [] else '':'' @ zero_pad 2 (s mod 60) @ micro_text a))"

definition iso_text :: "int \<Rightarrow> int \<Rightarrow> string" where
  "iso_text wall offset = date_text (date_of wall) @ ''T'' @ clock_text (time_of wall) @ micro_text (time_of wall) @ offset_text offset"

text \<open>\<open>_clock\<close>: \<open>strptime\<close> with \<open>%H:%M\<close> on a text of five characters, in microseconds.\<close>

definition digit_value :: "char \<Rightarrow> int option" where
  "digit_value c = (if 48 \<le> code c \<and> code c \<le> 57 then Some (int (code c) - 48) else None)"

fun parse_clock :: "json \<Rightarrow> int option" where
  "parse_clock (JString [h, h', c, m, m']) =
     (case (digit_value h, digit_value h', digit_value m, digit_value m') of
        (Some a, Some b, Some x, Some y) \<Rightarrow>
          if c = CHR '':'' \<and> 10 * a + b < 24 \<and> x < 6
          then Some (((10 * a + b) * 60 + 10 * x + y) * 60 * usec_per_second) else None
      | _ \<Rightarrow> None)"
| "parse_clock v = None"

definition day_names :: "string list" where
  "day_names = [''mon'', ''tue'', ''wed'', ''thu'', ''fri'', ''sat'', ''sun'']"

definition day_name :: "date \<Rightarrow> string" where
  "day_name d = day_names ! nat (weekday d)"

text \<open>
  The occurrence of a daily interval that starts on a date, over midnight when its end is not
  after its start; and the first of several windows that has the least start.
\<close>

definition occurrence :: "date \<Rightarrow> int \<Rightarrow> int \<Rightarrow> int \<times> int" where
  "occurrence working_date starts ends =
     (combine working_date starts, combine (if ends \<le> starts then working_date + 1 else working_date) ends)"

fun earliest :: "('a \<Rightarrow> int) \<Rightarrow> 'a list \<Rightarrow> 'a option" where
  "earliest k [] = None"
| "earliest k (x # xs) = (case earliest k xs of None \<Rightarrow> Some x | Some y \<Rightarrow> Some (if k x \<le> k y then x else y))"

subsection \<open>Automatic tracking\<close>

record active_window =
  aw_key :: string
  aw_project :: string
  aw_ends :: timestamp

text \<open>A candidate: its start and end on the wall clock and its identity.\<close>

definition interval_candidates :: "date \<Rightarrow> int \<Rightarrow> json \<Rightarrow> (int \<times> int \<times> string) list" where
  "interval_candidates working_date wall interval =
     (case interval of
        JObject kvs \<Rightarrow>
          (case (parse_clock (jget ''start'' kvs), parse_clock (jget ''end'' kvs)) of
             (Some starts, Some ends) \<Rightarrow>
               if starts = ends then []
               else
                 let (starts_at, ends_at) = occurrence working_date starts ends
                 in if starts_at \<le> wall \<and> wall < ends_at
                    then [(starts_at, ends_at, date_text working_date @ '':'' @ clock_text starts @ '':'' @ clock_text ends)]
                    else []
           | _ \<Rightarrow> [])
      | _ \<Rightarrow> [])"

definition fixed_window :: "(json \<Rightarrow> string) \<Rightarrow> (string \<times> json) list \<Rightarrow> timestamp \<Rightarrow> int \<Rightarrow> active_window option" where
  "fixed_window show policy now offset =
     (case jget ''schedule'' policy of
        JObject schedule \<Rightarrow>
          (let wall = now + offset; today = date_of wall;
               candidates = concat (map (\<lambda>working_date.
                 case jget_or (day_name working_date) (JList []) schedule of
                   JList intervals \<Rightarrow> concat (map (interval_candidates working_date wall) (take 8 intervals))
                 | _ \<Rightarrow> []) [today - 1, today])
           in map_option (\<lambda>(starts_at, ends_at, identity).
                \<lparr>aw_key = jstr show (jget_or ''id'' (JString []) policy) @ '':fixed:'' @ identity,
                 aw_project = jstr show (jget_or ''project_id'' (JString []) policy), aw_ends = ends_at - offset\<rparr>)
              (earliest fst candidates))
      | _ \<Rightarrow> None)"

text \<open>
  \<open>parse\<close> is \<open>datetime.fromisoformat\<close>: \<open>None\<close> when it raises, otherwise the wall clock and the
  offset, if the text has one.
\<close>

definition shift_candidate ::
  "(json \<Rightarrow> string) \<Rightarrow> (string \<Rightarrow> (int \<times> int option) option) \<Rightarrow> (string \<times> json) list \<Rightarrow> timestamp \<Rightarrow> json \<Rightarrow>
   (timestamp \<times> timestamp \<times> string) list" where
  "shift_candidate show parse policy now window =
     (case window of
        JObject kvs \<Rightarrow>
          (case (map_of kvs ''starts_at'', map_of kvs ''ends_at'') of
             (Some s, Some e) \<Rightarrow>
               (case (parse (jstr show s), parse (jstr show e)) of
                  (Some (sw, Some so), Some (ew, Some eo)) \<Rightarrow>
                    if sw - so \<le> now \<and> now < ew - eo
                    then [(sw - so, ew - eo,
                      (let p = jget ''project_id'' kvs
                       in jstr show (if jtruthy p then p else jget_or ''project_id'' (JString []) policy)))]
                    else []
                | _ \<Rightarrow> [])
           | _ \<Rightarrow> [])
      | _ \<Rightarrow> [])"

definition shift_window ::
  "(json \<Rightarrow> string) \<Rightarrow> (string \<Rightarrow> (int \<times> int option) option) \<Rightarrow> (string \<times> json) list \<Rightarrow> timestamp \<Rightarrow> active_window option" where
  "shift_window show parse policy now =
     (case jget ''shift_windows'' policy of
        JList windows \<Rightarrow>
          map_option (\<lambda>(starts_at, ends_at, project_id).
            \<lparr>aw_key = jstr show (jget_or ''id'' (JString []) policy) @ '':shift:'' @ iso_text starts_at 0 @ '':'' @ iso_text ends_at 0,
             aw_project = project_id, aw_ends = ends_at\<rparr>)
            (earliest fst (concat (map (shift_candidate show parse policy now) (take 100 windows))))
      | _ \<Rightarrow> None)"

definition active_window ::
  "(json \<Rightarrow> string) \<Rightarrow> (string \<Rightarrow> (int \<times> int option) option) \<Rightarrow> (string \<times> json) list option \<Rightarrow> timestamp \<Rightarrow> int \<Rightarrow>
   active_window option" where
  "active_window show parse policy now offset =
     (case policy of
        None \<Rightarrow> None
      | Some kvs \<Rightarrow>
          if kvs = [] \<or> jget ''consent_status'' kvs \<noteq> JString ''accepted'' then None
          else if jget ''rule_type'' kvs = JString ''fixed_schedule'' then fixed_window show kvs now offset
          else if jget ''rule_type'' kvs = JString ''shifts'' then shift_window show parse kvs now
          else None)"

subsection \<open>Reminders\<close>

record reminder_settings =
  rs_enabled :: bool
  rs_start :: string
  rs_end :: string
  rs_days :: "string list"
  rs_interval :: int
  rs_mode :: string

definition default_reminders :: reminder_settings where
  "default_reminders = \<lparr>rs_enabled = False, rs_start = ''09:00'', rs_end = ''17:00'',
     rs_days = [''mon'', ''tue'', ''wed'', ''thu'', ''fri''], rs_interval = 15, rs_mode = ''notification''\<rparr>"

definition parse_days :: "json \<Rightarrow> string list option" where
  "parse_days v = (case v of
     JList ds \<Rightarrow> if list_all (\<lambda>d. case d of JString _ \<Rightarrow> True | _ \<Rightarrow> False) ds
                then Some (map (\<lambda>d. case d of JString s \<Rightarrow> s | _ \<Rightarrow> []) ds) else None
   | _ \<Rightarrow> None)"

definition valid_days :: "string list \<Rightarrow> bool" where
  "valid_days ds \<longleftrightarrow> ds \<noteq> [] \<and> length ds \<le> length day_names \<and> set ds \<subseteq> set day_names \<and> distinct ds"

text \<open>
  \<open>ReminderSettings.from_mapping\<close>; a value that is no object or not valid gives the defaults
  unless \<open>strict\<close>.  The mode is looked up in a set last, and a list or an object cannot be hashed.
\<close>

definition reminders_from_mapping :: "json \<Rightarrow> bool \<Rightarrow> error + reminder_settings" where
  "reminders_from_mapping v strict =
     (case v of
        JObject kvs \<Rightarrow>
          (let invalid = (if strict then Inl (ValueError ''Use valid start/end times, one or more unique days'') else Inr default_reminders)
           in case (jget_or ''enabled'' (JBool False) kvs, jget_or ''start'' (JString ''09:00'') kvs, jget_or ''end'' (JString ''17:00'') kvs,
               parse_days (jget_or ''days'' (JList (map JString (rs_days default_reminders))) kvs),
               jget_or ''interval_minutes'' (JInt 15) kvs) of
                (JBool enabled, JString start, JString ends, Some ds, JInt interval) \<Rightarrow>
                  if parse_clock (JString start) \<noteq> None \<and> parse_clock (JString ends) \<noteq> None \<and> start \<noteq> ends \<and>
                     valid_days ds \<and> 5 \<le> interval \<and> interval \<le> 240
                  then case jget_or ''mode'' (JString ''notification'') kvs of
                         JString mode \<Rightarrow>
                           if mode \<in> {''notification'', ''alert''}
                           then Inr \<lparr>rs_enabled = enabled, rs_start = start, rs_end = ends,
                             rs_days = filter (\<lambda>d. d \<in> set ds) day_names, rs_interval = interval, rs_mode = mode\<rparr>
                           else invalid
                       | JList _ \<Rightarrow> Inl (RuntimeError ''unhashable type'')
                       | JObject _ \<Rightarrow> Inl (RuntimeError ''unhashable type'')
                       | _ \<Rightarrow> invalid
                  else invalid
              | _ \<Rightarrow> invalid)
      | _ \<Rightarrow> if strict then Inl (ValueError ''Reminder settings must be an object'') else Inr default_reminders)"

definition reminders_as_dict :: "reminder_settings \<Rightarrow> json" where
  "reminders_as_dict r = JObject
     [(''enabled'', JBool (rs_enabled r)), (''start'', JString (rs_start r)), (''end'', JString (rs_end r)),
      (''days'', JList (map JString (rs_days r))), (''interval_minutes'', JInt (rs_interval r)), (''mode'', JString (rs_mode r))]"

record reminder_window =
  rw_key :: string
  rw_starts :: timestamp
  rw_ends :: timestamp

definition active_reminder_window :: "reminder_settings \<Rightarrow> timestamp \<Rightarrow> int \<Rightarrow> reminder_window option" where
  "active_reminder_window r now offset =
     (if \<not> rs_enabled r then None
      else case (parse_clock (JString (rs_start r)), parse_clock (JString (rs_end r))) of
        (Some starts, Some ends) \<Rightarrow>
          if starts = ends then None
          else
            let wall = now + offset; today = date_of wall
            in earliest rw_starts (concat (map (\<lambda>working_date.
                 if day_name working_date \<notin> set (rs_days r) then []
                 else
                   let (starts_at, ends_at) = occurrence working_date starts ends
                   in if starts_at \<le> wall \<and> wall < ends_at
                      then [\<lparr>rw_key = date_text working_date @ '':'' @ rs_start r @ '':'' @ rs_end r,
                             rw_starts = starts_at - offset, rw_ends = ends_at - offset\<rparr>] else []) [today - 1, today]))
      | _ \<Rightarrow> None)"

definition reminder_is_due :: "reminder_settings \<Rightarrow> timestamp \<Rightarrow> int \<Rightarrow> pydatetime option \<Rightarrow> reminder_window option" where
  "reminder_is_due r now offset last_sent_at =
     (case active_reminder_window r now offset of
        None \<Rightarrow> None
      | Some w \<Rightarrow>
          (case last_sent_at of
             None \<Rightarrow> Some w
           | Some t \<Rightarrow>
               (let elapsed = now - as_utc t
                in if elapsed < 0 \<or> seconds (60 * rs_interval r) \<le> elapsed then Some w else None)))"

subsection \<open>Only yesterday and today matter\<close>

lemma parse_clock_range: "parse_clock v = Some c \<Longrightarrow> 0 \<le> c \<and> c < usec_per_day"
proof (induction v rule: parse_clock.induct)
  case (1 h h' c' m m')
  then obtain a b x y where d: "digit_value h = Some a" "digit_value h' = Some b" "digit_value m = Some x" "digit_value m' = Some y"
    and c: "10 * a + b < 24" "x < 6" "c = ((10 * a + b) * 60 + 10 * x + y) * 60 * usec_per_second"
    by (auto split: option.splits if_splits)
  have "0 \<le> a" "0 \<le> b" "0 \<le> x" "0 \<le> y" "y \<le> 9" using d by (auto simp: digit_value_def split: if_splits)
  with c show ?case by (simp add: usec_per_second_def usec_per_day_def)
qed simp_all

lemma occurrence_near:
  assumes s: "0 \<le> s" "s < usec_per_day" and e: "0 \<le> e" "e < usec_per_day"
    and w: "fst (occurrence d s e) \<le> wall" "wall < snd (occurrence d s e)"
  shows "d = date_of wall - 1 \<or> d = date_of wall"
proof -
  have "date_of (combine d s) \<le> date_of wall" using w(1) by (intro date_of_mono) (simp add: occurrence_def)
  moreover have "date_of wall \<le> date_of (snd (occurrence d s e))" using w(2) by (intro date_of_mono) simp
  ultimately show ?thesis using s e by (auto simp: occurrence_def date_of_combine split: if_splits)
qed

lemma earliest_None: "earliest k xs = None \<longleftrightarrow> xs = []"
  by (cases xs) (auto split: option.splits)

lemma earliest_Some: "earliest k xs = Some x \<Longrightarrow> x \<in> set xs \<and> (\<forall>y \<in> set xs. k x \<le> k y)"
proof (induction xs arbitrary: x)
  case (Cons a xs)
  show ?case
  proof (cases "earliest k xs")
    case (Some z)
    with Cons.IH [OF Some] Cons.prems show ?thesis by (auto split: if_splits)
  qed (use Cons.prems in \<open>auto simp: earliest_None\<close>)
qed simp

text \<open>A day on which a reminder window is open at a wall clock, and its start.\<close>

definition reminder_open :: "reminder_settings \<Rightarrow> int \<Rightarrow> date \<Rightarrow> bool" where
  "reminder_open r wall d \<longleftrightarrow> rs_enabled r \<and> day_name d \<in> set (rs_days r) \<and>
     (case (parse_clock (JString (rs_start r)), parse_clock (JString (rs_end r))) of
        (Some s, Some e) \<Rightarrow> s \<noteq> e \<and> fst (occurrence d s e) \<le> wall \<and> wall < snd (occurrence d s e)
      | _ \<Rightarrow> False)"

definition reminder_start :: "reminder_settings \<Rightarrow> date \<Rightarrow> int" where
  "reminder_start r d = combine d (the (parse_clock (JString (rs_start r))))"

definition reminder_end :: "reminder_settings \<Rightarrow> date \<Rightarrow> int" where
  "reminder_end r d = snd (occurrence d (the (parse_clock (JString (rs_start r)))) (the (parse_clock (JString (rs_end r)))))"

lemma reminder_open_near: "reminder_open r wall d \<Longrightarrow> d = date_of wall - 1 \<or> d = date_of wall"
proof -
  assume o: "reminder_open r wall d"
  then obtain s e where c: "parse_clock (JString (rs_start r)) = Some s" "parse_clock (JString (rs_end r)) = Some e"
    and w: "fst (occurrence d s e) \<le> wall" "wall < snd (occurrence d s e)" by (auto simp: reminder_open_def split: option.splits)
  from occurrence_near [OF _ _ _ _ w] parse_clock_range [OF c(1)] parse_clock_range [OF c(2)] show ?thesis by blast
qed

lemma window_of_days:
  "active_reminder_window r now offset = earliest rw_starts
     (map (\<lambda>d. \<lparr>rw_key = date_text d @ '':'' @ rs_start r @ '':'' @ rs_end r, rw_starts = reminder_start r d - offset,
        rw_ends = reminder_end r d - offset\<rparr>) (filter (reminder_open r (now + offset)) [date_of (now + offset) - 1, date_of (now + offset)]))"
  by (auto simp: active_reminder_window_def reminder_open_def reminder_start_def reminder_end_def occurrence_def Let_def
      split: option.splits)

text \<open>C32. A reminder window is reported exactly when the moment lies in the occurrence of the daily
  interval of some selected day, of whatever date: looking at yesterday and today is enough, also
  for intervals over midnight.  It is the occurrence that started first, and the moment is in it.\<close>

theorem reminder_window_exact:
  "case active_reminder_window r now offset of
     None \<Rightarrow> \<not> (\<exists>d. reminder_open r (now + offset) d)
   | Some w \<Rightarrow> rw_starts w \<le> now \<and> now < rw_ends w \<and>
       (\<exists>d. reminder_open r (now + offset) d \<and> rw_starts w = reminder_start r d - offset \<and> rw_ends w = reminder_end r d - offset \<and>
         (\<forall>d'. reminder_open r (now + offset) d' \<longrightarrow> d \<le> d'))"
proof (cases "active_reminder_window r now offset")
  case None
  then have "filter (reminder_open r (now + offset)) [date_of (now + offset) - 1, date_of (now + offset)] = []"
    by (simp add: window_of_days earliest_None split: if_splits)
  then have "\<not> reminder_open r (now + offset) (date_of (now + offset) - 1)" "\<not> reminder_open r (now + offset) (date_of (now + offset))"
    by (simp_all split: if_splits)
  with None reminder_open_near show ?thesis by fastforce
next
  case (Some w)
  let ?wall = "now + offset"
  let ?ds = "filter (reminder_open r ?wall) [date_of ?wall - 1, date_of ?wall]"
  from earliest_Some [OF Some [unfolded window_of_days]] obtain d where d: "d \<in> set ?ds"
    "rw_starts w = reminder_start r d - offset" "rw_ends w = reminder_end r d - offset"
    and least: "\<forall>d' \<in> set ?ds. rw_starts w \<le> reminder_start r d' - offset" by auto
  from d(1) have o: "reminder_open r ?wall d" by (auto split: if_splits)
  have "d \<le> d'" if "reminder_open r ?wall d'" for d'
  proof -
    have "d' \<in> set ?ds" using reminder_open_near [OF that] that by auto
    with least d(2) have "reminder_start r d \<le> reminder_start r d'" by auto
    then show ?thesis by (simp add: reminder_start_def combine_def usec_per_day_def)
  qed
  moreover have "rw_starts w \<le> now \<and> now < rw_ends w"
    using o d(2,3) by (auto simp: reminder_open_def reminder_start_def reminder_end_def occurrence_def split: option.splits)
  ultimately show ?thesis using Some d o by auto
qed

text \<open>Settings that were accepted are kept as they are: whatever the JSON they were read from,
  writing them back and reading them again gives the same settings, strictly or not; accepted
  settings have valid, distinct clock times, ordered distinct days and an interval in range.\<close>

theorem reminder_settings_roundtrip:
  assumes "reminders_from_mapping v strict = Inr r"
  shows "reminders_from_mapping (reminders_as_dict r) strict' = Inr r \<and>
    parse_clock (JString (rs_start r)) \<noteq> None \<and> parse_clock (JString (rs_end r)) \<noteq> None \<and> rs_start r \<noteq> rs_end r \<and>
    valid_days (rs_days r) \<and> rs_days r = filter (\<lambda>d. d \<in> set (rs_days r)) day_names \<and> 5 \<le> rs_interval r \<and> rs_interval r \<le> 240"
proof -
  define ok where "ok r \<longleftrightarrow> parse_clock (JString (rs_start r)) \<noteq> None \<and> parse_clock (JString (rs_end r)) \<noteq> None \<and> rs_start r \<noteq> rs_end r \<and>
    valid_days (rs_days r) \<and> rs_days r = filter (\<lambda>d. d \<in> set (rs_days r)) day_names \<and> 5 \<le> rs_interval r \<and> rs_interval r \<le> 240 \<and>
    rs_mode r \<in> {''notification'', ''alert''}" for r :: reminder_settings
  have filt: "valid_days (filter (\<lambda>d. d \<in> set ds) day_names)" if "valid_days ds" for ds
  proof -
    have "hd ds \<in> set ds" "hd ds \<in> set day_names" using that by (simp_all add: valid_days_def subset_iff)
    then have "filter (\<lambda>d. d \<in> set ds) day_names \<noteq> []" by (auto simp: filter_empty_conv)
    then show ?thesis by (auto simp: valid_days_def day_names_def)
  qed
  have default: "ok default_reminders" unfolding ok_def by code_simp
  have "ok r"
  proof (cases "r = default_reminders")
    case False
    note d = reminders_from_mapping_def Let_def
    obtain kvs where v: "v = JObject kvs" using assms False by (cases v) (auto simp: d split: if_splits)
    obtain en where en: "jget_or ''enabled'' (JBool False) kvs = JBool en"
      using assms False by (cases "jget_or ''enabled'' (JBool False) kvs") (auto simp: d v split: if_splits)
    obtain st where st: "jget_or ''start'' (JString ''09:00'') kvs = JString st"
      using assms False by (cases "jget_or ''start'' (JString ''09:00'') kvs") (auto simp: d v en split: if_splits)
    obtain e where e: "jget_or ''end'' (JString ''17:00'') kvs = JString e"
      using assms False by (cases "jget_or ''end'' (JString ''17:00'') kvs") (auto simp: d v en st split: if_splits)
    obtain ds where ds: "parse_days (jget_or ''days'' (JList (map JString (rs_days default_reminders))) kvs) = Some ds"
      using assms False by (cases "parse_days (jget_or ''days'' (JList (map JString (rs_days default_reminders))) kvs)")
        (auto simp: d v en st e split: if_splits)
    obtain i where i: "jget_or ''interval_minutes'' (JInt 15) kvs = JInt i"
      using assms False by (cases "jget_or ''interval_minutes'' (JInt 15) kvs") (auto simp: d v en st e ds split: if_splits)
    let ?m = "jget_or ''mode'' (JString ''notification'') kvs"
    have c: "parse_clock (JString st) \<noteq> None" "parse_clock (JString e) \<noteq> None" "st \<noteq> e" "valid_days ds" "5 \<le> i" "i \<le> 240"
      using assms False by (simp_all add: d v en st e ds i del: parse_clock.simps split: if_splits)
    obtain mo where mo: "?m = JString mo" "mo \<in> {''notification'', ''alert''}"
      and r: "r = \<lparr>rs_enabled = en, rs_start = st, rs_end = e, rs_days = filter (\<lambda>d. d \<in> set ds) day_names,
        rs_interval = i, rs_mode = mo\<rparr>"
      using assms False c by (cases ?m) (auto simp: d v en st e ds i simp del: parse_clock.simps split: if_splits)
    show ?thesis using c mo(2) filt [OF c(4)] by (auto simp: ok_def r simp del: parse_clock.simps intro: filter_cong)
  qed (use default in simp)
  moreover have "list_all (\<lambda>d. case d of JString _ \<Rightarrow> True | _ \<Rightarrow> False) (map JString ds)" for ds by (simp add: list_all_iff)
  then have "parse_days (JList (map JString ds)) = Some ds" for ds by (simp add: parse_days_def comp_def)
  ultimately show ?thesis
    by (cases r) (simp add: ok_def reminders_from_mapping_def reminders_as_dict_def jget_or_def Let_def)
qed

definition night_reminders :: reminder_settings where
  "night_reminders = default_reminders\<lparr>rs_enabled := True, rs_start := ''22:00'', rs_end := ''06:00''\<rparr>"

text \<open>Saturday 2026-01-10, 01:00 in UTC: the window of Friday night.\<close>

theorem reminder_window_exact_witness:
  "active_reminder_window night_reminders (combine 739626 (seconds 3600)) 0 \<noteq> None \<and>
   (\<exists>d. reminder_open night_reminders (combine 739626 (seconds 3600)) d)"
proof -
  have "active_reminder_window night_reminders (combine 739626 (seconds 3600)) 0 \<noteq> None" by code_simp
  with reminder_window_exact [of night_reminders "combine 739626 (seconds 3600)" 0] show ?thesis by auto
qed

theorem reminder_settings_roundtrip_witness:
  "reminders_from_mapping (reminders_as_dict default_reminders) True = Inr default_reminders"
  using reminder_settings_roundtrip [of JNull False default_reminders True] by (simp add: reminders_from_mapping_def)

end
