(* ===== verification/Agent_Tracker.thy ===== *)
theory Agent_Tracker
  imports Offline_Queue Agent_Windows Money
begin

section \<open>The desktop agent\<close>

text \<open>
  \<open>agent/main.py\<close>, class \<open>TrackerAgent\<close>: the timer, automatic tracking, reminders, idleness, the
  work loop and the uploads.  One thread runs the loop; the lock makes each step of another thread
  atomic.  The server is the argument \<open>answer\<close>, the wall clock and the idle sensors are arguments,
  and a failing journal is an operation of \<open>Offline_Queue\<close> that returns an error.
\<close>

datatype timer_state = Timer_Stopped | Timer_Active | Timer_Paused

record project_choice =
  pc_id :: string
  pc_name :: string
  pc_tasks :: "(string \<times> string) list"

record tracker =
  tk_queue :: offline_queue
  tk_timer :: timer_state
  tk_status :: string
  tk_project :: string
  tk_task :: string
  tk_note :: string
  tk_auto_idle :: bool
  tk_idle_deduction :: int
  tk_idle_timeout :: int
  tk_listening :: bool
  tk_heartbeat :: bool
  tk_capture :: bool
  tk_policy :: "(string \<times> json) list option"
  tk_window_key :: string
  tk_auto_started :: bool
  tk_suppressed :: string
  tk_projects :: "project_choice list"
  tk_reminders :: reminder_settings
  tk_last_sent :: "pydatetime option"
  tk_screenshots :: bool
  tk_blur :: bool
  tk_track_apps :: bool
  tk_track_urls :: bool
  tk_capture_interval :: int
  tk_app :: string
  tk_url :: string
  tk_session :: string
  tk_rejections :: int
  tk_revoked :: bool
  tk_stopping :: bool

text \<open>
  What a call reads from outside: the cipher and the nonces of the queue, the text of the current
  time, the wall clock with its offset, the parser and printer of Python, the configured heartbeat
  interval, and an id for a new row.
\<close>

record env =
  ev_aead :: aead
  ev_nonce :: bytes
  ev_text :: string
  ev_now :: timestamp
  ev_offset :: int
  ev_show :: "json \<Rightarrow> string"
  ev_parse :: "string \<Rightarrow> (int \<times> int option) option"
  ev_interval :: int
  ev_id :: string

datatype answer = Accepted string | Rejected int string | Unreachable | Garbled

subsection \<open>Local state\<close>

definition suppression_key :: string where "suppression_key = ''automatic_suppressed_window''"
definition catalog_key :: string where "catalog_key = ''project_catalog''"
definition reminder_key :: string where "reminder_key = ''tracking_reminders''"

text \<open>A write whose failure is only logged.\<close>

definition keep_local :: "env \<Rightarrow> string \<Rightarrow> string \<Rightarrow> tracker \<Rightarrow> tracker" where
  "keep_local v key val t =
     (case set_local_state (ev_aead v) (ev_nonce v) (ev_text v) key val (tk_queue t) of
        Inl _ \<Rightarrow> t
      | Inr q \<Rightarrow> t\<lparr>tk_queue := q\<rparr>)"

definition dot :: string where "dot = [CHR '' '', CHR 0xB7, CHR '' '']"

definition reminder_record :: "reminder_settings \<Rightarrow> timestamp option \<Rightarrow> string" where
  "reminder_record r sent = json_dumps (JObject
     [(''settings'', reminders_as_dict r),
      (''last_sent_at'', JString (case sent of None \<Rightarrow> [] | Some s \<Rightarrow> iso_text s 0))])"

subsection \<open>The timer\<close>

definition start_tracking :: "tracker \<Rightarrow> error + tracker" where
  "start_tracking t =
     (if tk_timer t \<noteq> Timer_Stopped then Inr t
      else if tk_project t = [] then Inl (ValueError ''Choose a project before starting the timer'')
      else Inr (t\<lparr>tk_timer := Timer_Active, tk_status := ''Active'', tk_auto_idle := False,
                  tk_listening := True, tk_heartbeat := True\<rparr>))"

definition pause_tracking :: "tracker \<Rightarrow> error + tracker" where
  "pause_tracking t =
     (if tk_timer t \<noteq> Timer_Active then Inl (ValueError ''Only an active timer can be paused'')
      else Inr (t\<lparr>tk_timer := Timer_Paused, tk_status := ''Paused by employee'', tk_listening := False,
                  tk_heartbeat := True\<rparr>))"

definition resume_tracking :: "tracker \<Rightarrow> error + tracker" where
  "resume_tracking t =
     (if tk_timer t \<noteq> Timer_Paused then Inl (ValueError ''Only a paused timer can be resumed'')
      else Inr (t\<lparr>tk_timer := Timer_Active, tk_status := ''Active'', tk_auto_idle := False,
                  tk_listening := True, tk_heartbeat := True\<rparr>))"

definition defer_tracking_reminder :: "env \<Rightarrow> tracker \<Rightarrow> tracker" where
  "defer_tracking_reminder v t =
     (if active_reminder_window (tk_reminders t) (ev_now v) (ev_offset v) = None then t
      else keep_local v reminder_key (reminder_record (tk_reminders t) (Some (ev_now v)))
             (t\<lparr>tk_last_sent := Some (Aware (ev_now v) 0)\<rparr>))"

definition stop_tracking :: "env \<Rightarrow> bool \<Rightarrow> tracker \<Rightarrow> tracker" where
  "stop_tracking v automatic t =
     (if tk_timer t = Timer_Stopped then t
      else
        let t1 = t\<lparr>tk_timer := Timer_Stopped, tk_status := ''Not tracking'', tk_auto_idle := False\<rparr>;
            suppressed = (if automatic then [] else tk_window_key t);
            t2 = (if automatic then t1
                  else t1\<lparr>tk_auto_started := False,
                          tk_suppressed := (if suppressed \<noteq> [] then suppressed else tk_suppressed t)\<rparr>);
            t3 = defer_tracking_reminder v (t2\<lparr>tk_listening := False\<rparr>);
            t4 = (if suppressed \<noteq> [] then keep_local v suppression_key suppressed t3 else t3)
        in t4\<lparr>tk_heartbeat := True\<rparr>)"

definition toggle_pause :: "tracker \<Rightarrow> error + tracker" where
  "toggle_pause t =
     (case tk_timer t of
        Timer_Active \<Rightarrow> pause_tracking t
      | Timer_Paused \<Rightarrow> resume_tracking t
      | Timer_Stopped \<Rightarrow> Inl (ValueError ''Start the timer before pausing it''))"

definition select_work :: "string \<Rightarrow> string \<Rightarrow> tracker \<Rightarrow> tracker" where
  "select_work project task t =
     (let changed = (project, task) \<noteq> (tk_project t, tk_task t)
      in t\<lparr>tk_project := project, tk_task := task, tk_heartbeat := changed \<or> tk_heartbeat t\<rparr>)"

definition set_note :: "string \<Rightarrow> tracker \<Rightarrow> tracker" where
  "set_note txt t = t\<lparr>tk_note := take 500 (strip txt), tk_heartbeat := True\<rparr>"

definition browser_timer_action :: "env \<Rightarrow> string \<Rightarrow> string \<Rightarrow> string \<Rightarrow> string \<Rightarrow> tracker \<Rightarrow> tracker \<times> (error + unit)" where
  "browser_timer_action v action project task txt t =
     (let done = (\<lambda>r. case r of Inl e \<Rightarrow> (t, Inl e) | Inr t' \<Rightarrow> (t', Inr ()))
      in if action = ''start'' then
           (case find (\<lambda>p. pc_id p = project) (tk_projects t) of
              None \<Rightarrow> (t, Inl (ValueError ''Choose an assigned project''))
            | Some p \<Rightarrow>
                if task \<noteq> [] \<and> task \<notin> fst ` set (pc_tasks p) then
                  (t, Inl (ValueError ''Choose a task in the selected project''))
                else
                  let t1 = set_note txt (select_work project task t)
                  in (case start_tracking t1 of Inl e \<Rightarrow> (t1, Inl e) | Inr t2 \<Rightarrow> (t2, Inr ())))
         else if action = ''pause'' then done (pause_tracking t)
         else if action = ''resume'' then done (resume_tracking t)
         else if action = ''stop'' then (stop_tracking v False t, Inr ())
         else (t, Inl (ValueError ''Unknown timer action'')))"

subsection \<open>Reminders\<close>

definition configure_tracking_reminders :: "env \<Rightarrow> json \<Rightarrow> tracker \<Rightarrow> error + tracker" where
  "configure_tracking_reminders v values t =
     (case reminders_from_mapping values True of
        Inl e \<Rightarrow> Inl e
      | Inr r \<Rightarrow>
          (case set_local_state (ev_aead v) (ev_nonce v) (ev_text v) reminder_key (reminder_record r None) (tk_queue t) of
             Inl e \<Rightarrow> Inl e
           | Inr q \<Rightarrow> Inr (t\<lparr>tk_queue := q, tk_reminders := r, tk_last_sent := None\<rparr>)))"

definition remaining_text :: "int \<Rightarrow> string" where
  "remaining_text us =
     (let remaining = max 0 (if 0 \<le> us then us div usec_per_second else - (- us div usec_per_second));
          hours = remaining div 3600; minutes = remaining mod 3600 div 60
      in if hours \<noteq> 0 then int_text hours @ ''h '' @ int_text minutes @ ''m'' else int_text (max 1 minutes) @ ''m'')"

text \<open>The reminder to show: its mode, its message and the end of its window.\<close>

definition tracking_reminder :: "env \<Rightarrow> tracker \<Rightarrow> tracker \<times> (string \<times> string \<times> string) option" where
  "tracking_reminder v t =
     (if tk_timer t \<noteq> Timer_Stopped then (t, None)
      else case reminder_is_due (tk_reminders t) (ev_now v) (ev_offset v) (tk_last_sent t) of
        None \<Rightarrow> (t, None)
      | Some w \<Rightarrow>
          (keep_local v reminder_key (reminder_record (tk_reminders t) (Some (ev_now v)))
             (t\<lparr>tk_last_sent := Some (Aware (ev_now v) 0)\<rparr>),
           Some (rs_mode (tk_reminders t),
             ''You are not tracking time. The reminder window has '' @ remaining_text (rw_ends w - ev_now v) @ '' remaining.'',
             iso_text (rw_ends w + ev_offset v) (ev_offset v))))"

subsection \<open>The policy of the server\<close>

definition sanitize_tasks :: "(json \<Rightarrow> string) \<Rightarrow> json \<Rightarrow> (string \<times> string) list" where
  "sanitize_tasks show v =
     (case v of
        JList tasks \<Rightarrow> concat (map (\<lambda>task.
          case task of
            JObject kvs \<Rightarrow>
              (let i = take 80 (jstr show (jget_or ''id'' (JString []) kvs)); n = take 120 (jstr show (jget_or ''name'' (JString []) kvs))
               in if i \<noteq> [] \<and> n \<noteq> [] then [(i, n)] else [])
          | _ \<Rightarrow> []) (take 500 tasks))
      | _ \<Rightarrow> [])"

definition sanitize_projects :: "(json \<Rightarrow> string) \<Rightarrow> json \<Rightarrow> project_choice list" where
  "sanitize_projects show v =
     (case v of
        JList projects \<Rightarrow> concat (map (\<lambda>project.
          case project of
            JObject kvs \<Rightarrow>
              (let i = take 80 (jstr show (jget_or ''id'' (JString []) kvs)); n = take 120 (jstr show (jget_or ''name'' (JString []) kvs))
               in if i = [] \<or> n = [] then []
                  else [\<lparr>pc_id = i, pc_name = n, pc_tasks = sanitize_tasks show (jget_or ''tasks'' (JList []) kvs)\<rparr>])
          | _ \<Rightarrow> []) (take 500 projects))
      | _ \<Rightarrow> [])"

definition project_json :: "project_choice \<Rightarrow> json" where
  "project_json p = JObject
     [(''id'', JString (pc_id p)), (''name'', JString (pc_name p)),
      (''tasks'', JList (map (\<lambda>(i, n). JObject [(''id'', JString i), (''name'', JString n)]) (pc_tasks p)))]"

text \<open>\<open>int(value)\<close> of a value of the policy.\<close>

fun jint :: "json \<Rightarrow> error + int" where
  "jint (JInt i) = Inr i"
| "jint (JBool b) = Inr (if b then 1 else 0)"
| "jint (JString s) = (case py_int s of None \<Rightarrow> Inl (ValueError ''invalid literal for int()'') | Some i \<Rightarrow> Inr i)"
| "jint v = Inl (RuntimeError ''int() argument must be a string or a number'')"

definition policy_id :: "(string \<times> json) list option \<Rightarrow> json" where
  "policy_id p = (case p of None \<Rightarrow> JNull | Some kvs \<Rightarrow> jget ''id'' kvs)"

text \<open>
  \<open>catalog\<close> with the answer of the server: the limits, the projects, and the automatic policy.  A
  timer that an earlier policy started stops when the policy changes.
\<close>

text \<open>The limits are set one after the other, so a bad idle timeout leaves those before it.\<close>

definition apply_limits :: "(string \<times> json) list \<Rightarrow> tracker \<Rightarrow> tracker \<times> (error + unit)" where
  "apply_limits policy t =
     (case jint (jget_or ''screenshot_frequency'' (JInt 1) policy) of
        Inl e \<Rightarrow> (t, Inl e)
      | Inr frequency \<Rightarrow>
          (let t1 = t\<lparr>
               tk_screenshots := 0 < frequency,
               tk_capture_interval := (if frequency \<le> 0 then 86400 else max 60 (600 div frequency)),
               tk_blur := jtruthy (jget ''screenshot_blur'' policy),
               tk_track_apps := jtruthy (jget_or ''track_apps'' (JBool True) policy),
               tk_track_urls := jtruthy (jget_or ''track_urls'' (JBool True) policy)\<rparr>
           in case jint (jget_or ''idle_timeout_minutes'' (JInt 20) policy) of
                Inl e \<Rightarrow> (t1, Inl e)
              | Inr idle \<Rightarrow> (t1\<lparr>tk_idle_timeout := max 60 (idle * 60)\<rparr>, Inr ())))"

definition apply_policy :: "env \<Rightarrow> json \<Rightarrow> tracker \<Rightarrow> tracker" where
  "apply_policy v automatic t =
     (let policy = (case automatic of JObject kvs \<Rightarrow> Some kvs | _ \<Rightarrow> None);
          previous = policy_id (tk_policy t);
          changed = (previous \<noteq> JNull \<and> previous \<noteq> policy_id policy);
          t1 = t\<lparr>tk_policy := policy\<rparr>;
          t2 = (if changed then keep_local v suppression_key [] (t1\<lparr>tk_window_key := [], tk_suppressed := []\<rparr>) else t1)
      in if changed \<and> tk_auto_started t \<and> tk_timer t2 \<noteq> Timer_Stopped then
           (stop_tracking v True t2)\<lparr>tk_auto_started := False, tk_status := ''Not tracking'' @ dot @ ''automatic policy changed''\<rparr>
         else t2)"

definition catalog :: "env \<Rightarrow> (string \<times> json) list \<Rightarrow> tracker \<Rightarrow> tracker \<times> (error + unit)" where
  "catalog v policy t =
     (case apply_limits policy t of
        (t1, Inl e) \<Rightarrow> (t1, Inl e)
      | (t1, Inr _) \<Rightarrow>
          (let projects = sanitize_projects (ev_show v) (jget_or ''projects'' (JList []) policy);
               t2 = keep_local v catalog_key (json_dumps (JList (map project_json projects))) (t1\<lparr>tk_projects := projects\<rparr>)
           in (apply_policy v (jget ''automatic_tracking'' policy) t2, Inr ())))"

definition set_key :: "string \<Rightarrow> json \<Rightarrow> (string \<times> json) list \<Rightarrow> (string \<times> json) list" where
  "set_key k v kvs = (if k \<in> fst ` set kvs then map (\<lambda>(k', v'). (k', if k' = k then v else v')) kvs else kvs @ [(k, v)])"

definition respond_automatic_policy :: "string \<Rightarrow> bool \<Rightarrow> tracker \<Rightarrow> tracker" where
  "respond_automatic_policy i accepted t =
     (case tk_policy t of
        None \<Rightarrow> t
      | Some kvs \<Rightarrow>
          if kvs \<noteq> [] \<and> jget ''id'' kvs = JString i then
            t\<lparr>tk_policy := Some (set_key ''consent_status'' (JString (if accepted then ''accepted'' else ''declined'')) kvs),
              tk_window_key := [], tk_auto_started := False\<rparr>
          else t)"

subsection \<open>Automatic tracking\<close>

definition recent_activity :: "rat option \<Rightarrow> rat option \<Rightarrow> bool" where
  "recent_activity system_idle input_idle =
     (case (system_idle, input_idle) of
        (Some a, Some b) \<Rightarrow> min a b \<le> 120
      | (Some a, None) \<Rightarrow> a \<le> 120
      | (None, Some b) \<Rightarrow> b \<le> 120
      | (None, None) \<Rightarrow> False)"

definition apply_automatic_tracking ::
  "env \<Rightarrow> rat option \<Rightarrow> rat option \<Rightarrow> tracker \<Rightarrow> tracker \<times> (error + unit)" where
  "apply_automatic_tracking v system_idle input_idle t =
     (case active_window (ev_show v) (ev_parse v) (tk_policy t) (ev_now v) (ev_offset v) of
        None \<Rightarrow>
          (let t1 = (if tk_auto_started t \<and> tk_timer t \<noteq> Timer_Stopped
                     then (stop_tracking v True t)\<lparr>tk_status := ''Not tracking'' @ dot @ ''automatic schedule ended''\<rparr> else t);
               t2 = t1\<lparr>tk_window_key := [], tk_auto_started := False, tk_suppressed := []\<rparr>
           in (if tk_suppressed t1 \<noteq> [] then keep_local v suppression_key [] t2 else t2, Inr ()))
      | Some w \<Rightarrow>
          if tk_suppressed t = aw_key w then
            (t\<lparr>tk_status := ''Not tracking'' @ dot @ ''automatic start suppressed for this window''\<rparr>, Inr ())
          else if tk_window_key t = aw_key w then (t, Inr ())
          else if tk_timer t \<noteq> Timer_Stopped then (t\<lparr>tk_window_key := aw_key w\<rparr>, Inr ())
          else if (case tk_policy t of None \<Rightarrow> False | Some kvs \<Rightarrow> kvs \<noteq> [] \<and> jtruthy (jget ''wait_for_activity'' kvs)) \<and>
              \<not> recent_activity system_idle input_idle then
            (t\<lparr>tk_status := ''Automatic schedule waiting for activity''\<rparr>, Inr ())
          else
            let t1 = select_work (aw_project w) [] t
            in case start_tracking t1 of
                 Inl e \<Rightarrow> (t1, Inl e)
               | Inr t2 \<Rightarrow> (t2\<lparr>tk_window_key := aw_key w, tk_auto_started := True,
                   tk_status := ''Active'' @ dot @ ''automatic policy: '' @
                     jstr (ev_show v) (case tk_policy t of None \<Rightarrow> JString ''scheduled'' | Some kvs \<Rightarrow> jget_or ''name'' (JString ''scheduled'') kvs)\<rparr>,
                   Inr ()))"

subsection \<open>Idleness\<close>

definition suspended :: "tracker \<Rightarrow> bool" where
  "suspended t \<longleftrightarrow> \<not> (tk_timer t = Timer_Active \<and> \<not> tk_auto_idle t)"

definition update_idle_state :: "rat option \<Rightarrow> rat option \<Rightarrow> tracker \<Rightarrow> tracker" where
  "update_idle_state system_idle input_idle t =
     (if tk_idle_timeout t = 0 \<or> tk_timer t \<noteq> Timer_Active then t
      else case (case system_idle of None \<Rightarrow> input_idle | Some i \<Rightarrow> Some i) of
        None \<Rightarrow> t
      | Some idle \<Rightarrow>
          if \<not> tk_auto_idle t \<and> of_int (tk_idle_timeout t) \<le> idle then
            t\<lparr>tk_auto_idle := True, tk_idle_deduction := round_half_even idle,
              tk_status := ''Idle: time not counted'', tk_heartbeat := True\<rparr>
          else if tk_auto_idle t \<and> idle < of_int (tk_idle_timeout t) then
            t\<lparr>tk_auto_idle := False, tk_status := ''Active'', tk_heartbeat := True\<rparr>
          else t)"

subsection \<open>Sending\<close>

definition permanent :: "int \<Rightarrow> bool" where
  "permanent status \<longleftrightarrow> status \<in> {400, 404, 409, 410, 413, 415, 422}"

definition note_rejection :: "tracker \<Rightarrow> tracker" where
  "note_rejection t =
     (let t1 = t\<lparr>tk_status := ''Enrollment token revoked'', tk_rejections := tk_rejections t + 1\<rparr>
      in if tk_rejections t1 < 3 then t1 else t1\<lparr>tk_revoked := True, tk_stopping := True\<rparr>)"

definition pending_count :: "offline_queue \<Rightarrow> int" where
  "pending_count q = oq_pending_states q + oq_pending_usage q + oq_pending q"

definition attention :: "tracker \<Rightarrow> tracker" where
  "attention t = t\<lparr>tk_status := ''Needs attention'' @ dot @ int_text (oq_quarantined (tk_queue t)) @ '' quarantined''\<rparr>"

definition offline :: "int \<Rightarrow> tracker \<Rightarrow> tracker" where
  "offline n t = t\<lparr>tk_status := ''Offline ('' @ int_text n @ '' pending)''\<rparr>"

definition timer_status :: "tracker \<Rightarrow> string" where
  "timer_status t =
     (case tk_timer t of
        Timer_Stopped \<Rightarrow> ''Not tracking''
      | Timer_Paused \<Rightarrow> ''Paused by employee''
      | Timer_Active \<Rightarrow> if tk_auto_idle t then ''Idle: time not counted'' else ''Active'')"

definition upload_state_one :: "env \<Rightarrow> answer \<Rightarrow> tracker \<Rightarrow> error + (tracker \<times> bool)" where
  "upload_state_one v answer t =
     (case pending_states (ev_aead v) 1 (tk_queue t) of
        Inl e \<Rightarrow> Inl e
      | Inr [] \<Rightarrow> Inr (t, False)
      | Inr (event # _) \<Rightarrow>
          (case answer of
             Accepted session \<Rightarrow>
               Inr (t\<lparr>tk_session := session, tk_queue := acknowledge_state event (tk_queue t), tk_rejections := 0\<rparr>, True)
           | Garbled \<Rightarrow> Inl (ValueError ''Expecting value'')
           | Unreachable \<Rightarrow> Inr (offline (pending_count (tk_queue t)) t, False)
           | Rejected status body \<Rightarrow>
               if status = 401 then Inr (note_rejection t, False)
               else if permanent status then
                 let t1 = t\<lparr>tk_queue := quarantine_state (ev_aead v) (ev_nonce v) (ev_text v) event body (tk_queue t)\<rparr>
                 in if je_status event \<in> {''active'', ''paused''} \<and> je_project event = tk_project t1 \<and>
                       oq_pending_states (tk_queue t1) = 0 \<and> tk_timer t1 \<noteq> Timer_Stopped
                    then Inr ((stop_tracking v False t1)\<lparr>tk_status := ''Tracking stopped'' @ dot @ ''server rejected this work''\<rparr>, False)
                    else Inr (attention t1, False)
               else Inr (t, False)))"

definition upload_usage_one :: "env \<Rightarrow> answer \<Rightarrow> tracker \<Rightarrow> error + (tracker \<times> bool)" where
  "upload_usage_one v answer t =
     (case pending_usage (ev_aead v) 1 (tk_queue t) of
        Inl e \<Rightarrow> Inl e
      | Inr [] \<Rightarrow> Inr (t, False)
      | Inr (event # _) \<Rightarrow>
          (case answer of
             Accepted _ \<Rightarrow> Inr (t\<lparr>tk_queue := acknowledge_usage event (tk_queue t), tk_rejections := 0\<rparr>, True)
           | Garbled \<Rightarrow> Inr (t\<lparr>tk_queue := acknowledge_usage event (tk_queue t), tk_rejections := 0\<rparr>, True)
           | Unreachable \<Rightarrow> Inr (offline (pending_count (tk_queue t)) t, False)
           | Rejected status body \<Rightarrow>
               if status = 401 then Inr (note_rejection t, False)
               else if permanent status then
                 Inr (attention (t\<lparr>tk_queue := quarantine_usage (ev_aead v) (ev_nonce v) (ev_text v) event body (tk_queue t)\<rparr>), False)
               else Inr (t, False)))"

fun contains :: "string \<Rightarrow> string \<Rightarrow> bool" where
  "contains p [] = (p = [])"
| "contains p (c # cs) = (take (length p) (c # cs) = p \<or> contains p cs)"

text \<open>The screenshot itself is sent, blurred first when the policy asks for it.\<close>

definition upload_one :: "env \<Rightarrow> answer \<Rightarrow> tracker \<Rightarrow> error + (tracker \<times> bool)" where
  "upload_one v answer t =
     (case pending_records (ev_aead v) 1 (tk_queue t) of
        Inl e \<Rightarrow> Inl e
      | Inr [] \<Rightarrow> Inr (t\<lparr>tk_status := timer_status t\<rparr>, False)
      | Inr (r # _) \<Rightarrow>
          (let t0 = t\<lparr>tk_status := ''Uploading ('' @ int_text (oq_pending (tk_queue t)) @ '' pending)''\<rparr>;
               acknowledged = t0\<lparr>tk_queue := acknowledge_record r (tk_queue t)\<rparr>;
               quarantined = (\<lambda>reason. attention
                 (t0\<lparr>tk_queue := quarantine_record (ev_aead v) (ev_nonce v) (ev_text v) r reason (tk_queue t)\<rparr>))
           in case read_screenshot (ev_aead v) r (tk_queue t) of
                Inl (ValueError m) \<Rightarrow> Inr (quarantined m, False)
              | Inl _ \<Rightarrow> Inr (quarantined (''[Errno 2] No such file or directory: '' @ [CHR 39] @ qr_path r @ [CHR 39]), False)
              | Inr _ \<Rightarrow>
                  (case answer of
                     Accepted _ \<Rightarrow> Inr (acknowledged\<lparr>tk_status := timer_status t\<rparr>, True)
                   | Garbled \<Rightarrow> Inr (acknowledged\<lparr>tk_status := timer_status t\<rparr>, True)
                   | Unreachable \<Rightarrow> Inr (offline (oq_pending (tk_queue t)) t0, False)
                   | Rejected status body \<Rightarrow>
                       if status = 401 then Inr (note_rejection t0, False)
                       else if status = 403 \<and> contains ''screenshot collection is disabled'' (str_lower body) then
                         Inr (acknowledged\<lparr>tk_screenshots := False,
                           tk_status := ''Active'' @ dot @ ''screenshots disabled by policy''\<rparr>, False)
                       else if status = 403 \<and> contains ''screenshot blur is required'' (str_lower body) then
                         Inr (t0\<lparr>tk_blur := True, tk_status := ''Active'' @ dot @ ''applying required screenshot blur''\<rparr>, False)
                       else if permanent status then Inr (quarantined body, False)
                       else Inr (t0\<lparr>tk_status := ''Server rejected upload ('' @ int_text status @ '')''\<rparr>, False))))"

definition state_name :: "tracker \<Rightarrow> string" where
  "state_name t = (if tk_timer t = Timer_Stopped then ''stopped'' else if suspended t then ''paused'' else ''active'')"

definition heartbeat_event :: "env \<Rightarrow> string \<Rightarrow> bool \<Rightarrow> tracker \<Rightarrow> journal_event" where
  "heartbeat_event v status transition t =
     \<lparr>je_id = ev_id v, je_observed = ev_text v, je_status = status,
      je_task = (if status \<noteq> ''stopped'' then tk_task t else []),
      je_project = (if status \<noteq> ''stopped'' then tk_project t else []),
      je_note = (if status \<noteq> ''stopped'' then tk_note t else []),
      je_idle = (if status = ''paused'' then tk_idle_deduction t else 0),
      je_interval = ev_interval v, je_transition = transition\<rparr>"

text \<open>The journal comes first; what the upload raises leaves the journaled event behind.\<close>

definition send_heartbeat :: "env \<Rightarrow> string option \<Rightarrow> bool \<Rightarrow> answer \<Rightarrow> tracker \<Rightarrow> tracker \<times> (error + unit)" where
  "send_heartbeat v status transition answer t =
     (let state = (case status of Some s \<Rightarrow> if s \<noteq> [] then s else state_name t | None \<Rightarrow> state_name t)
      in case add_state (ev_aead v) (ev_nonce v) (ev_text v) (heartbeat_event v state transition t) (tk_queue t) of
           Inl e \<Rightarrow> (t, Inl e)
         | Inr (q, _) \<Rightarrow>
             (let t1 = t\<lparr>tk_queue := q, tk_idle_deduction := 0\<rparr>
              in case upload_state_one v answer t1 of
                   Inl e \<Rightarrow> (t1, Inl e)
                 | Inr (t2, _) \<Rightarrow> (t2, Inr ())))"

subsection \<open>The work loop\<close>

text \<open>
  What one turn of the loop meets: whether the policy is due and what the server answers to that
  (\<open>None\<close> when it is not reached), the idle sensors, the application and domain in front when an
  observation is due, whether a heartbeat, a capture and an upload are due, the captured bytes
  (\<open>None\<close> when capturing failed) with their blurred form, and the answers of the server.
\<close>

record tick =
  tc_env :: env
  tc_refresh :: "(string \<times> json) list option option"
  tc_system_idle :: "rat option"
  tc_input_idle :: "rat option"
  tc_observed :: "(string \<times> string) option"
  tc_heartbeat_due :: bool
  tc_capture_due :: bool
  tc_shot :: "(bytes \<times> bytes \<times> activity_snapshot \<times> string) option"
  tc_draw :: "nat \<Rightarrow> bytes"
  tc_heartbeat_answer :: answer
  tc_upload_due :: bool
  tc_upload_answer :: answer

definition journal_failed :: "tracker \<Rightarrow> tracker" where
  "journal_failed t = t\<lparr>tk_status := ''Local journal unavailable'' @ dot @ ''tracking not saved''\<rparr>"

text \<open>A failing request and a \<open>ValueError\<close> defer the refresh; a \<open>TypeError\<close> ends the thread.\<close>

definition refresh_policy :: "tick \<Rightarrow> tracker \<Rightarrow> tracker \<times> (error + unit)" where
  "refresh_policy c t =
     (case tc_refresh c of
        None \<Rightarrow> (t, Inr ())
      | Some None \<Rightarrow> (t, Inr ())
      | Some (Some policy) \<Rightarrow>
          (case catalog (tc_env c) policy t of
             (t1, Inl (RuntimeError m)) \<Rightarrow> (t1, Inl (RuntimeError m))
           | (t1, _) \<Rightarrow> (t1, Inr ())))"

definition observe_usage :: "tick \<Rightarrow> tracker \<Rightarrow> tracker" where
  "observe_usage c t =
     (case tc_observed c of
        None \<Rightarrow> t
      | Some (app, url) \<Rightarrow>
          if suspended t then t
          else
            let v = tc_env c;
                t1 = t\<lparr>tk_app := (if tk_track_apps t then app else []), tk_url := (if tk_track_urls t then url else [])\<rparr>;
                e = \<lparr>ue_id = ev_id v, ue_observed = ev_text v, ue_app = tk_app t1, ue_url = tk_url t1, ue_focused = 10\<rparr>
            in (case add_usage (ev_aead v) (ev_nonce v) (tc_draw c 3) (ev_text v) e (tk_queue t1) of
                  Inl _ \<Rightarrow> journal_failed t1
                | Inr (q, _) \<Rightarrow> t1\<lparr>tk_queue := q\<rparr>))"

definition loop_heartbeat :: "tick \<Rightarrow> tracker \<Rightarrow> tracker" where
  "loop_heartbeat c t =
     (if (tk_timer t \<noteq> Timer_Stopped \<and> tc_heartbeat_due c) \<or> tk_heartbeat t then
        (case send_heartbeat (tc_env c) None (tk_heartbeat t) (tc_heartbeat_answer c) (t\<lparr>tk_heartbeat := False\<rparr>) of
           (t1, Inl _) \<Rightarrow> journal_failed t1
         | (t1, Inr _) \<Rightarrow> t1)
      else t)"

definition capture_to_queue :: "tick \<Rightarrow> tracker \<Rightarrow> tracker" where
  "capture_to_queue c t =
     (if tk_screenshots t \<and> \<not> suspended t \<and> (tc_capture_due c \<or> tk_capture t) then
        (let v = tc_env c; t0 = t\<lparr>tk_capture := False\<rparr>; failed = (\<lambda>t. t\<lparr>tk_status := ''Capture failed''\<rparr>)
         in case tc_shot c of
              None \<Rightarrow> failed t0
            | Some (shot, blurred, activity, url) \<Rightarrow>
                (let t1 = (if tk_track_urls t0 then t0\<lparr>tk_url := url\<rparr> else t0)
                 in case add_to_queue (ev_aead v) (tc_draw c) (ev_id v) (ev_text v) (if tk_blur t1 then blurred else shot)
                      activity (tk_app t1) (ev_text v) (tk_session t1) (tk_url t1) (tk_blur t1) (tk_queue t1) of
                      (q, Inl _) \<Rightarrow> failed (t1\<lparr>tk_queue := q\<rparr>)
                    | (q, Inr _) \<Rightarrow> t1\<lparr>tk_queue := q, tk_status := ''Queued ('' @ int_text (oq_pending q) @ '' pending)''\<rparr>))
      else t)"

text \<open>States go first, then usage, then screenshots.\<close>

definition upload_next :: "env \<Rightarrow> answer \<Rightarrow> tracker \<Rightarrow> error + (tracker \<times> bool)" where
  "upload_next v answer t =
     (if oq_pending_states (tk_queue t) \<noteq> 0 then upload_state_one v answer t
      else if oq_pending_usage (tk_queue t) \<noteq> 0 then upload_usage_one v answer t
      else upload_one v answer t)"

definition loop_upload :: "env \<Rightarrow> answer \<Rightarrow> tracker \<Rightarrow> tracker" where
  "loop_upload v answer t =
     (if oq_pending_states (tk_queue t) \<noteq> 0 \<or> oq_pending_usage (tk_queue t) \<noteq> 0 \<or> oq_pending (tk_queue t) \<noteq> 0 then
        (case upload_next v answer t of
           Inl _ \<Rightarrow> t\<lparr>tk_status := ''Encrypted queue needs attention''\<rparr>
         | Inr (t1, _) \<Rightarrow> t1)
      else t)"

text \<open>One turn.  An error that nothing catches ends the thread.\<close>

definition loop_turn :: "tick \<Rightarrow> tracker \<Rightarrow> tracker \<times> (error + unit)" where
  "loop_turn c t =
     (case refresh_policy c t of
        (t1, Inl e) \<Rightarrow> (t1, Inl e)
      | (t1, Inr _) \<Rightarrow>
          (case apply_automatic_tracking (tc_env c) (tc_system_idle c) (tc_input_idle c) t1 of
             (t2, Inl e) \<Rightarrow> (t2, Inl e)
           | (t2, Inr _) \<Rightarrow>
               (let t3 = update_idle_state (tc_system_idle c) (tc_input_idle c) t2;
                    t4 = capture_to_queue c (loop_heartbeat c (observe_usage c t3))
                in (if tc_upload_due c then loop_upload (tc_env c) (tc_upload_answer c) t4 else t4, Inr ()))))"

end
