(* ===== verification/Tracker_Invariant.thy ===== *)
theory Tracker_Invariant
  imports Queue_Invariant Agent_Tracker
begin

text \<open>
  Every operation of the agent in \<open>Agent_Tracker\<close> keeps the queue sound and listens to input exactly
  while the timer runs: one lemma per operation, then the runs of the whole agent as an
  interpretation of \<open>transactional\<close>.
\<close>

section \<open>What the agent guarantees\<close>

text \<open>The queue stays sound, and input is only counted while the timer runs.\<close>

definition tracker_inv :: "aead \<Rightarrow> tracker \<Rightarrow> bool" where
  "tracker_inv A t \<longleftrightarrow> queue_inv A (tk_queue t) \<and> (tk_listening t \<longleftrightarrow> tk_timer t = Timer_Active)"

definition env_ok :: "aead \<Rightarrow> env \<Rightarrow> bool" where
  "env_ok A v \<longleftrightarrow> ev_aead v = A \<and> length (ev_nonce v) = 12 \<and> valid_id (ev_id v)"

definition tick_ok :: "aead \<Rightarrow> tick \<Rightarrow> bool" where
  "tick_ok A c \<longleftrightarrow> env_ok A (tc_env c) \<and> (\<forall>n. length (tc_draw c n) = 12)"

lemma keep_local_eq: "\<exists>q. keep_local v key val t = t\<lparr>tk_queue := q\<rparr>"
  by (cases "set_local_state (ev_aead v) (ev_nonce v) (ev_text v) key val (tk_queue t)")
    (auto simp: keep_local_def intro: exI [of _ "tk_queue t"])

lemma keep_local_fields [simp]:
  "tk_timer (keep_local v key val t) = tk_timer t" "tk_listening (keep_local v key val t) = tk_listening t"
  "tk_policy (keep_local v key val t) = tk_policy t" "tk_suppressed (keep_local v key val t) = tk_suppressed t"
  "tk_auto_started (keep_local v key val t) = tk_auto_started t" "tk_project (keep_local v key val t) = tk_project t"
  "tk_reminders (keep_local v key val t) = tk_reminders t" "tk_last_sent (keep_local v key val t) = tk_last_sent t"
  "tk_window_key (keep_local v key val t) = tk_window_key t"
  using keep_local_eq [of v key val t] by auto

lemma keep_local_inv:
  assumes "aead_law A" "env_ok A v" "queue_inv A (tk_queue t)"
  shows "queue_inv A (tk_queue (keep_local v key val t))"
proof (cases "set_local_state A (ev_nonce v) (ev_text v) key val (tk_queue t)")
  case (Inr q)
  have "queue_inv A q" by (rule set_local_state_ok [OF assms(1) _ assms(3) Inr]) (use assms(2) in \<open>simp add: env_ok_def\<close>)
  with Inr assms(2) show ?thesis by (simp add: keep_local_def env_ok_def)
qed (use assms in \<open>simp add: keep_local_def env_ok_def\<close>)

text \<open>Stopping.\<close>

lemma defer_fields [simp]:
  "tk_timer (defer_tracking_reminder v t) = tk_timer t" "tk_listening (defer_tracking_reminder v t) = tk_listening t"
  "tk_policy (defer_tracking_reminder v t) = tk_policy t" "tk_suppressed (defer_tracking_reminder v t) = tk_suppressed t"
  "tk_auto_started (defer_tracking_reminder v t) = tk_auto_started t" "tk_project (defer_tracking_reminder v t) = tk_project t"
  "tk_reminders (defer_tracking_reminder v t) = tk_reminders t" "tk_window_key (defer_tracking_reminder v t) = tk_window_key t"
  by (simp_all add: defer_tracking_reminder_def)

lemma defer_inv:
  "aead_law A \<Longrightarrow> env_ok A v \<Longrightarrow> queue_inv A (tk_queue t) \<Longrightarrow> queue_inv A (tk_queue (defer_tracking_reminder v t))"
  by (simp add: defer_tracking_reminder_def keep_local_inv)

lemma stop_fields [simp]:
  "tk_timer (stop_tracking v automatic t) = Timer_Stopped" "tk_policy (stop_tracking v automatic t) = tk_policy t"
  "tk_project (stop_tracking v automatic t) = tk_project t" "tk_reminders (stop_tracking v automatic t) = tk_reminders t"
  by (simp_all add: stop_tracking_def Let_def)

lemma stop_inv:
  assumes "aead_law A" "env_ok A v" "tracker_inv A t"
  shows "tracker_inv A (stop_tracking v automatic t)"
  using assms by (simp add: stop_tracking_def Let_def tracker_inv_def defer_inv keep_local_inv)

lemma timer_inv:
  "tracker_inv A t \<Longrightarrow> start_tracking t = Inr t' \<Longrightarrow> tracker_inv A t'"
  "tracker_inv A t \<Longrightarrow> pause_tracking t = Inr t' \<Longrightarrow> tracker_inv A t'"
  "tracker_inv A t \<Longrightarrow> resume_tracking t = Inr t' \<Longrightarrow> tracker_inv A t'"
  by (auto simp: tracker_inv_def start_tracking_def pause_tracking_def resume_tracking_def split: if_splits)

lemma toggle_inv: "tracker_inv A t \<Longrightarrow> toggle_pause t = Inr t' \<Longrightarrow> tracker_inv A t'"
  by (auto simp: toggle_pause_def intro: timer_inv split: timer_state.splits)

lemma select_inv [simp]: "tracker_inv A (select_work p k t) = tracker_inv A t" "tracker_inv A (set_note n t) = tracker_inv A t"
  by (simp_all add: tracker_inv_def select_work_def set_note_def Let_def)

lemma pair_inv:
  assumes "\<And>t'. r = Inr t' \<Longrightarrow> tracker_inv A t'" and "tracker_inv A t"
  shows "tracker_inv A (fst (case r of Inl e \<Rightarrow> (t, Inl e) | Inr t' \<Rightarrow> (t', Inr ())))"
  using assms by (cases r) auto

lemma browser_inv:
  assumes A: "aead_law A" "env_ok A v" and t: "tracker_inv A t"
  shows "tracker_inv A (fst (browser_timer_action v action p k n t))"
proof -
  have pairs: "tracker_inv A (fst (case start_tracking x of Inl e \<Rightarrow> (y, Inl e) | Inr t' \<Rightarrow> (t', Inr ())))"
    "tracker_inv A (fst (case pause_tracking x of Inl e \<Rightarrow> (y, Inl e) | Inr t' \<Rightarrow> (t', Inr ())))"
    "tracker_inv A (fst (case resume_tracking x of Inl e \<Rightarrow> (y, Inl e) | Inr t' \<Rightarrow> (t', Inr ())))"
    if "tracker_inv A x" "tracker_inv A y" for x y
    by (rule pair_inv [OF timer_inv(1) [OF that(1)] that(2)], assumption, rule pair_inv [OF timer_inv(2) [OF that(1)] that(2)], assumption,
        rule pair_inv [OF timer_inv(3) [OF that(1)] that(2)], assumption)
  show ?thesis unfolding browser_timer_action_def Let_def
    using t by (simp add: pairs stop_inv [OF A] split: option.split)
qed

text \<open>Reminders and the policy.\<close>

lemma configure_inv:
  assumes "aead_law A" "env_ok A v" "tracker_inv A t" "configure_tracking_reminders v values t = Inr t'"
  shows "tracker_inv A t'"
  using assms set_local_state_ok [OF assms(1), of "ev_nonce v" "tk_queue t"]
  by (auto simp: configure_tracking_reminders_def tracker_inv_def env_ok_def split: sum.splits)

lemma remind_inv:
  "aead_law A \<Longrightarrow> env_ok A v \<Longrightarrow> tracker_inv A t \<Longrightarrow> tracker_inv A (fst (tracking_reminder v t))"
  by (auto simp: tracking_reminder_def tracker_inv_def keep_local_inv split: option.splits)

lemma respond_inv [simp]: "tracker_inv A (respond_automatic_policy i a t) = tracker_inv A t"
  by (simp add: respond_automatic_policy_def tracker_inv_def split: option.split)

lemma status_inv [simp]: "tracker_inv A (t\<lparr>tk_status := s\<rparr>) = tracker_inv A t"
  "tracker_inv A (t\<lparr>tk_auto_started := b\<rparr>) = tracker_inv A t" "tracker_inv A (t\<lparr>tk_window_key := k\<rparr>) = tracker_inv A t"
  "tracker_inv A (t\<lparr>tk_suppressed := k\<rparr>) = tracker_inv A t" "tracker_inv A (t\<lparr>tk_policy := p\<rparr>) = tracker_inv A t"
  "tracker_inv A (t\<lparr>tk_heartbeat := h\<rparr>) = tracker_inv A t" "tracker_inv A (t\<lparr>tk_projects := ps\<rparr>) = tracker_inv A t"
  "tracker_inv A (t\<lparr>tk_capture := h\<rparr>) = tracker_inv A t" "tracker_inv A (t\<lparr>tk_app := a\<rparr>) = tracker_inv A t"
  "tracker_inv A (t\<lparr>tk_url := a\<rparr>) = tracker_inv A t" "tracker_inv A (t\<lparr>tk_idle_deduction := i\<rparr>) = tracker_inv A t"
  "tracker_inv A (t\<lparr>tk_session := a\<rparr>) = tracker_inv A t" "tracker_inv A (t\<lparr>tk_rejections := i\<rparr>) = tracker_inv A t"
  "tracker_inv A (t\<lparr>tk_screenshots := b\<rparr>) = tracker_inv A t" "tracker_inv A (t\<lparr>tk_blur := b\<rparr>) = tracker_inv A t"
  "tracker_inv A (t\<lparr>tk_auto_idle := b\<rparr>) = tracker_inv A t" "tracker_inv A (t\<lparr>tk_revoked := b\<rparr>) = tracker_inv A t"
  "tracker_inv A (t\<lparr>tk_stopping := b\<rparr>) = tracker_inv A t" "tracker_inv A (t\<lparr>tk_idle_timeout := i\<rparr>) = tracker_inv A t"
  "tracker_inv A (t\<lparr>tk_capture_interval := i\<rparr>) = tracker_inv A t" "tracker_inv A (t\<lparr>tk_track_apps := b\<rparr>) = tracker_inv A t"
  "tracker_inv A (t\<lparr>tk_track_urls := b\<rparr>) = tracker_inv A t"
  by (simp_all add: tracker_inv_def)

lemma queue_field_inv: "tracker_inv A t \<Longrightarrow> queue_inv A q \<Longrightarrow> tracker_inv A (t\<lparr>tk_queue := q\<rparr>)"
  by (simp add: tracker_inv_def)

lemma keep_inv: "aead_law A \<Longrightarrow> env_ok A v \<Longrightarrow> tracker_inv A t \<Longrightarrow> tracker_inv A (keep_local v key val t)"
  by (simp add: tracker_inv_def keep_local_inv)

lemma limits_inv: "tracker_inv A t \<Longrightarrow> tracker_inv A (fst (apply_limits p t))"
  by (auto simp: apply_limits_def Let_def split: sum.splits)

lemma policy_inv: "aead_law A \<Longrightarrow> env_ok A v \<Longrightarrow> tracker_inv A t \<Longrightarrow> tracker_inv A (apply_policy v p t)"
  unfolding apply_policy_def Let_def by (auto intro!: stop_inv keep_inv)

lemma catalog_inv:
  assumes "aead_law A" "env_ok A v" "tracker_inv A t"
  shows "tracker_inv A (fst (catalog v p t))"
  using limits_inv [OF assms(3), of p] assms
  by (auto simp: catalog_def Let_def intro!: policy_inv keep_inv split: prod.splits sum.splits)

lemma automatic_inv:
  assumes A: "aead_law A" "env_ok A v" and t: "tracker_inv A t"
  shows "tracker_inv A (fst (apply_automatic_tracking v i j t))"
proof (cases "active_window (ev_show v) (ev_parse v) (tk_policy t) (ev_now v) (ev_offset v)")
  case None
  have "tracker_inv A (if tk_auto_started t \<and> tk_timer t \<noteq> Timer_Stopped
      then (stop_tracking v True t)\<lparr>tk_status := ''Not tracking'' @ dot @ ''automatic schedule ended''\<rparr> else t)"
    using stop_inv [OF A t] t by simp
  then show ?thesis unfolding apply_automatic_tracking_def None Let_def option.case by (simp add: keep_inv [OF A])
next
  case (Some w)
  let ?t = "select_work (aw_project w) [] t"
  have "tracker_inv A ?t" using t by simp
  note start = timer_inv(1) [OF this]
  show ?thesis unfolding apply_automatic_tracking_def Some Let_def option.case
    by (cases "start_tracking ?t") (use start t in simp_all)
qed

lemma idle_inv: "tracker_inv A t \<Longrightarrow> tracker_inv A (update_idle_state i j t)"
  by (auto simp: update_idle_state_def split: option.splits)

text \<open>Sending.\<close>

lemma message_fields [simp]:
  "tk_queue (attention t) = tk_queue t" "tk_queue (offline n t) = tk_queue t" "tk_queue (note_rejection t) = tk_queue t"
  "tk_timer (attention t) = tk_timer t" "tk_timer (offline n t) = tk_timer t" "tk_timer (note_rejection t) = tk_timer t"
  "tk_listening (attention t) = tk_listening t" "tk_listening (offline n t) = tk_listening t"
  "tk_listening (note_rejection t) = tk_listening t" "tk_project (attention t) = tk_project t" "tk_window_key (attention t) = tk_window_key t"
  by (simp_all add: attention_def offline_def note_rejection_def Let_def)

lemma message_inv [simp]:
  "tracker_inv A (attention t) = tracker_inv A t" "tracker_inv A (offline n t) = tracker_inv A t"
  "tracker_inv A (note_rejection t) = tracker_inv A t"
  by (simp_all add: attention_def offline_def note_rejection_def Let_def)

lemma upload_state_inv:
  assumes A: "aead_law A" "env_ok A v" and t: "tracker_inv A t" and u: "upload_state_one v answer t = Inr (t', b)"
  shows "tracker_inv A t'"
proof (cases "pending_states (ev_aead v) 1 (tk_queue t)")
  case (Inr events)
  note u1 = u [unfolded upload_state_one_def Inr sum.case Let_def]
  have q: "queue_inv A (tk_queue t)" using t by (simp add: tracker_inv_def)
  show ?thesis
  proof (cases events)
    case (Cons e es)
    have k: "tracker_inv A (t\<lparr>tk_queue := quarantine_state (ev_aead v) (ev_nonce v) (ev_text v) e reason (tk_queue t)\<rparr>)" for reason
      using quarantine_states_ok [OF q] A(2) by (simp add: queue_field_inv [OF t] env_ok_def)
    note s = stop_inv [OF A k]
    have a: "tracker_inv A (t\<lparr>tk_session := x, tk_queue := acknowledge_state e (tk_queue t)\<rparr>)" for x
      using delete_states_ok [OF q] t by (simp add: tracker_inv_def)
    show ?thesis using u1 [unfolded Cons list.case] t
      by (cases answer) (auto simp: a k s split: if_splits)
  qed (use u1 t in simp)
qed (use u in \<open>simp add: upload_state_one_def\<close>)

lemma upload_usage_inv:
  assumes A: "aead_law A" "env_ok A v" and t: "tracker_inv A t" and u: "upload_usage_one v answer t = Inr (t', b)"
  shows "tracker_inv A t'"
proof (cases "pending_usage (ev_aead v) 1 (tk_queue t)")
  case (Inr events)
  note u1 = u [unfolded upload_usage_one_def Inr sum.case Let_def]
  have q: "queue_inv A (tk_queue t)" using t by (simp add: tracker_inv_def)
  have k: "tracker_inv A (t\<lparr>tk_queue := quarantine_usage (ev_aead v) (ev_nonce v) (ev_text v) e reason (tk_queue t)\<rparr>)"
    "tracker_inv A (t\<lparr>tk_queue := acknowledge_usage e (tk_queue t)\<rparr>)" for e reason
    using quarantine_usage_ok [OF q] delete_usage_ok [OF q] A(2) by (simp_all add: queue_field_inv [OF t] env_ok_def)
  show ?thesis using u1 t k by (cases events; cases answer) (auto split: if_splits)
qed (use u in \<open>simp add: upload_usage_one_def\<close>)

lemma upload_record_inv:
  assumes A: "aead_law A" "env_ok A v" and t: "tracker_inv A t" and u: "upload_one v answer t = Inr (t', b)"
  shows "tracker_inv A t'"
proof (cases "pending_records (ev_aead v) 1 (tk_queue t)")
  case (Inr events)
  note u1 = u [unfolded upload_one_def Inr sum.case Let_def]
  have q: "queue_inv A (tk_queue t)" using t by (simp add: tracker_inv_def)
  show ?thesis
  proof (cases events)
    case (Cons r rs)
    have "pending_records A 1 (tk_queue t) = Inr (r # rs)" using Inr A(2) Cons by (simp add: env_ok_def)
    note ok = sent_screenshot_ok [OF q this]
    have k: "queue_inv A (quarantine_record (ev_aead v) (ev_nonce v) (ev_text v) r reason (tk_queue t))"
      "queue_inv A (acknowledge_record r (tk_queue t))" for reason
      using ok A(2) by (simp_all add: env_ok_def)
    show ?thesis
    proof (cases "read_screenshot (ev_aead v) r (tk_queue t)")
      case (Inl e)
      show ?thesis using u1 [unfolded Cons list.case Inl sum.case] t k by (cases e) (auto simp: tracker_inv_def)
    next
      case (Inr bs)
      show ?thesis using u1 [unfolded Cons list.case Inr sum.case] t k
        by (cases answer) (auto simp: tracker_inv_def split: if_splits)
    qed
  qed (use u1 t in auto)
qed (use u in \<open>simp add: upload_one_def\<close>)

lemma upload_next_inv:
  "aead_law A \<Longrightarrow> env_ok A v \<Longrightarrow> tracker_inv A t \<Longrightarrow> upload_next v answer t = Inr (t', b) \<Longrightarrow> tracker_inv A t'"
  by (auto simp: upload_next_def intro: upload_state_inv upload_usage_inv upload_record_inv split: if_splits)

lemma loop_upload_inv:
  "aead_law A \<Longrightarrow> env_ok A v \<Longrightarrow> tracker_inv A t \<Longrightarrow> tracker_inv A (loop_upload v answer t)"
  by (auto simp: loop_upload_def split: sum.split intro: upload_next_inv)

lemma send_heartbeat_inv:
  assumes A: "aead_law A" "env_ok A v" and t: "tracker_inv A t"
  shows "tracker_inv A (fst (send_heartbeat v status transition answer t))"
proof -
  have a: "ev_aead v = A" "length (ev_nonce v) = 12" and q: "queue_inv A (tk_queue t)"
    using A(2) t by (simp_all add: env_ok_def tracker_inv_def)
  show ?thesis
  proof (cases "add_state A (ev_nonce v) (ev_text v) (heartbeat_event v
      (case status of Some s \<Rightarrow> if s \<noteq> [] then s else state_name t | None \<Rightarrow> state_name t) transition t) (tk_queue t)")
    case (Inl e)
    then show ?thesis using t by (simp add: send_heartbeat_def Let_def a)
  next
    case (Inr r)
    obtain q' e' where r: "r = (q', e')" by (cases r) auto
    let ?t = "t\<lparr>tk_queue := q', tk_idle_deduction := 0\<rparr>"
    have "queue_inv A q'" by (rule add_state_ok [OF A(1) a(2) q]) (use Inr r in simp)
    with t have t1: "tracker_inv A ?t" by (simp add: tracker_inv_def)
    show ?thesis
      using upload_state_inv [OF A t1] t1
      by (auto simp: send_heartbeat_def Let_def a Inr r split: sum.split)
  qed
qed

lemma loop_heartbeat_inv:
  assumes "aead_law A" "tick_ok A c" "tracker_inv A t"
  shows "tracker_inv A (loop_heartbeat c t)"
proof -
  have "env_ok A (tc_env c)" using assms(2) by (simp add: tick_ok_def)
  from send_heartbeat_inv [OF assms(1) this, of "t\<lparr>tk_heartbeat := False\<rparr>" None "tk_heartbeat t" "tc_heartbeat_answer c"]
  show ?thesis using assms(3) by (auto simp: loop_heartbeat_def journal_failed_def split: sum.splits prod.splits)
qed

lemma observe_inv:
  assumes A: "aead_law A" and c: "tick_ok A c" and t: "tracker_inv A t"
  shows "tracker_inv A (observe_usage c t)"
proof -
  have a: "ev_aead (tc_env c) = A" "length (ev_nonce (tc_env c)) = 12" "length (tc_draw c 3) = 12"
    using c by (simp_all add: tick_ok_def env_ok_def)
  show ?thesis
    using t by (auto simp: observe_usage_def journal_failed_def Let_def a tracker_inv_def intro: add_usage_ok [OF A a(2,3)]
        split: option.splits sum.splits)
qed

lemma capture_inv:
  assumes A: "aead_law A" and c: "tick_ok A c" and t: "tracker_inv A t"
  shows "tracker_inv A (capture_to_queue c t)"
proof -
  have a: "ev_aead (tc_env c) = A" "\<And>n. length (tc_draw c n) = 12" "valid_id (ev_id (tc_env c))"
    using c by (simp_all add: tick_ok_def env_ok_def)
  show ?thesis
  proof (cases "tk_screenshots t \<and> \<not> suspended t \<and> (tc_capture_due c \<or> tk_capture t)")
    case True
    note k = capture_to_queue_def if_P [OF True]
    show ?thesis
    proof (cases "tc_shot c")
      case None
      then show ?thesis using t by (simp add: k Let_def)
    next
      case (Some s)
      obtain shot blurred activity url where s: "s = (shot, blurred, activity, url)" by (cases s) auto
      define t1 where "t1 = (let t0 = t\<lparr>tk_capture := False\<rparr> in if tk_track_urls t0 then t0\<lparr>tk_url := url\<rparr> else t0)"
      have t1: "tracker_inv A t1" using t by (simp add: t1_def Let_def)
      let ?r = "add_to_queue A (tc_draw c) (ev_id (tc_env c)) (ev_text (tc_env c)) (if tk_blur t1 then blurred else shot)
          activity (tk_app t1) (ev_text (tc_env c)) (tk_session t1) (tk_url t1) (tk_blur t1) (tk_queue t1)"
      have "queue_inv A (fst ?r)"
        by (rule add_to_queue_ok [where draw = "tc_draw c", OF A a(2) _ a(3)]) (use t1 in \<open>simp add: tracker_inv_def\<close>)
      moreover obtain q r where r: "?r = (q, r)" by (cases ?r) auto
      ultimately have q: "queue_inv A q" by simp
      have "capture_to_queue c t = (case r of Inl _ \<Rightarrow> t1\<lparr>tk_queue := q, tk_status := ''Capture failed''\<rparr>
          | Inr _ \<Rightarrow> t1\<lparr>tk_queue := q, tk_status := ''Queued ('' @ int_text (oq_pending q) @ '' pending)''\<rparr>)"
        using r unfolding k Some option.case s prod.case Let_def a t1_def by (cases r) simp_all
      then show ?thesis using q t1 by (cases r) (simp_all add: tracker_inv_def)
    qed
  next
    case False
    show ?thesis using t by (simp only: capture_to_queue_def if_not_P [OF False])
  qed
qed

lemma refresh_inv:
  assumes A: "aead_law A" and c: "tick_ok A c" and t: "tracker_inv A t"
  shows "tracker_inv A (fst (refresh_policy c t))"
proof (cases "tc_refresh c")
  case (Some r)
  have v: "env_ok A (tc_env c)" using c by (simp add: tick_ok_def)
  show ?thesis
  proof (cases r)
    case (Some p)
    have "tracker_inv A (fst (catalog (tc_env c) p t))" by (rule catalog_inv [OF A v t])
    then show ?thesis using \<open>tc_refresh c = Some r\<close> Some
      by (cases "catalog (tc_env c) p t") (auto simp: refresh_policy_def split: sum.split error.split)
  qed (use t \<open>tc_refresh c = Some r\<close> in \<open>simp add: refresh_policy_def\<close>)
qed (use t in \<open>simp add: refresh_policy_def\<close>)

lemma turn_inv:
  assumes A: "aead_law A" and c: "tick_ok A c" and t: "tracker_inv A t"
  shows "tracker_inv A (fst (loop_turn c t))"
proof -
  have v: "env_ok A (tc_env c)" using c by (simp add: tick_ok_def)
  obtain t1 r1 where p: "refresh_policy c t = (t1, r1)" by (cases "refresh_policy c t") auto
  with refresh_inv [OF A c t] have t1: "tracker_inv A t1" by simp
  obtain t2 r2 where a: "apply_automatic_tracking (tc_env c) (tc_system_idle c) (tc_input_idle c) t1 = (t2, r2)"
    by (cases "apply_automatic_tracking (tc_env c) (tc_system_idle c) (tc_input_idle c) t1") auto
  with automatic_inv [OF A v t1, of "tc_system_idle c" "tc_input_idle c"] have t2: "tracker_inv A t2" by simp
  note last = capture_inv [OF A c loop_heartbeat_inv [OF A c observe_inv [OF A c idle_inv [OF t2]]]]
  show ?thesis using t1 t2 last loop_upload_inv [OF A v last]
    by (cases r1; cases r2) (simp_all add: loop_turn_def p a Let_def)
qed

subsection \<open>Runs of the agent\<close>

datatype tracker_op =
    Start
  | Pause
  | Resume
  | Toggle
  | Stop env
  | Select string string
  | Note string
  | Browser env string string string string
  | Configure env json
  | Remind env
  | Respond string bool
  | Turn tick

definition tracker_exec :: "tracker_op \<Rightarrow> tracker \<Rightarrow> error + tracker" where
  "tracker_exec c t =
     (case c of
        Start \<Rightarrow> start_tracking t
      | Pause \<Rightarrow> pause_tracking t
      | Resume \<Rightarrow> resume_tracking t
      | Toggle \<Rightarrow> toggle_pause t
      | Stop v \<Rightarrow> Inr (stop_tracking v False t)
      | Select project task \<Rightarrow> Inr (select_work project task t)
      | Note txt \<Rightarrow> Inr (set_note txt t)
      | Browser v action project task txt \<Rightarrow> Inr (fst (browser_timer_action v action project task txt t))
      | Configure v values \<Rightarrow> configure_tracking_reminders v values t
      | Remind v \<Rightarrow> Inr (fst (tracking_reminder v t))
      | Respond i accepted \<Rightarrow> Inr (respond_automatic_policy i accepted t)
      | Turn c \<Rightarrow> Inr (fst (loop_turn c t)))"

definition op_ok :: "aead \<Rightarrow> tracker_op \<Rightarrow> bool" where
  "op_ok A c \<longleftrightarrow>
     (case c of
        Stop v \<Rightarrow> env_ok A v
      | Browser v action project task txt \<Rightarrow> env_ok A v
      | Configure v values \<Rightarrow> env_ok A v
      | Remind v \<Rightarrow> env_ok A v
      | Turn c \<Rightarrow> tick_ok A c
      | _ \<Rightarrow> True)"

interpretation tracker_run: transactional tracker_exec "\<lambda>t. aead_law A \<and> tracker_inv A t" "op_ok A" for A
proof (unfold_locales, elim conjE, intro conjI)
  fix t c t' assume A: "aead_law A" and t: "tracker_inv A t" and c: "op_ok A c" and r: "tracker_exec c t = Inr t'"
  show "tracker_inv A t'"
  proof (cases c)
    case Browser
    then show ?thesis using r c browser_inv [OF A _ t] by (auto simp: tracker_exec_def op_ok_def)
  next
    case Remind
    then show ?thesis using r c remind_inv [OF A _ t] by (auto simp: tracker_exec_def op_ok_def)
  next
    case Turn
    then show ?thesis using r c turn_inv [OF A _ t] by (auto simp: tracker_exec_def op_ok_def)
  qed (use r c t in \<open>auto simp: tracker_exec_def op_ok_def intro: timer_inv toggle_inv stop_inv [OF A] configure_inv [OF A]\<close>)
qed

end
