(* ===== verification/Tracker_Safety.thy ===== *)
theory Tracker_Safety
  imports Tracker_Invariant
begin

text \<open>
  What the employee and the team can rely on: automatic tracking only as agreed, a stop that lasts,
  nothing recorded during time off, reminders that keep their distance, and uploads that lose
  nothing and finish.
\<close>

subsection \<open>Automatic tracking respects the employee\<close>

lemma interval_open: "c \<in> set (interval_candidates d wall interval) \<Longrightarrow> wall < fst (snd c)"
  by (auto simp: interval_candidates_def Let_def split: json.splits option.splits if_splits prod.splits)

lemma active_window_sound:
  assumes "active_window show parse policy now offset = Some w"
  shows "\<exists>kvs. policy = Some kvs \<and> jget ''consent_status'' kvs = JString ''accepted'' \<and> now < aw_ends w"
proof -
  obtain kvs where kvs: "policy = Some kvs" "jget ''consent_status'' kvs = JString ''accepted''"
    using assms by (auto simp: active_window_def split: option.splits if_splits)
  consider (fixed) "fixed_window show kvs now offset = Some w" | (shift) "shift_window show parse kvs now = Some w"
    using assms by (auto simp: active_window_def kvs split: if_splits)
  then have "now < aw_ends w"
  proof cases
    case fixed
    let ?wall = "now + offset"
    let ?day = "\<lambda>schedule d. case jget_or (day_name d) (JList []) schedule of
        JList intervals \<Rightarrow> concat (map (interval_candidates d ?wall) (take 8 intervals)) | _ \<Rightarrow> []"
    have day: "?wall < fst (snd c)" if "c \<in> set (?day schedule d)" for c schedule d
      using that by (auto split: json.splits intro: interval_open)
    from fixed obtain schedule c where
        e: "earliest fst (concat (map (?day schedule) [date_of ?wall - 1, date_of ?wall])) = Some c" and w: "aw_ends w = fst (snd c) - offset"
      unfolding fixed_window_def Let_def by (auto simp only: json.simps option.simps map_option_eq_Some prod.case split: json.splits prod.splits) auto
    from earliest_Some [OF e] obtain d where "c \<in> set (?day schedule d)" by auto
    from day [OF this] w show ?thesis by simp
  next
    case shift
    then obtain windows c where "jget ''shift_windows'' kvs = JList windows"
      and e: "earliest fst (concat (map (shift_candidate show parse kvs now) (take 100 windows))) = Some c" and w: "aw_ends w = fst (snd c)"
      by (auto simp: shift_window_def split: json.splits)
    from earliest_Some [OF e] obtain x where "c \<in> set (shift_candidate show parse kvs now x)" by auto
    with w show ?thesis by (auto simp: shift_candidate_def Let_def split: json.splits option.splits if_splits)
  qed
  with kvs show ?thesis by blast
qed

text \<open>C7. Automatic tracking acts for the employee only within what was agreed.  A timer the employee
  runs is never touched, neither stopped nor moved to another project.  A timer starts by itself
  only under an accepted policy, within one of its windows that has not ended and that the
  employee has not left by stopping, after recent activity when the policy waits for it, and on
  the project of the window.\<close>

theorem automatic_respects_employee:
  assumes "apply_automatic_tracking v system_idle input_idle t = (t', r)"
  shows "(tk_timer t \<noteq> Timer_Stopped \<and> \<not> tk_auto_started t \<longrightarrow>
      tk_timer t' = tk_timer t \<and> tk_project t' = tk_project t \<and> tk_task t' = tk_task t \<and> tk_listening t' = tk_listening t) \<and>
    (tk_timer t = Timer_Stopped \<and> tk_timer t' \<noteq> Timer_Stopped \<longrightarrow>
      (\<exists>kvs w. tk_policy t = Some kvs \<and> jget ''consent_status'' kvs = JString ''accepted'' \<and>
        active_window (ev_show v) (ev_parse v) (tk_policy t) (ev_now v) (ev_offset v) = Some w \<and> ev_now v < aw_ends w \<and>
        tk_suppressed t \<noteq> aw_key w \<and> tk_window_key t \<noteq> aw_key w \<and> tk_window_key t' = aw_key w \<and> tk_auto_started t' \<and>
        tk_project t' = aw_project w \<and> aw_project w \<noteq> [] \<and>
        (jtruthy (jget ''wait_for_activity'' kvs) \<longrightarrow> recent_activity system_idle input_idle)))"
proof (cases "active_window (ev_show v) (ev_parse v) (tk_policy t) (ev_now v) (ev_offset v)")
  case None
  note a = assms [unfolded apply_automatic_tracking_def None Let_def option.case]
  obtain q where k: "keep_local v suppression_key [] x = x\<lparr>tk_queue := q x\<rparr>" for x
    using keep_local_eq [of v suppression_key "[]"] by metis
  show ?thesis using a by (auto simp: k split: if_splits)
next
  case (Some w)
  obtain kvs where kvs: "tk_policy t = Some kvs" "jget ''consent_status'' kvs = JString ''accepted''" "ev_now v < aw_ends w"
    using active_window_sound [OF Some] by blast
  have ne: "kvs \<noteq> []" using Some kvs(1) by (auto simp: active_window_def)
  have s: "active_window (ev_show v) (ev_parse v) (Some kvs) (ev_now v) (ev_offset v) = Some w" using Some kvs by simp
  show ?thesis
    using assms kvs(2,3) ne
    by (auto simp: apply_automatic_tracking_def s kvs(1) select_work_def start_tracking_def Let_def split: if_splits)
qed




lemma keep_local_rows [simp]:
  "oq_records (tk_queue (keep_local v key val t)) = oq_records (tk_queue t)"
  "oq_usage (tk_queue (keep_local v key val t)) = oq_usage (tk_queue t)"
  "oq_states (tk_queue (keep_local v key val t)) = oq_states (tk_queue t)"
  "oq_quarantined (tk_queue (keep_local v key val t)) = oq_quarantined (tk_queue t)"
  by (auto simp: keep_local_def set_local_state_def Let_def split: sum.split)

lemma stop_rows [simp]:
  "oq_records (tk_queue (stop_tracking v automatic t)) = oq_records (tk_queue t)"
  "oq_usage (tk_queue (stop_tracking v automatic t)) = oq_usage (tk_queue t)"
  "oq_states (tk_queue (stop_tracking v automatic t)) = oq_states (tk_queue t)"
  "oq_quarantined (tk_queue (stop_tracking v automatic t)) = oq_quarantined (tk_queue t)"
  by (simp_all add: stop_tracking_def defer_tracking_reminder_def Let_def)

lemma outbox_rows [simp]:
  "oq_records (acknowledge_state e q) = oq_records q" "oq_usage (acknowledge_state e q) = oq_usage q"
  "oq_records (acknowledge_usage u q) = oq_records q" "oq_states (acknowledge_usage u q) = oq_states q"
  "oq_usage (acknowledge_record r q) = oq_usage q" "oq_states (acknowledge_record r q) = oq_states q"
  "oq_records (write_quarantine A nonce now kind i payload reason q) = oq_records q"
  "oq_usage (write_quarantine A nonce now kind i payload reason q) = oq_usage q"
  "oq_states (write_quarantine A nonce now kind i payload reason q) = oq_states q"
  "oq_quarantined (acknowledge_state e q) = oq_quarantined q" "oq_quarantined (acknowledge_usage u q) = oq_quarantined q"
  "oq_quarantined (acknowledge_record r q) = oq_quarantined q" "oq_quarantined (delete_record i q) = oq_quarantined q"
  "oq_quarantined (write_quarantine A nonce now kind i payload reason q) = oq_quarantined q + 1"
  "oq_usage (delete_record i q) = oq_usage q" "oq_states (delete_record i q) = oq_states q"
  by (simp_all add: acknowledge_state_def acknowledge_usage_def acknowledge_record_def delete_record_def write_quarantine_def Let_def)

lemma removed_rows [simp]:
  "set (oq_usage (acknowledge_usage u q)) \<subseteq> set (oq_usage q)"
  "set (oq_records (acknowledge_record r q)) \<subseteq> set (oq_records q)"
  "set (oq_records (delete_record i q)) \<subseteq> set (oq_records q)"
  by (auto simp: acknowledge_usage_def acknowledge_record_def delete_record_def Let_def delete_where_def)

lemma quarantine_rows [simp]:
  "oq_records (quarantine_state A nonce now e reason q) = oq_records q"
  "oq_usage (quarantine_state A nonce now e reason q) = oq_usage q"
  "oq_records (quarantine_usage A nonce now u reason q) = oq_records q"
  "set (oq_usage (quarantine_usage A nonce now u reason q)) \<subseteq> set (oq_usage q)"
  "oq_usage (quarantine_record A nonce now r reason q) = oq_usage q"
  "set (oq_records (quarantine_record A nonce now r reason q)) \<subseteq> set (oq_records q)"
  using removed_rows(1) [of u "write_quarantine A nonce now ''usage'' (ue_id u) (usage_json u) reason q"]
    removed_rows(3) [of "qr_id r" "write_quarantine A nonce now ''screenshot'' (qr_id r) (record_json r) reason
       (q\<lparr>oq_files := move_file (qr_path r) (quarantine_path (oq_dir q) (qr_id r) ''.screenshot.dfq'') (oq_files q)\<rparr>)"]
  by (simp_all add: quarantine_state_def quarantine_usage_def quarantine_record_def)

lemmas fewer_rows [dest] = removed_rows [THEN subsetD] quarantine_rows(4,6) [THEN subsetD]

lemma message_policy [simp]:
  "tk_policy (attention t) = tk_policy t" "tk_policy (offline n t) = tk_policy t" "tk_policy (note_rejection t) = tk_policy t"
  "tk_suppressed (attention t) = tk_suppressed t" "tk_suppressed (offline n t) = tk_suppressed t" "tk_suppressed (note_rejection t) = tk_suppressed t"
  "suspended (attention t) = suspended t" "suspended (offline n t) = suspended t" "suspended (note_rejection t) = suspended t"
  by (simp_all add: attention_def offline_def note_rejection_def suspended_def Let_def)


lemma suspended_fields [simp]:
  "suspended (t\<lparr>tk_status := s\<rparr>) = suspended t" "suspended (t\<lparr>tk_queue := q\<rparr>) = suspended t"
  "suspended (t\<lparr>tk_rejections := n\<rparr>) = suspended t" "suspended (t\<lparr>tk_session := s\<rparr>) = suspended t"
  "suspended (t\<lparr>tk_screenshots := b\<rparr>) = suspended t" "suspended (t\<lparr>tk_blur := b\<rparr>) = suspended t"
  "suspended (t\<lparr>tk_heartbeat := b\<rparr>) = suspended t" "suspended (t\<lparr>tk_idle_deduction := n\<rparr>) = suspended t"
  by (simp_all add: suspended_def)







subsection \<open>Stopping is final, and time off is private\<close>


lemma idle_fields [simp]:
  "tk_policy (update_idle_state i j t) = tk_policy t" "tk_suppressed (update_idle_state i j t) = tk_suppressed t"
  "tk_timer (update_idle_state i j t) = tk_timer t" "tk_queue (update_idle_state i j t) = tk_queue t"
  by (auto simp: update_idle_state_def split: option.splits)











subsection \<open>Reminders are spaced\<close>

lemma after_reminder:
  assumes "tk_last_sent t = Some (Aware m 0)" "m \<le> ev_now v" "ev_now v < m + seconds (60 * rs_interval (tk_reminders t))"
  shows "tracking_reminder v t = (t, None)"
  using assms by (auto simp: tracking_reminder_def reminder_is_due_def Let_def split: option.splits)

text \<open>Reminders do not nag: one is shown only while the timer is stopped and its window is open,
  and after it, or after the timer stops within the window, polling again before the chosen
  interval has passed shows none and changes nothing.\<close>

theorem reminders_are_spaced:
  assumes "tracking_reminder v t = (t1, Some shown) \<or>
      t1 = stop_tracking v automatic t \<and> tk_timer t \<noteq> Timer_Stopped \<and> active_reminder_window (tk_reminders t) (ev_now v) (ev_offset v) \<noteq> None"
    and "ev_now v \<le> ev_now v'" and "ev_now v' < ev_now v + seconds (60 * rs_interval (tk_reminders t))"
  shows "tracking_reminder v' t1 = (t1, None) \<and>
    (tracking_reminder v t = (t1, Some shown) \<longrightarrow>
      tk_timer t = Timer_Stopped \<and> active_reminder_window (tk_reminders t) (ev_now v) (ev_offset v) \<noteq> None)"
proof -
  have sent: "tk_last_sent (keep_local v reminder_key x y) = tk_last_sent y" for x y by simp
  have "tk_last_sent t1 = Some (Aware (ev_now v) 0) \<and> tk_reminders t1 = tk_reminders t"
    using assms(1)
  proof
    assume "tracking_reminder v t = (t1, Some shown)"
    then show ?thesis by (auto simp: tracking_reminder_def split: if_splits option.splits)
  next
    assume "t1 = stop_tracking v automatic t \<and> tk_timer t \<noteq> Timer_Stopped \<and> active_reminder_window (tk_reminders t) (ev_now v) (ev_offset v) \<noteq> None"
    then show ?thesis by (auto simp: stop_tracking_def defer_tracking_reminder_def Let_def)
  qed
  with after_reminder [of t1 "ev_now v" v'] assms(2,3) have "tracking_reminder v' t1 = (t1, None)" by simp
  moreover have "tracking_reminder v t = (t1, Some shown) \<longrightarrow>
      tk_timer t = Timer_Stopped \<and> active_reminder_window (tk_reminders t) (ev_now v) (ev_offset v) \<noteq> None"
    by (auto simp: tracking_reminder_def reminder_is_due_def split: if_splits option.splits)
  ultimately show ?thesis by blast
qed

subsection \<open>Sending refines a queue\<close>

lemma sort_key_Nil: "sort_key k xs = [] \<longleftrightarrow> xs = []"
  by (metis length_0_conv length_sort)

context outbox
begin

lemma head_ready:
  assumes d: "distinct (map ident (rows q))" and o: "\<forall>r \<in> set (rows q). \<exists>e. open_row r = Inr e" and ne: "rows q \<noteq> []"
  shows "\<exists>e r rs. sort_key order (rows q) = r # rs \<and> r \<in> set (rows q) \<and> open_row r = Inr e \<and> pending 1 q = Inr [e] \<and>
    (\<forall>q'. rows q' = rows q \<longrightarrow> sort_key order (rows (ack e q')) = rs)"
proof -
  obtain r rs where s: "sort_key order (rows q) = r # rs"
    using ne sort_key_Nil [of order "rows q"] by (cases "sort_key order (rows q)") auto
  then have r: "r \<in> set (rows q)" by (metis list.set_intros(1) set_sort)
  with o obtain e where e: "open_row r = Inr e" by blast
  have "sort_key order (rows (ack e q')) = rs" if "rows q' = rows q" for q'
    by (rule sorted_ack [OF _ _ e]) (use that d s in simp_all)
  then show ?thesis using s r e pending_one [OF s] by auto
qed

end

text \<open>
  The abstraction: the time states, the usage and the screenshots that wait, each oldest first.
  What is sent next is the oldest time state, then the oldest usage, then the oldest screenshot.
\<close>

type_synonym backlog = "journal_row list \<times> usage_row list \<times> queue_row list"

definition backlog_of :: "offline_queue \<Rightarrow> backlog" where
  "backlog_of q = (sort_key state_order (oq_states q), sort_key usage_order (oq_usage q), sort_key qr_created (oq_records q))"

fun send_next :: "backlog \<Rightarrow> backlog" where
  "send_next (s # ss, us, rs) = (ss, us, rs)"
| "send_next ([], u # us, rs) = ([], us, rs)"
| "send_next ([], [], rs) = ([], [], tl rs)"

definition backlog_size :: "backlog \<Rightarrow> nat" where
  "backlog_size b = length (fst b) + length (fst (snd b)) + length (snd (snd b))"

definition nothing_left :: backlog where "nothing_left = ([], [], [])"

lemma backlog_empty: "backlog_of q = nothing_left \<longleftrightarrow> oq_states q = [] \<and> oq_usage q = [] \<and> oq_records q = []"
  by (simp add: backlog_of_def nothing_left_def sort_key_Nil)

lemma backlog_size_0: "backlog_size b = 0 \<longleftrightarrow> b = nothing_left"
  by (cases b) (auto simp: backlog_size_def nothing_left_def)

lemma send_next_size: "backlog_size (send_next b) = backlog_size b - 1"
  by (cases b rule: send_next.cases) (simp_all add: backlog_size_def)

text \<open>What one round of uploading must do to the backlog and to the number of quarantined rows.\<close>

definition round_spec :: "answer \<Rightarrow> offline_queue \<Rightarrow> offline_queue \<Rightarrow> bool" where
  "round_spec answer q q' \<longleftrightarrow>
     (let sent = backlog_of q' = send_next (backlog_of q) \<and> oq_quarantined q' = oq_quarantined q;
          kept = backlog_of q' = backlog_of q \<and> oq_quarantined q' = oq_quarantined q
      in case answer of
           Accepted session \<Rightarrow> sent
         | Garbled \<Rightarrow> if oq_states q \<noteq> [] then kept else sent
         | Unreachable \<Rightarrow> kept
         | Rejected status body \<Rightarrow>
             if permanent status then backlog_of q' = send_next (backlog_of q) \<and> oq_quarantined q' = oq_quarantined q + 1
             else kept \<or> status = 403)"

lemma queue_ready:
  assumes "queue_inv A q"
  shows "distinct (map je_id (oq_states q))" "distinct (map ue_id (oq_usage q))" "distinct (map qr_id (oq_records q))"
    "\<forall>r \<in> set (oq_states q). \<exists>e. open_state A r = Inr e" "\<forall>r \<in> set (oq_usage q). \<exists>e. open_usage A r = Inr e"
    "\<forall>r \<in> set (oq_records q). \<exists>e. open_record A r = Inr e"
    "oq_pending_states q = int (length (oq_states q))" "oq_pending_usage q = int (length (oq_usage q))"
    "oq_pending q = int (length (oq_records q))"
  using assms open_state_ok open_usage_ok open_record_ok by (fastforce simp: queue_inv_def images_ok_def journals_ok_def)+

lemma permanent_known: "permanent status \<Longrightarrow> status \<noteq> 401 \<and> status \<noteq> 403"
  by (auto simp: permanent_def)

lemma message_queue [simp]: "tk_queue (journal_failed t) = tk_queue t"
  by (simp add: journal_failed_def)

lemma state_round:
  assumes q: "queue_inv A (tk_queue t)" "ev_aead v = A" and ne: "oq_states (tk_queue t) \<noteq> []"
  shows "round_spec answer (tk_queue t) (tk_queue (case upload_state_one v answer t of Inl e \<Rightarrow> t | Inr (t', b) \<Rightarrow> t'))"
proof -
  from states_box.head_ready [OF queue_ready(1,4) [OF q(1)] ne] obtain e r rs where
    s: "sort_key state_order (oq_states (tk_queue t)) = r # rs" and p: "pending_states A 1 (tk_queue t) = Inr [e]"
    and a: "oq_states q' = oq_states (tk_queue t) \<Longrightarrow> sort_key state_order (oq_states (acknowledge_state e q')) = rs" for q'
    by blast
  have z: "backlog_of (acknowledge_state e (tk_queue t)) = send_next (backlog_of (tk_queue t))"
    using a [of "tk_queue t"] by (simp add: backlog_of_def s)
  have k: "backlog_of (quarantine_state A n now e reason (tk_queue t)) = send_next (backlog_of (tk_queue t))"
    "oq_quarantined (quarantine_state A n now e reason (tk_queue t)) = oq_quarantined (tk_queue t) + 1" for n now reason
    using a [of "write_quarantine A n now ''state'' (je_id e) (state_json e) reason (tk_queue t)"]
    by (simp_all add: quarantine_state_def backlog_of_def s)
  have b: "backlog_of (tk_queue (stop_tracking v False x)) = backlog_of (tk_queue x)" for x by (simp add: backlog_of_def)
  note u = upload_state_one_def q(2) p sum.case list.case Let_def
  show ?thesis
  proof (cases answer)
    case (Rejected status body)
    then show ?thesis using permanent_known by (auto simp: u round_spec_def k b split: if_splits)
  qed (simp_all add: u round_spec_def z ne)
qed

lemma usage_round:
  assumes q: "queue_inv A (tk_queue t)" "ev_aead v = A" and ne: "oq_states (tk_queue t) = []" "oq_usage (tk_queue t) \<noteq> []"
  shows "round_spec answer (tk_queue t) (tk_queue (case upload_usage_one v answer t of Inl e \<Rightarrow> t | Inr (t', b) \<Rightarrow> t'))"
proof -
  from usage_box.head_ready [OF queue_ready(2,5) [OF q(1)] ne(2)] obtain e r rs where
    s: "sort_key usage_order (oq_usage (tk_queue t)) = r # rs" and p: "pending_usage A 1 (tk_queue t) = Inr [e]"
    and a: "oq_usage q' = oq_usage (tk_queue t) \<Longrightarrow> sort_key usage_order (oq_usage (acknowledge_usage e q')) = rs" for q'
    by blast
  have z: "backlog_of (acknowledge_usage e (tk_queue t)) = send_next (backlog_of (tk_queue t))"
    using a [of "tk_queue t"] by (simp add: backlog_of_def s ne)
  have k: "backlog_of (quarantine_usage A n now e reason (tk_queue t)) = send_next (backlog_of (tk_queue t))"
    "oq_quarantined (quarantine_usage A n now e reason (tk_queue t)) = oq_quarantined (tk_queue t) + 1" for n now reason
    using a [of "write_quarantine A n now ''usage'' (ue_id e) (usage_json e) reason (tk_queue t)"]
    by (simp_all add: quarantine_usage_def backlog_of_def s ne)
  note u = upload_usage_one_def q(2) p sum.case list.case Let_def
  show ?thesis
  proof (cases answer)
    case (Rejected status body)
    then show ?thesis using permanent_known by (auto simp: u round_spec_def k split: if_splits)
  qed (simp_all add: u round_spec_def z ne)
qed

lemma record_round:
  assumes q: "queue_inv A (tk_queue t)" "ev_aead v = A"
    and ne: "oq_states (tk_queue t) = []" "oq_usage (tk_queue t) = []" "oq_records (tk_queue t) \<noteq> []"
  shows "round_spec answer (tk_queue t) (tk_queue (case upload_one v answer t of Inl e \<Rightarrow> t | Inr (t', b) \<Rightarrow> t'))"
proof -
  from records_box.head_ready [OF queue_ready(3,6) [OF q(1)] ne(3)] obtain e r rs where
    s: "sort_key qr_created (oq_records (tk_queue t)) = r # rs" and p: "pending_records A 1 (tk_queue t) = Inr [e]"
    and r: "r \<in> set (oq_records (tk_queue t))" "open_record A r = Inr e"
    and a: "oq_records q' = oq_records (tk_queue t) \<Longrightarrow> sort_key qr_created (oq_records (acknowledge_record e q')) = rs" for q'
    by blast
  have z: "backlog_of (acknowledge_record e (tk_queue t)) = send_next (backlog_of (tk_queue t))"
    using a [of "tk_queue t"] by (simp add: backlog_of_def s ne)
  have "sort_key qr_created (oq_records (delete_record (qr_id e) q')) = rs" if "oq_records q' = oq_records (tk_queue t)" for q'
    using a [OF that] by (simp add: acknowledge_record_def Let_def)
  then have k: "backlog_of (quarantine_record A n now e reason (tk_queue t)) = send_next (backlog_of (tk_queue t))"
    "oq_quarantined (quarantine_record A n now e reason (tk_queue t)) = oq_quarantined (tk_queue t) + 1" for n now reason
    by (simp_all add: quarantine_record_def backlog_of_def s ne)
  obtain bs where i: "read_screenshot A e (tk_queue t) = Inr bs"
    using open_record_row [OF r(2)] r(1) q(1) by (auto simp: queue_inv_def images_ok_def record_ok_def read_screenshot_def)
  note u = upload_one_def q(2) p sum.case list.case Let_def i
  show ?thesis
  proof (cases answer)
    case (Rejected status body)
    then show ?thesis using permanent_known by (auto simp: u round_spec_def k split: if_splits)
  qed (simp_all add: u round_spec_def z ne)
qed

lemma upload_round:
  assumes t: "tracker_inv A t" and v: "env_ok A v" and ne: "backlog_of (tk_queue t) \<noteq> nothing_left"
  shows "round_spec answer (tk_queue t) (tk_queue (loop_upload v answer t))"
proof -
  have q: "queue_inv A (tk_queue t)" "ev_aead v = A" using t v by (simp_all add: tracker_inv_def env_ok_def)
  have l: "tk_queue (loop_upload v answer t) = tk_queue (case upload_next v answer t of Inl e \<Rightarrow> t | Inr (t', b) \<Rightarrow> t')"
    using ne queue_ready(7-9) [OF q(1)] unfolding backlog_empty loop_upload_def by (auto split: sum.split)
  show ?thesis unfolding l upload_next_def
    using queue_ready(7-9) [OF q(1)] state_round [OF q] usage_round [OF q] record_round [OF q] ne unfolding backlog_empty by auto
qed


lemma rounds_drain:
  "aead_law A \<Longrightarrow> env_ok A v \<Longrightarrow> tracker_inv A t \<Longrightarrow> backlog_size (backlog_of (tk_queue t)) \<le> n \<Longrightarrow>
   backlog_of (tk_queue ((loop_upload v (Accepted session) ^^ n) t)) = nothing_left"
proof (induction n arbitrary: t)
  case (Suc n)
  let ?t = "loop_upload v (Accepted session) t"
  have inv: "tracker_inv A ?t" by (rule loop_upload_inv [OF Suc.prems(1-3)])
  have "backlog_size (backlog_of (tk_queue ?t)) \<le> n"
  proof (cases "backlog_of (tk_queue t) = nothing_left")
    case True
    with queue_ready(7-9) [of A "tk_queue t"] Suc.prems(3) have "?t = t"
      unfolding backlog_empty by (auto simp: loop_upload_def tracker_inv_def)
    with True show ?thesis by (simp add: backlog_size_def nothing_left_def)
  next
    case False
    from upload_round [OF Suc.prems(3,2) False, of "Accepted session"] Suc.prems(4) show ?thesis
      by (simp add: round_spec_def send_next_size)
  qed
  from Suc.IH [OF Suc.prems(1,2) inv this] show ?case by (simp add: funpow_swap1)
qed (simp add: backlog_size_0)

text \<open>C30. Work done offline reaches the server: once the server accepts, as many rounds of the loop as
  there are rows empty the queue, and later rounds leave it empty.\<close>

theorem uploads_drain:
  assumes "aead_law A" and "env_ok A v" and "tracker_inv A t"
    and "length (oq_states (tk_queue t)) + length (oq_usage (tk_queue t)) + length (oq_records (tk_queue t)) \<le> n"
  shows "(let q = tk_queue ((loop_upload v (Accepted session) ^^ n) t) in
    oq_states q = [] \<and> oq_usage q = [] \<and> oq_records q = [] \<and> oq_pending_states q = 0 \<and> oq_pending_usage q = 0 \<and> oq_pending q = 0)"
proof -
  let ?t = "(loop_upload v (Accepted session) ^^ n) t"
  have "tracker_inv A ?t" by (induction n) (simp_all add: assms(3) loop_upload_inv [OF assms(1,2)])
  then have "queue_inv A (tk_queue ?t)" by (simp add: tracker_inv_def)
  with rounds_drain [OF assms(1-3), of n session] assms(4) queue_ready(7-9) [of A "tk_queue ?t"] show ?thesis
    unfolding backlog_empty by (simp add: backlog_size_def backlog_of_def Let_def)
qed

text \<open>C5. Whatever the employee, the browser, the policy and the server do, in any order and with any
  failures, the agent stays sound: its encrypted queue keeps its invariant, and keyboard and mouse
  are listened to exactly while the timer runs.\<close>

theorem tracker_runs:
  assumes "aead_law A" and "tracker_inv A t" and "list_all (op_ok A) cs"
  shows "tracker_inv A (exec_all tracker_exec cs t)"
  using tracker_run.exec_all_inv [of A t cs] assms by simp

subsection \<open>Examples\<close>

definition sample_env :: "timestamp \<Rightarrow> env" where
  "sample_env now = \<lparr>ev_aead = plain_aead, ev_nonce = nonce12, ev_text = ''t1'', ev_now = now, ev_offset = 0,
     ev_show = (\<lambda>_. []), ev_parse = (\<lambda>_. None), ev_interval = 60, ev_id = ''e1''\<rparr>"

definition night_policy :: "(string \<times> json) list" where
  "night_policy = [(''id'', JString ''p''), (''consent_status'', JString ''accepted''), (''rule_type'', JString ''fixed_schedule''),
     (''project_id'', JString ''x''), (''wait_for_activity'', JBool True),
     (''schedule'', JObject [(''fri'', JList [JObject [(''start'', JString ''22:00''), (''end'', JString ''06:00'')]])])]"

text \<open>Two time states wait in the queue.\<close>

definition waiting_queue :: offline_queue where
  "waiting_queue = (fresh_queue ''d'' 5)\<lparr>
     oq_states := [journal_event.extend (new_state ''a'' ''t1'' ''active'' ''k'' ''x'' [] 0 60 True) (journal_row.fields ''t1''),
       journal_event.extend (new_state ''b'' ''t2'' ''paused'' ''k'' ''x'' [] 30 60 True) (journal_row.fields ''t2'')],
     oq_pending_states := 2\<rparr>"

lemma waiting_queue_inv: "queue_inv A waiting_queue"
  by (simp add: queue_inv_def images_ok_def journals_ok_def waiting_queue_def fresh_queue_def new_state_def journal_event.defs
      journal_row.defs state_ok_def kept_Nil)

definition idle_tracker :: tracker where
  "idle_tracker = \<lparr>tk_queue = waiting_queue, tk_timer = Timer_Stopped, tk_status = [], tk_project = ''x'', tk_task = [], tk_note = [],
     tk_auto_idle = False, tk_idle_deduction = 0, tk_idle_timeout = 1200, tk_listening = False, tk_heartbeat = False, tk_capture = False,
     tk_policy = Some night_policy, tk_window_key = [], tk_auto_started = False, tk_suppressed = [], tk_projects = [],
     tk_reminders = night_reminders, tk_last_sent = None, tk_screenshots = True, tk_blur = False, tk_track_apps = True,
     tk_track_urls = False, tk_capture_interval = 600, tk_app = ''Editor'', tk_url = [], tk_session = [], tk_rejections = 0,
     tk_revoked = False, tk_stopping = False\<rparr>"

text \<open>Saturday 2026-01-10, 01:00, within the window of Friday night.\<close>

definition night :: timestamp where "night = combine 739626 (seconds 3600)"

definition night_tick :: "rat option \<Rightarrow> answer \<Rightarrow> tick" where
  "night_tick idle answer = \<lparr>tc_env = sample_env night, tc_refresh = None, tc_system_idle = idle, tc_input_idle = None,
     tc_observed = Some (''Editor'', []), tc_heartbeat_due = True, tc_capture_due = True,
     tc_shot = Some (''jpeg'', ''blur'', \<lparr>an_keys = 1, an_clicks = 2, an_distance = 3, an_focused = 4, an_interactive = 5,
       an_automation = False\<rparr>, []), tc_draw = (\<lambda>_. nonce12), tc_heartbeat_answer = answer, tc_upload_due = True,
     tc_upload_answer = answer\<rparr>"

lemma sample_env_ok: "env_ok plain_aead (sample_env now)"
  by (simp add: env_ok_def sample_env_def valid_id_def)

lemma night_tick_ok: "tick_ok plain_aead (night_tick idle answer)"
  using sample_env_ok by (simp add: tick_ok_def night_tick_def)

lemma idle_tracker_inv: "tracker_inv plain_aead idle_tracker"
  by (simp add: tracker_inv_def idle_tracker_def waiting_queue_inv)

theorem automatic_respects_employee_witness:
  "(\<exists>kvs. tk_policy idle_tracker = Some kvs \<and> jget ''consent_status'' kvs = JString ''accepted'') \<and>
   recent_activity (Some 3) None"
proof -
  let ?r = "apply_automatic_tracking (sample_env night) (Some 3) None idle_tracker"
  have r: "?r = (fst ?r, snd ?r)" by simp
  have "tk_timer idle_tracker = Timer_Stopped" "tk_timer (fst ?r) \<noteq> Timer_Stopped" by (simp add: idle_tracker_def, code_simp)
  with automatic_respects_employee [OF r] have "\<exists>kvs. tk_policy idle_tracker = Some kvs \<and> jget ''consent_status'' kvs = JString ''accepted'' \<and>
      (jtruthy (jget ''wait_for_activity'' kvs) \<longrightarrow> recent_activity (Some 3) None)" by blast
  moreover have "jtruthy (jget ''wait_for_activity'' night_policy)" by code_simp
  ultimately show ?thesis by (auto simp: idle_tracker_def)
qed




theorem reminders_are_spaced_witness:
  "snd (tracking_reminder (sample_env (night + seconds 60)) (fst (tracking_reminder (sample_env night) idle_tracker))) = None"
proof -
  let ?r = "tracking_reminder (sample_env night) idle_tracker"
  have "reminder_is_due night_reminders night 0 None \<noteq> None" by code_simp
  then have "snd ?r \<noteq> None" by (auto simp: tracking_reminder_def idle_tracker_def sample_env_def)
  then obtain t1 m where r: "?r = (t1, Some m)" by (cases ?r) auto
  have "ev_now (sample_env night) \<le> ev_now (sample_env (night + seconds 60))"
    "ev_now (sample_env (night + seconds 60)) < ev_now (sample_env night) + seconds (60 * rs_interval (tk_reminders idle_tracker))"
    by (simp_all add: sample_env_def idle_tracker_def night_reminders_def default_reminders_def seconds_def usec_per_second_def)
  from reminders_are_spaced [OF disjI1 [OF r] this] r show ?thesis by simp
qed


theorem uploads_drain_witness:
  "oq_states (tk_queue ((loop_upload (sample_env night) (Accepted ''s'') ^^ 2) idle_tracker)) = []"
proof -
  have "length (oq_states (tk_queue idle_tracker)) + length (oq_usage (tk_queue idle_tracker)) + length (oq_records (tk_queue idle_tracker)) \<le> 2"
    by (simp add: idle_tracker_def waiting_queue_def fresh_queue_def)
  from uploads_drain [OF plain_aead_law sample_env_ok idle_tracker_inv this, of night "''s''"] show ?thesis by (simp add: Let_def)
qed

theorem tracker_runs_witness:
  "tracker_inv plain_aead (exec_all tracker_exec
     [Turn (night_tick (Some 3) (Accepted ''s'')), Pause, Resume, Turn (night_tick (Some 3) (Rejected 422 ''bad'')), Stop (sample_env night),
      Remind (sample_env night)] idle_tracker)"
proof -
  have "list_all (op_ok plain_aead) [Turn (night_tick (Some 3) (Accepted ''s'')), Pause, Resume,
      Turn (night_tick (Some 3) (Rejected 422 ''bad'')), Stop (sample_env night), Remind (sample_env night)]"
    by (simp add: op_ok_def night_tick_ok sample_env_ok)
  from tracker_runs [OF plain_aead_law idle_tracker_inv this] show ?thesis .
qed

end
