(* ===== verification/Update_Check.thy ===== *)
theory Update_Check
  imports Offline_Queue Agent_Windows
begin

section \<open>Updates of the desktop agent\<close>

text \<open>
  \<open>agent/update.py\<close>.  \<open>UpdateError\<close> is a \<open>ValueError\<close>.  Parameters are what the code does not
  contain: \<open>urlparse\<close> and \<open>urljoin\<close>, \<open>json.loads\<close>, \<open>datetime.fromisoformat\<close>, SHA-256, the check of
  an Ed25519 signature, and the server, which may answer each request differently.
\<close>

subsection \<open>Versions\<close>

datatype ident = Numeric nat | Textual string

datatype semver = Semver nat nat nat "ident list option"

definition ident_char :: "char \<Rightarrow> bool" where
  "ident_char c \<longleftrightarrow> ascii_digit c \<or> (65 \<le> code c \<and> code c \<le> 90) \<or> (97 \<le> code c \<and> code c \<le> 122) \<or> c = CHR ''-''"

text \<open>\<open>0|[1-9]\d*\<close>: the number at the front and the rest.\<close>

definition take_number :: "string \<Rightarrow> (nat \<times> string) option" where
  "take_number s =
     (let ds = takeWhile ascii_digit s
      in if ds = [] \<or> (hd ds = CHR ''0'' \<and> ds \<noteq> ''0'') then None else Some (nat_of_digits ds, drop (length ds) s))"

text \<open>\<open>[0-9A-Za-z-]+(?:\.[0-9A-Za-z-]+)*\<close>: the identifiers at the front and the rest.\<close>

definition take_idents :: "string \<Rightarrow> (string list \<times> string) option" where
  "take_idents s =
     (let t = takeWhile (\<lambda>c. ident_char c \<or> c = CHR ''.'') s; ws = split_on CHR ''.'' t
      in if [] \<in> set ws then None else Some (ws, drop (length t) s))"

definition ident_of :: "string \<Rightarrow> ident" where
  "ident_of s = (if list_all ascii_digit s then Numeric (nat_of_digits s) else Textual s)"

definition parse_semver :: "string \<Rightarrow> semver option" where
  "parse_semver s =
     (case take_number s of
        Some (major, c1 # s1) \<Rightarrow>
          (case take_number s1 of
             Some (minor, c2 # s2) \<Rightarrow>
               (case take_number s2 of
                  Some (patch, s3) \<Rightarrow>
                    if c1 \<noteq> CHR ''.'' \<or> c2 \<noteq> CHR ''.'' then None
                    else
                      (case (if s3 \<noteq> [] \<and> hd s3 = CHR ''-'' then map_option (\<lambda>(ws, r). (Some (map ident_of ws), r)) (take_idents (tl s3))
                             else Some (None, s3)) of
                         None \<Rightarrow> None
                       | Some (pre, []) \<Rightarrow> Some (Semver major minor patch pre)
                       | Some (pre, c # s4) \<Rightarrow>
                           if c = CHR ''+'' \<and> map_option snd (take_idents s4) = Some [] then Some (Semver major minor patch pre) else None)
                | None \<Rightarrow> None)
           | _ \<Rightarrow> None)
      | _ \<Rightarrow> None)"

text \<open>Comparison of tuples in Python: the first difference decides, then the length.\<close>

fun ident_greater :: "ident \<Rightarrow> ident \<Rightarrow> bool" where
  "ident_greater (Numeric i) (Numeric j) = (j < i)"
| "ident_greater (Textual s) (Numeric j) = True"
| "ident_greater (Numeric i) (Textual t) = False"
| "ident_greater (Textual s) (Textual t) = (t < s)"

fun idents_greater :: "ident list \<Rightarrow> ident list \<Rightarrow> bool" where
  "idents_greater [] ys = False"
| "idents_greater (x # xs) [] = True"
| "idents_greater (x # xs) (y # ys) = (if x = y then idents_greater xs ys else ident_greater x y)"

definition version_greater :: "semver \<Rightarrow> semver \<Rightarrow> bool" where
  "version_greater candidate current =
     (case (candidate, current) of
        (Semver a b c candidate_pre, Semver a' b' c' current_pre) \<Rightarrow>
          if (a, b, c) \<noteq> (a', b', c') then a' < a \<or> a' = a \<and> (b' < b \<or> b' = b \<and> c' < c)
          else case candidate_pre of
            None \<Rightarrow> current_pre \<noteq> None
          | Some xs \<Rightarrow> (case current_pre of None \<Rightarrow> False | Some ys \<Rightarrow> idents_greater xs ys))"

definition version_is_newer :: "string \<Rightarrow> string \<Rightarrow> error + bool" where
  "version_is_newer candidate current =
     (case parse_semver candidate of
        None \<Rightarrow> Inl (ValueError (''Invalid semantic version: '' @ candidate))
      | Some v \<Rightarrow>
          (case parse_semver current of
             None \<Rightarrow> Inl (ValueError (''Invalid semantic version: '' @ current))
           | Some w \<Rightarrow> Inr (version_greater v w)))"

subsection \<open>The order of versions\<close>

text \<open>
  Precedence as Semantic Versioning defines it: by the numbers, a release after its pre-releases,
  which are ordered by their identifiers, numeric ones first.
\<close>

instantiation ident :: linorder
begin

fun less_eq_ident :: "ident \<Rightarrow> ident \<Rightarrow> bool" where
  "less_eq_ident (Numeric i) (Numeric j) = (i \<le> j)"
| "less_eq_ident (Numeric i) (Textual t) = True"
| "less_eq_ident (Textual s) (Numeric j) = False"
| "less_eq_ident (Textual s) (Textual t) = (s \<le> t)"

definition less_ident :: "ident \<Rightarrow> ident \<Rightarrow> bool" where
  "less_ident x y \<longleftrightarrow> x \<le> y \<and> \<not> y \<le> x"

instance
proof
  fix x y z :: ident
  show "x \<le> x" by (cases x) simp_all
  show "x < y \<longleftrightarrow> x \<le> y \<and> \<not> y \<le> x" by (rule less_ident_def)
  show "x \<le> y \<Longrightarrow> y \<le> z \<Longrightarrow> x \<le> z" by (cases x; cases y; cases z) simp_all
  show "x \<le> y \<Longrightarrow> y \<le> x \<Longrightarrow> x = y" by (cases x; cases y) simp_all
  show "x \<le> y \<or> y \<le> x" by (cases x; cases y) auto
qed

end

fun precedence :: "semver \<Rightarrow> nat \<times> nat \<times> nat \<times> bool \<times> ident list" where
  "precedence (Semver a b c pre) = (a, b, c, pre = None, case pre of None \<Rightarrow> [] | Some xs \<Rightarrow> xs)"

lemma precedence_inj: "precedence v = precedence w \<Longrightarrow> v = w"
  by (cases v; cases w) (auto split: option.splits)

instantiation semver :: linorder
begin

definition less_eq_semver :: "semver \<Rightarrow> semver \<Rightarrow> bool" where
  "less_eq_semver v w \<longleftrightarrow> precedence v \<le> precedence w"

definition less_semver :: "semver \<Rightarrow> semver \<Rightarrow> bool" where
  "less_semver v w \<longleftrightarrow> precedence v < precedence w"

instance
  by standard (auto simp: less_eq_semver_def less_semver_def intro: precedence_inj)

end

lemma ident_greater_less: "x \<noteq> y \<Longrightarrow> ident_greater x y \<longleftrightarrow> y < x"
  by (cases x; cases y) (auto simp: less_ident_def)

lemma idents_greater_less: "idents_greater xs ys \<longleftrightarrow> ys < xs"
  by (induction xs ys rule: idents_greater.induct) (auto simp: ident_greater_less)

lemma version_greater_less: "version_greater v w \<longleftrightarrow> w < v"
  by (cases v; cases w) (auto simp: version_greater_def less_semver_def idents_greater_less split: option.splits)

text \<open>Which version is newer is decided by the precedence of Semantic Versioning, a linear order in
  which build metadata does not count: of two valid versions either one is newer or both have the
  same numbers and pre-release, being newer is transitive, and an invalid version is an error.\<close>

theorem version_order:
  "version_is_newer candidate current =
     (case (parse_semver candidate, parse_semver current) of
        (Some v, Some w) \<Rightarrow> Inr (w < v)
      | (None, _) \<Rightarrow> Inl (ValueError (''Invalid semantic version: '' @ candidate))
      | (Some _, None) \<Rightarrow> Inl (ValueError (''Invalid semantic version: '' @ current)))"
  by (simp add: version_is_newer_def version_greater_less split: option.split)

subsection \<open>Texts\<close>

text \<open>\<open>_decode_base64url\<close>: strict decoding, either alphabet, padding added.\<close>

definition b64_strict :: "string \<Rightarrow> bytes option" where
  "b64_strict s =
     (let body = takeWhile (\<lambda>c. b64_value c \<noteq> None) s; pad = drop (length body) s
      in if length s mod 4 = 0 \<and> pad \<in> {[], ''='', ''==''} then b64_decode s else None)"

definition decode_base64url :: "string \<Rightarrow> nat \<Rightarrow> string \<Rightarrow> error + bytes" where
  "decode_base64url v expected label =
     (case b64_strict (v @ replicate ((4 - length v mod 4) mod 4) CHR ''='') of
        None \<Rightarrow> Inl (ValueError (label @ '' must be valid base64url''))
      | Some decoded \<Rightarrow>
          if length decoded \<noteq> expected then Inl (ValueError (label @ '' must decode to '' @ digits expected @ '' bytes'')) else Inr decoded)"

definition decode_public_key :: "string \<Rightarrow> error + bytes" where
  "decode_public_key v = decode_base64url (strip v) 32 ''update public key''"

definition hex_text :: "string \<Rightarrow> bool" where
  "hex_text s \<longleftrightarrow> length s = 64 \<and> list_all (\<lambda>c. ascii_digit c \<or> (97 \<le> code c \<and> code c \<le> 102)) s"

definition valid_filename :: "string \<Rightarrow> bool" where
  "valid_filename s \<longleftrightarrow> s \<noteq> [] \<and> length s \<le> 128 \<and> hd s \<noteq> CHR ''-'' \<and> ident_char (hd s) \<and>
     list_all (\<lambda>c. ident_char c \<or> c \<in> {CHR ''.'', CHR ''_''}) s"

definition canonical_manifest :: "(string \<times> json) list \<Rightarrow> bytes" where
  "canonical_manifest payload = utf8_encode (json_dumps (JObject (filter (\<lambda>(k, v). k \<noteq> ''signature'') payload)))"

definition platform_key :: "string \<Rightarrow> string \<Rightarrow> error + string" where
  "platform_key system machine =
     (case (map_of [(''linux'', ''linux''), (''windows'', ''windows''), (''darwin'', ''macos'')] (str_lower (strip system)),
            map_of [(''x86_64'', ''x86_64''), (''amd64'', ''x86_64''), (''aarch64'', ''arm64''), (''arm64'', ''arm64'')] (str_lower (strip machine))) of
        (Some os, Some arch) \<Rightarrow> Inr (os @ ''-'' @ arch)
      | _ \<Rightarrow> Inl (ValueError ''No desktop release is defined''))"

subsection \<open>Addresses and requests\<close>

record url_parts =
  up_scheme :: string
  up_host :: "string option"
  up_user :: "string option"
  up_password :: "string option"
  up_fragment :: string

record response =
  re_status :: int
  re_location :: string
  re_length :: "string option"
  re_chunks :: "bytes list"

text \<open>What an update meets: the parameters of the library and the configuration of the client.\<close>

record update_world =
  uw_parse_url :: "string \<Rightarrow> error + url_parts"
  uw_join :: "string \<Rightarrow> string \<Rightarrow> string"
  uw_loads :: "bytes \<Rightarrow> json option"
  uw_fromiso :: "string \<Rightarrow> (int \<times> int option) option"
  uw_sha256 :: "bytes \<Rightarrow> string"
  uw_verify :: "bytes \<Rightarrow> bytes \<Rightarrow> bytes \<Rightarrow> bool"
  uw_get :: "nat \<Rightarrow> string \<Rightarrow> response"
  uw_manifest :: string
  uw_key :: bytes
  uw_current :: string
  uw_platform :: string
  uw_dir :: string

definition validate_update_url :: "update_world \<Rightarrow> bool \<Rightarrow> string \<Rightarrow> error + unit" where
  "validate_update_url w allow_loopback_http url =
     (case uw_parse_url w url of
        Inl e \<Rightarrow> Inl e
      | Inr p \<Rightarrow>
          if up_scheme p \<notin> {''http'', ''https''} \<or> \<not> truthy (up_host p) \<or> truthy (up_user p) \<or> truthy (up_password p) \<or>
             up_fragment p \<noteq> [] then
            Inl (ValueError ''Update URLs must be HTTP(S) URLs without credentials or fragments'')
          else if up_scheme p = ''http'' \<and>
              (\<not> allow_loopback_http \<or> str_lower (the (up_host p)) \<notin> {''localhost'', ''127.0.0.1'', ''::1''}) then
            Inl (ValueError ''Update URLs must use HTTPS unless hosted on localhost'')
          else Inr ())"

definition content_length :: "response \<Rightarrow> error + int" where
  "content_length r =
     (case re_length r of
        None \<Rightarrow> Inr 0
      | Some v \<Rightarrow>
          (case py_int v of
             None \<Rightarrow> Inl (ValueError ''Update response Content-Length is invalid'')
           | Some n \<Rightarrow> if n < 0 then Inl (ValueError ''Update response Content-Length is invalid'') else Inr n))"

text \<open>\<open>_get\<close>: the addresses that were requested, and the answer.  Three redirects are followed.\<close>

fun get_update :: "update_world \<Rightarrow> nat \<Rightarrow> nat \<Rightarrow> string \<Rightarrow> string list \<times> (error + response)" where
  "get_update w count redirects url =
     (case validate_update_url w True url of
        Inl e \<Rightarrow> ([], Inl e)
      | Inr _ \<Rightarrow>
          (let r = uw_get w count url
           in if re_status r \<notin> {301, 302, 303, 307, 308} then ([url], Inr r)
              else if re_location r = [] then ([url], Inl (ValueError ''Update redirect did not include a destination''))
              else case redirects of
                0 \<Rightarrow> ([url], Inl (ValueError ''Update URL exceeded the redirect limit''))
              | Suc n \<Rightarrow>
                  (let (visited, result) = get_update w (Suc count) n (uw_join w url (re_location r)) in (url # visited, result))))"

declare get_update.simps [simp del]

definition raise_for_status :: "response \<Rightarrow> error + response" where
  "raise_for_status r = (if 200 \<le> re_status r \<and> re_status r < 300 then Inr r else Inl (RuntimeError ''HTTPStatusError''))"

text \<open>Reading chunks up to a limit.\<close>

fun read_chunks :: "int \<Rightarrow> bytes list \<Rightarrow> bytes \<Rightarrow> bytes option" where
  "read_chunks limit [] data = Some data"
| "read_chunks limit (c # cs) data = (if limit < int (length (data @ c)) then None else read_chunks limit cs (data @ c))"

subsection \<open>Checking for an update\<close>

record update_artifact =
  ua_platform :: string
  ua_filename :: string
  ua_url :: string
  ua_sha256 :: string
  ua_size :: int

record available_update =
  au_version :: string
  au_published :: string
  au_artifact :: update_artifact

definition max_manifest :: int where "max_manifest = 128 * 1024"
definition max_artifact :: int where "max_artifact = 512 * 1024 * 1024"

definition parse_artifact :: "update_world \<Rightarrow> (string \<times> json) list \<Rightarrow> error + update_artifact" where
  "parse_artifact w kvs =
     (case jget ''filename'' kvs of
        JString filename \<Rightarrow>
          if \<not> valid_filename filename then Inl (ValueError ''Update artifact filename is invalid'')
          else (case jget ''url'' kvs of
            JString url \<Rightarrow>
              (case validate_update_url w True url of
                 Inl e \<Rightarrow> Inl e
               | Inr _ \<Rightarrow>
                   (case jget ''sha256'' kvs of
                      JString digest \<Rightarrow>
                        if \<not> hex_text digest then Inl (ValueError ''Update artifact SHA-256 is invalid'')
                        else (case jget ''size'' kvs of
                          JInt n \<Rightarrow>
                            if n < 1 \<or> max_artifact < n then Inl (ValueError ''Update artifact size is invalid'')
                            else Inr \<lparr>ua_platform = uw_platform w, ua_filename = filename, ua_url = url, ua_sha256 = digest, ua_size = n\<rparr>
                        | _ \<Rightarrow> Inl (ValueError ''Update artifact size is invalid''))
                    | _ \<Rightarrow> Inl (ValueError ''Update artifact SHA-256 is invalid'')))
          | _ \<Rightarrow> Inl (ValueError ''Update artifact URL is invalid''))
      | _ \<Rightarrow> Inl (ValueError ''Update artifact filename is invalid''))"

text \<open>\<open>replace("Z", "+00:00")\<close>.\<close>

definition replace_z :: "string \<Rightarrow> string" where
  "replace_z s = concat (map (\<lambda>c. if c = CHR ''Z'' then ''+00:00'' else [c]) s)"

definition read_manifest :: "update_world \<Rightarrow> response \<Rightarrow> error + bytes" where
  "read_manifest w r =
     (case raise_for_status r of
        Inl e \<Rightarrow> Inl e
      | Inr _ \<Rightarrow>
          (case content_length r of
             Inl e \<Rightarrow> Inl e
           | Inr declared \<Rightarrow>
               if max_manifest < declared then Inl (ValueError ''Update manifest is too large'')
               else (case read_chunks max_manifest (re_chunks r) [] of
                 None \<Rightarrow> Inl (ValueError ''Update manifest is too large'')
               | Some data \<Rightarrow> Inr data)))"

text \<open>The schema is compared with \<open>1\<close>, to which \<open>True\<close> is equal.\<close>

definition verified_payload :: "update_world \<Rightarrow> bytes \<Rightarrow> error + (string \<times> json) list" where
  "verified_payload w data =
     (case uw_loads w data of
        None \<Rightarrow> Inl (ValueError ''Update manifest is not valid JSON'')
      | Some (JObject payload) \<Rightarrow>
          if jget ''schema'' payload \<notin> {JInt 1, JBool True} then Inl (ValueError ''Unsupported update manifest schema'')
          else (case jget ''signature'' payload of
            JString signature \<Rightarrow>
              (case decode_base64url signature 64 ''manifest signature'' of
                 Inl e \<Rightarrow> Inl e
               | Inr sig \<Rightarrow>
                   if uw_verify w (uw_key w) sig (canonical_manifest payload) then Inr payload
                   else Inl (ValueError ''Update manifest signature is invalid''))
          | _ \<Rightarrow> Inl (ValueError ''Update manifest signature is missing''))
      | Some _ \<Rightarrow> Inl (ValueError ''Unsupported update manifest schema''))"

definition offered_update :: "update_world \<Rightarrow> (string \<times> json) list \<Rightarrow> error + available_update option" where
  "offered_update w payload =
     (case (jget ''version'' payload, jget ''published_at'' payload, jget ''artifacts'' payload) of
        (JString version, JString published, JObject artifacts) \<Rightarrow>
          (case uw_fromiso w (replace_z published) of
             None \<Rightarrow> Inl (ValueError ''Update manifest published_at is invalid'')
           | Some (_, None) \<Rightarrow> Inl (ValueError ''Update manifest published_at must include a timezone'')
           | Some (_, Some _) \<Rightarrow>
               (case version_is_newer version (uw_current w) of
                  Inl e \<Rightarrow> Inl e
                | Inr newer \<Rightarrow>
                    if \<not> newer then Inr None
                    else (case jget (uw_platform w) artifacts of
                      JObject raw \<Rightarrow>
                        (case parse_artifact w raw of
                           Inl e \<Rightarrow> Inl e
                         | Inr a \<Rightarrow> Inr (Some \<lparr>au_version = version, au_published = published, au_artifact = a\<rparr>))
                    | _ \<Rightarrow> Inl (ValueError ''Release does not support the platform''))))
      | _ \<Rightarrow> Inl (ValueError ''Update manifest fields are invalid''))"

definition check_update :: "update_world \<Rightarrow> string list \<times> (error + available_update option)" where
  "check_update w =
     (case get_update w 0 3 (uw_manifest w) of
        (visited, Inl e) \<Rightarrow> (visited, Inl e)
      | (visited, Inr r) \<Rightarrow>
          (visited,
           (case read_manifest w r of
              Inl e \<Rightarrow> Inl e
            | Inr data \<Rightarrow> (case verified_payload w data of Inl e \<Rightarrow> Inl e | Inr payload \<Rightarrow> offered_update w payload))))"

text \<open>\<open>UpdateClient.__init__\<close>: the configuration is checked before any request.\<close>

definition new_update_client :: "update_world \<Rightarrow> string \<Rightarrow> error + update_world" where
  "new_update_client w public_key =
     (case validate_update_url w True (uw_manifest w) of
        Inl e \<Rightarrow> Inl e
      | Inr _ \<Rightarrow>
          (case decode_public_key public_key of
             Inl e \<Rightarrow> Inl e
           | Inr key \<Rightarrow>
               if parse_semver (uw_current w) = None then Inl (ValueError (''Invalid semantic version: '' @ uw_current w))
               else Inr (w\<lparr>uw_key := key\<rparr>)))"

subsection \<open>Downloading\<close>

text \<open>
  \<open>temporary\<close> is the random name of the partial file in the directory.  It is removed when the
  download fails and becomes the target when its size and digest are those of the manifest.
\<close>

definition matches_artifact :: "update_world \<Rightarrow> bytes \<Rightarrow> update_artifact \<Rightarrow> bool" where
  "matches_artifact w data a \<longleftrightarrow> int (length data) = ua_size a \<and> uw_sha256 w data = ua_sha256 a"

definition received :: "update_world \<Rightarrow> response \<Rightarrow> update_artifact \<Rightarrow> error + bytes" where
  "received w r a =
     (case raise_for_status r of
        Inl e \<Rightarrow> Inl e
      | Inr _ \<Rightarrow>
          (case content_length r of
             Inl e \<Rightarrow> Inl e
           | Inr declared \<Rightarrow>
               if declared \<noteq> 0 \<and> declared \<noteq> ua_size a then Inl (ValueError ''Downloaded update size does not match the manifest'')
               else (case read_chunks (ua_size a) (re_chunks r) [] of
                 None \<Rightarrow> Inl (ValueError ''Downloaded update is larger than the manifest'')
               | Some data \<Rightarrow> Inr data)))"

definition download_update ::
  "update_world \<Rightarrow> string \<Rightarrow> available_update \<Rightarrow> (string \<times> bytes) list \<Rightarrow> (string \<times> bytes) list \<times> string list \<times> (error + string)" where
  "download_update w temporary u files =
     (let a = au_artifact u; target = uw_dir w @ ''/'' @ ua_filename a
      in if (case read_file target files of None \<Rightarrow> False | Some data \<Rightarrow> matches_artifact w data a) then (files, [], Inr target)
         else (case get_update w 0 3 (ua_url a) of
           (visited, Inl e) \<Rightarrow> (files, visited, Inl e)
         | (visited, Inr r) \<Rightarrow>
             (case received w r a of
                Inl e \<Rightarrow> (unlink temporary files, visited, Inl e)
              | Inr data \<Rightarrow>
                  if int (length data) \<noteq> ua_size a then
                    (unlink temporary files, visited, Inl (ValueError ''Downloaded update size does not match the manifest''))
                  else if uw_sha256 w data \<noteq> ua_sha256 a then
                    (unlink temporary files, visited, Inl (ValueError ''Downloaded update SHA-256 does not match the manifest''))
                  else (move_file temporary target (write_file temporary data files), visited, Inr target))))"

subsection \<open>What an update guarantees\<close>

definition acceptable_url :: "update_world \<Rightarrow> string \<Rightarrow> bool" where
  "acceptable_url w url \<longleftrightarrow> (\<exists>p. uw_parse_url w url = Inr p \<and> truthy (up_host p) \<and> \<not> truthy (up_user p) \<and> \<not> truthy (up_password p) \<and>
     (up_scheme p = ''https'' \<or> up_scheme p = ''http'' \<and> str_lower (the (up_host p)) \<in> {''localhost'', ''127.0.0.1'', ''::1''}))"

lemma validate_ok: "validate_update_url w True url = Inr () \<Longrightarrow> acceptable_url w url"
  by (auto simp: validate_update_url_def acceptable_url_def split: sum.splits if_splits)

lemma get_update_safe:
  "length (fst (get_update w count n url)) \<le> Suc n \<and> (\<forall>x \<in> set (fst (get_update w count n url)). acceptable_url w x)"
proof (induction n arbitrary: count url)
  case 0
  show ?case by (subst (1 2) get_update.simps) (auto simp: Let_def split: sum.split dest: validate_ok)
next
  case (Suc n)
  show ?case
    by (subst (1 2) get_update.simps) (use Suc [of "Suc count"] in \<open>auto simp: Let_def split_beta split: sum.split dest: validate_ok\<close>)
qed

lemma read_chunks_bound: "read_chunks limit cs data = Some b \<Longrightarrow> int (length data) \<le> limit \<Longrightarrow> int (length b) \<le> limit"
  by (induction limit cs data rule: read_chunks.induct) (auto split: if_splits)

lemma read_manifest_bound:
  assumes "read_manifest w r = Inr data"
  shows "int (length data) \<le> max_manifest"
  using assms read_chunks_bound [of max_manifest "re_chunks r" "[]" data]
  by (auto simp: read_manifest_def max_manifest_def split: sum.splits if_splits option.splits)

lemma verified_signature:
  assumes "verified_payload w data = Inr payload"
  shows "uw_loads w data = Some (JObject payload) \<and>
    (\<exists>s sig. jget ''signature'' payload = JString s \<and> decode_base64url s 64 ''manifest signature'' = Inr sig \<and>
      uw_verify w (uw_key w) sig (canonical_manifest payload))"
  using assms by (auto simp: verified_payload_def split: option.splits json.splits sum.splits if_splits)

lemma parse_artifact_sound:
  assumes "parse_artifact w kvs = Inr a"
  shows "ua_platform a = uw_platform w \<and> valid_filename (ua_filename a) \<and> acceptable_url w (ua_url a) \<and> hex_text (ua_sha256 a) \<and>
    1 \<le> ua_size a \<and> ua_size a \<le> max_artifact"
proof -
  obtain f where f: "jget ''filename'' kvs = JString f" "valid_filename f"
    using assms by (cases "jget ''filename'' kvs") (auto simp: parse_artifact_def split: if_splits)
  obtain u where u: "jget ''url'' kvs = JString u" "validate_update_url w True u = Inr ()"
    using assms by (cases "jget ''url'' kvs") (auto simp: parse_artifact_def f split: sum.splits)
  obtain d where d: "jget ''sha256'' kvs = JString d" "hex_text d"
    using assms by (cases "jget ''sha256'' kvs") (auto simp: parse_artifact_def f u split: if_splits)
  obtain n where n: "jget ''size'' kvs = JInt n"
    using assms by (cases "jget ''size'' kvs") (auto simp: parse_artifact_def f u d)
  show ?thesis using assms validate_ok [OF u(2)] by (auto simp: parse_artifact_def f u d n split: if_splits)
qed

lemma offered_sound:
  assumes "offered_update w payload = Inr (Some u)"
  shows "jget ''version'' payload = JString (au_version u) \<and> version_is_newer (au_version u) (uw_current w) = Inr True \<and>
    (\<exists>artifacts raw. jget ''artifacts'' payload = JObject artifacts \<and> jget (uw_platform w) artifacts = JObject raw \<and>
      parse_artifact w raw = Inr (au_artifact u))"
proof -
  obtain v where v: "jget ''version'' payload = JString v"
    using assms by (cases "jget ''version'' payload") (auto simp: offered_update_def)
  obtain p where p: "jget ''published_at'' payload = JString p"
    using assms by (cases "jget ''published_at'' payload") (auto simp: offered_update_def v)
  obtain arts where a: "jget ''artifacts'' payload = JObject arts"
    using assms by (cases "jget ''artifacts'' payload") (auto simp: offered_update_def v p)
  obtain x where n: "version_is_newer v (uw_current w) = Inr x"
    using assms by (cases "version_is_newer v (uw_current w)") (auto simp: offered_update_def v p a split: option.splits)
  obtain raw where raw: "jget (uw_platform w) arts = JObject raw"
    using assms by (cases "jget (uw_platform w) arts") (auto simp: offered_update_def v p a n split: option.splits if_splits)
  show ?thesis using assms by (auto simp: offered_update_def v p a n raw split: option.splits sum.splits if_splits)
qed

text \<open>C10. An update is offered only when it is safe to offer: the manifest, of bounded size, carries a
  valid signature by the configured key over everything it says, the version is newer than the
  running one, and the artifact, for this platform, has a plain file name, a secure address, a
  digest and a size in range.  Every address that was asked, at most four, was secure as well,
  redirects included.\<close>

theorem check_update_sound:
  assumes "check_update w = (visited, r)"
  shows "length visited \<le> 4 \<and> (\<forall>url \<in> set visited. acceptable_url w url) \<and>
    (\<forall>u. r = Inr (Some u) \<longrightarrow>
      (\<exists>data payload s sig artifacts raw. int (length data) \<le> max_manifest \<and> uw_loads w data = Some (JObject payload) \<and>
        jget ''signature'' payload = JString s \<and> decode_base64url s 64 ''manifest signature'' = Inr sig \<and>
        uw_verify w (uw_key w) sig (canonical_manifest payload) \<and>
        jget ''version'' payload = JString (au_version u) \<and> version_is_newer (au_version u) (uw_current w) = Inr True \<and>
        jget ''artifacts'' payload = JObject artifacts \<and> jget (uw_platform w) artifacts = JObject raw \<and>
        parse_artifact w raw = Inr (au_artifact u)) \<and>
      valid_filename (ua_filename (au_artifact u)) \<and> acceptable_url w (ua_url (au_artifact u)) \<and> hex_text (ua_sha256 (au_artifact u)) \<and>
      1 \<le> ua_size (au_artifact u) \<and> ua_size (au_artifact u) \<le> max_artifact)"
proof -
  obtain vs g where g: "get_update w 0 3 (uw_manifest w) = (vs, g)" by (cases "get_update w 0 3 (uw_manifest w)") auto
  have vis: "visited = vs" using assms by (cases g) (auto simp: check_update_def g)
  have "length visited \<le> 4 \<and> (\<forall>url \<in> set visited. acceptable_url w url)"
    using get_update_safe [of w 0 3 "uw_manifest w"] by (simp add: g vis)
  moreover have "(\<exists>data payload s sig artifacts raw. int (length data) \<le> max_manifest \<and> uw_loads w data = Some (JObject payload) \<and>
        jget ''signature'' payload = JString s \<and> decode_base64url s 64 ''manifest signature'' = Inr sig \<and>
        uw_verify w (uw_key w) sig (canonical_manifest payload) \<and>
        jget ''version'' payload = JString (au_version u) \<and> version_is_newer (au_version u) (uw_current w) = Inr True \<and>
        jget ''artifacts'' payload = JObject artifacts \<and> jget (uw_platform w) artifacts = JObject raw \<and>
        parse_artifact w raw = Inr (au_artifact u)) \<and>
      valid_filename (ua_filename (au_artifact u)) \<and> acceptable_url w (ua_url (au_artifact u)) \<and> hex_text (ua_sha256 (au_artifact u)) \<and>
      1 \<le> ua_size (au_artifact u) \<and> ua_size (au_artifact u) \<le> max_artifact" if r: "r = Inr (Some u)" for u
  proof -
    obtain x where x: "g = Inr x" using assms r by (cases g) (auto simp: check_update_def g)
    obtain data where d: "read_manifest w x = Inr data" using assms r by (cases "read_manifest w x") (auto simp: check_update_def g x)
    obtain payload where p: "verified_payload w data = Inr payload"
      using assms r by (cases "verified_payload w data") (auto simp: check_update_def g x d)
    have o: "offered_update w payload = Inr (Some u)" using assms r by (simp add: check_update_def g x d p)
    from read_manifest_bound [OF d] verified_signature [OF p] offered_sound [OF o] parse_artifact_sound show ?thesis by blast
  qed
  ultimately show ?thesis by blast
qed

text \<open>C16. Only what the manifest describes is installed: when a download succeeds the target file has
  the size and the digest of the manifest; when it fails no file has changed; in both cases the
  partial file is gone and no other file is touched.\<close>

theorem download_update_sound:
  assumes "download_update w temporary u files = (files', visited, r)"
    and "read_file temporary files = None" and "temporary \<noteq> uw_dir w @ ''/'' @ ua_filename (au_artifact u)"
  shows "(case r of
      Inr p \<Rightarrow> p = uw_dir w @ ''/'' @ ua_filename (au_artifact u) \<and>
        (\<exists>data. read_file p files' = Some data \<and> matches_artifact w data (au_artifact u)) \<and>
        (\<forall>q. q \<noteq> p \<longrightarrow> read_file q files' = read_file q files)
    | Inl e \<Rightarrow> (\<forall>q. read_file q files' = read_file q files)) \<and>
    length visited \<le> 4 \<and> (\<forall>url \<in> set visited. acceptable_url w url)"
proof -
  let ?a = "au_artifact u" and ?target = "uw_dir w @ ''/'' @ ua_filename (au_artifact u)"
  note d = assms(1) [unfolded download_update_def Let_def]
  have unl: "read_file q (unlink temporary files) = read_file q files" for q
    using assms(2) by (simp add: read_unlink)
  show ?thesis
  proof (cases "case read_file ?target files of None \<Rightarrow> False | Some data \<Rightarrow> matches_artifact w data ?a")
    case True
    then show ?thesis using d by (auto split: option.splits)
  next
    case False
    obtain vs g where g: "get_update w 0 3 (ua_url ?a) = (vs, g)" by (cases "get_update w 0 3 (ua_url ?a)") auto
    note d1 = d [unfolded if_not_P [OF False] g prod.case]
    have vis: "length vs \<le> 4 \<and> (\<forall>url \<in> set vs. acceptable_url w url)"
      using get_update_safe [of w 0 3 "ua_url ?a"] by (simp add: g)
    show ?thesis
    proof (cases g)
      case (Inl e)
      then show ?thesis using d1 vis by auto
    next
      case (Inr x)
      note d2 = d1 [unfolded Inr sum.case]
      show ?thesis
      proof (cases "received w x ?a")
        case (Inl e)
        show ?thesis using d2 [unfolded Inl sum.case] vis unl by auto
      next
        case (Inr data)
        show ?thesis using d2 [unfolded Inr sum.case] vis unl assms(2,3)
          by (auto simp: read_move read_write matches_artifact_def split: if_splits)
      qed
    qed
  qed
qed

subsection \<open>Examples\<close>

definition sample_payload :: "(string \<times> json) list" where
  "sample_payload = [(''schema'', JInt 1), (''version'', JString ''0.7.0''), (''published_at'', JString ''2026-01-10T00:00:00Z''),
     (''artifacts'', JObject [(''linux-x86_64'', JObject [(''filename'', JString ''agent.bin''), (''url'', JString ''https://h/agent.bin''),
       (''sha256'', JString (replicate 64 CHR ''a'')), (''size'', JInt 3)])]),
     (''signature'', JString (replicate 86 CHR ''A''))]"

definition sample_world :: update_world where
  "sample_world = \<lparr>uw_parse_url = (\<lambda>_. Inr \<lparr>up_scheme = ''https'', up_host = Some ''h'', up_user = None, up_password = None, up_fragment = []\<rparr>),
     uw_join = (\<lambda>_ l. l), uw_loads = (\<lambda>_. Some (JObject sample_payload)), uw_fromiso = (\<lambda>_. Some (0, Some 0)),
     uw_sha256 = (\<lambda>_. replicate 64 CHR ''a''), uw_verify = (\<lambda>k s m. True),
     uw_get = (\<lambda>n url. if n = 0 then \<lparr>re_status = 302, re_location = ''https://h/m.json'', re_length = None, re_chunks = []\<rparr>
       else \<lparr>re_status = 200, re_location = [], re_length = Some ''3'', re_chunks = [''ab'', ''c'']\<rparr>),
     uw_manifest = ''https://h'', uw_key = replicate 32 CHR ''k'', uw_current = ''0.6.0'', uw_platform = ''linux-x86_64'', uw_dir = ''up''\<rparr>"

definition sample_update :: available_update where
  "sample_update = \<lparr>au_version = ''0.7.0'', au_published = ''2026-01-10T00:00:00Z'', au_artifact =
     \<lparr>ua_platform = ''linux-x86_64'', ua_filename = ''agent.bin'', ua_url = ''https://h/agent.bin'', ua_sha256 = replicate 64 CHR ''a'', ua_size = 3\<rparr>\<rparr>"

lemma sample_check: "check_update sample_world = ([''https://h'', ''https://h/m.json''], Inr (Some sample_update))"
  by code_simp

theorem check_update_sound_witness:
  "version_is_newer ''0.7.0'' ''0.6.0'' = Inr True \<and> ua_size (au_artifact sample_update) \<le> max_artifact"
proof -
  have "version_is_newer (au_version sample_update) (uw_current sample_world) = Inr True" "ua_size (au_artifact sample_update) \<le> max_artifact"
    using check_update_sound [OF sample_check] by blast+
  then show ?thesis by (simp add: sample_update_def sample_world_def)
qed

lemma sample_download:
  "download_update sample_world ''up/.agent.bin.x.part'' sample_update [] =
     ([(''up/agent.bin'', ''abc'')], [''https://h/agent.bin'', ''https://h/m.json''], Inr ''up/agent.bin'')"
  by code_simp

theorem download_update_sound_witness:
  "matches_artifact sample_world ''abc'' (au_artifact sample_update)"
proof -
  have "read_file ''up/.agent.bin.x.part'' [] = None" "''up/.agent.bin.x.part'' \<noteq> uw_dir sample_world @ ''/'' @ ua_filename (au_artifact sample_update)"
    by (simp_all add: read_file_def sample_world_def sample_update_def)
  from download_update_sound [OF sample_download this] show ?thesis by (simp add: read_file_def)
qed

end
