(* ===== verification/Report_Delivery.thy ===== *)
theory Report_Delivery
  imports Report_Schedule "HOL-Library.Product_Lexorder" "HOL-Library.List_Lexorder" "HOL-Library.Char_ord"
begin

section \<open>Scheduled reports\<close>

text \<open>
  \<open>api/repositories/workforce.py\<close> (the table \<open>scheduled_reports\<close> and its operations) and
  \<open>api/services/report_delivery.py\<close>.  Replicas of the server deliver reports concurrently; a replica
  claims rows with a token and a lease.  Each statement is atomic, so a run is a sequence of
  operations of all replicas.
\<close>

record scheduled_report =
  sr_id :: uuid
  sr_name :: string
  sr_type :: string
  sr_frequency :: string
  sr_recipients :: string
  sr_format :: string
  sr_hour :: int
  sr_minute :: int
  sr_weekday :: int
  sr_month_day :: int
  sr_preset :: string
  sr_enabled :: bool
  sr_next :: "timestamp option"
  sr_last_sent :: "timestamp option"
  sr_failures :: int
  sr_last_failed :: "timestamp option"
  sr_error :: string
  sr_token :: "uuid option"
  sr_until :: "timestamp option"
  sr_creator :: uuid
  sr_created :: timestamp

type_synonym reports = "scheduled_report list"

definition report_clock :: "int \<Rightarrow> int \<Rightarrow> pytime" where
  "report_clock h m = \<lparr>pt_hour = h, pt_minute = m, pt_second = 0, pt_microsecond = 0, pt_zoned = False\<rparr>"

definition next_of :: "scheduled_report \<Rightarrow> timestamp \<Rightarrow> error + timestamp" where
  "next_of r now = next_report_delivery (Aware now 0) (sr_frequency r) (report_clock (sr_hour r) (sr_minute r)) (sr_weekday r) (sr_month_day r)"

definition report_kinds :: "string list" where "report_kinds = [''time'', ''activity'', ''attendance'', ''expenses'']"
definition report_formats :: "string list" where "report_formats = [''csv'', ''pdf'']"

text \<open>Recipients are separated by commas or semicolons.\<close>

definition recipient_list :: "string \<Rightarrow> string list" where
  "recipient_list s = filter (\<lambda>v. v \<noteq> []) (map strip (split_on CHR '','' (map (\<lambda>c. if c = CHR '';'' then CHR '','' else c) s)))"

definition bad_recipient :: "string \<Rightarrow> bool" where
  "bad_recipient v \<longleftrightarrow> length (filter (\<lambda>c. c = CHR ''@'') v) \<noteq> 1 \<or> CHR 13 \<in> set v \<or> CHR 10 \<in> set v \<or> 320 < length v"

definition bad_recipients :: "string \<Rightarrow> bool" where
  "bad_recipients s \<longleftrightarrow> recipient_list s = [] \<or> list_ex bad_recipient (recipient_list s)"

subsection \<open>The repository\<close>

definition create_scheduled_report ::
  "uuid \<Rightarrow> timestamp \<Rightarrow> string \<Rightarrow> string \<Rightarrow> string \<Rightarrow> string \<Rightarrow> uuid \<Rightarrow> string \<Rightarrow> pytime \<Rightarrow> int \<Rightarrow> int \<Rightarrow> string \<Rightarrow> reports \<Rightarrow> error + reports" where
  "create_scheduled_report i now nm kind frequency recipients creator delivery_format delivery_time wday month_day range_preset t =
     (let cleaned = strip nm
      in if cleaned = [] \<or> CHR 13 \<in> set cleaned \<or> CHR 10 \<in> set cleaned then Inl (ValueError ''Enter a valid report name'')
         else if kind \<notin> set report_kinds then Inl (ValueError ''Invalid report type'')
         else if frequency \<notin> set frequencies then Inl (ValueError ''Invalid report frequency'')
         else if delivery_format \<notin> set report_formats then Inl (ValueError ''Invalid report delivery format'')
         else if range_preset \<notin> set report_range_presets then Inl (ValueError ''Invalid report range'')
         else if pt_zoned delivery_time \<or> pt_second delivery_time \<noteq> 0 \<or> pt_microsecond delivery_time \<noteq> 0 then
           Inl (ValueError ''Report delivery time must be an exact UTC minute'')
         else case next_report_delivery (Aware now 0) frequency delivery_time wday month_day of
           Inl e \<Rightarrow> Inl e
         | Inr next_at \<Rightarrow>
             if bad_recipients recipients then Inl (ValueError ''Enter valid report recipient emails'')
             else if exists_row (\<lambda>r. sr_id r = i) t then Inl UniqueViolation
             else Inr (t @ [\<lparr>sr_id = i, sr_name = take 120 cleaned, sr_type = take 60 kind, sr_frequency = frequency,
               sr_recipients = take 1000 (strip recipients), sr_format = delivery_format,
               sr_hour = pt_hour delivery_time, sr_minute = pt_minute delivery_time, sr_weekday = wday, sr_month_day = month_day,
               sr_preset = range_preset, sr_enabled = True, sr_next = Some next_at, sr_last_sent = None, sr_failures = 0,
               sr_last_failed = None, sr_error = [], sr_token = None, sr_until = None, sr_creator = creator, sr_created = now\<rparr>]))"

definition set_scheduled_report_enabled :: "timestamp \<Rightarrow> uuid \<Rightarrow> bool \<Rightarrow> reports \<Rightarrow> error + reports" where
  "set_scheduled_report_enabled now i enabled t =
     (case find (\<lambda>r. sr_id r = i) t of
        None \<Rightarrow> Inl (ValueError ''Scheduled report not found'')
      | Some report \<Rightarrow>
          (case (if enabled then map_sum (\<lambda>e. e) Some (next_of report now) else Inr (sr_next report)) of
             Inl e \<Rightarrow> Inl e
           | Inr next_at \<Rightarrow>
               Inr (update_where (\<lambda>r. sr_id r = i) (\<lambda>r. r\<lparr>sr_enabled := enabled, sr_next := next_at,
                 sr_failures := (if enabled then 0 else sr_failures r), sr_error := (if enabled then [] else sr_error r),
                 sr_token := None, sr_until := None\<rparr>) t)))"

definition delete_scheduled_report :: "uuid \<Rightarrow> reports \<Rightarrow> error + reports" where
  "delete_scheduled_report i t =
     (if rowcount (\<lambda>r. sr_id r = i) t \<noteq> 1 then Inl (ValueError ''Scheduled report not found'')
      else Inr (delete_where (\<lambda>r. sr_id r = i) t))"

text \<open>\<open>canon\<close> is \<open>str(uuid.UUID(...))\<close>, \<open>None\<close> when it raises.  The claimed rows are returned as updated.\<close>

definition is_due :: "timestamp \<Rightarrow> scheduled_report \<Rightarrow> bool" where
  "is_due now r \<longleftrightarrow> sr_enabled r \<and> (case sr_next r of None \<Rightarrow> False | Some n \<Rightarrow> n \<le> now) \<and>
     (case sr_until r of None \<Rightarrow> True | Some u \<Rightarrow> u \<le> now)"

definition due_order :: "scheduled_report \<Rightarrow> timestamp \<times> uuid" where
  "due_order r = (the (sr_next r), sr_id r)"

definition due_scheduled_reports ::
  "(string \<Rightarrow> uuid option) \<Rightarrow> timestamp \<Rightarrow> string \<Rightarrow> int \<Rightarrow> int \<Rightarrow> reports \<Rightarrow> error + (reports \<times> reports)" where
  "due_scheduled_reports canon now claim_token lease_seconds limit t =
     (case canon claim_token of
        None \<Rightarrow> Inl (ValueError ''Invalid scheduled report claim token'')
      | Some token \<Rightarrow>
          if \<not> (60 \<le> lease_seconds \<and> lease_seconds \<le> 2 * 60 * 60) then Inl (ValueError ''Invalid scheduled report claim lease'')
          else if \<not> (1 \<le> limit \<and> limit \<le> 100) then Inl (ValueError ''Invalid scheduled report claim limit'')
          else
            let candidates = map sr_id (take (nat limit) (sort_key due_order (filter (is_due now) t)));
                t1 = update_where (\<lambda>r. sr_id r \<in> set candidates)
                  (\<lambda>r. r\<lparr>sr_token := Some token, sr_until := Some (now + seconds lease_seconds)\<rparr>) t
            in Inr (t1, filter (\<lambda>r. sr_id r \<in> set candidates) t1))"

definition holds_claim :: "uuid \<Rightarrow> uuid option \<Rightarrow> scheduled_report \<Rightarrow> bool" where
  "holds_claim i token r \<longleftrightarrow> sr_id r = i \<and> (token = None \<or> sr_token r = token)"

definition mark_scheduled_report_sent :: "uuid \<Rightarrow> timestamp \<Rightarrow> timestamp \<Rightarrow> uuid option \<Rightarrow> reports \<Rightarrow> error + reports" where
  "mark_scheduled_report_sent i sent_at next_at token t =
     (if rowcount (holds_claim i token) t \<noteq> 1 then Inl (ValueError ''Scheduled report delivery claim was lost'')
      else Inr (update_where (holds_claim i token) (\<lambda>r. r\<lparr>sr_last_sent := Some sent_at, sr_next := Some next_at, sr_failures := 0,
        sr_error := [], sr_token := None, sr_until := None\<rparr>) t))"

definition mark_scheduled_report_failed ::
  "uuid \<Rightarrow> timestamp \<Rightarrow> timestamp \<Rightarrow> string \<Rightarrow> uuid option \<Rightarrow> reports \<Rightarrow> error + reports" where
  "mark_scheduled_report_failed i failed_at next_attempt error_code token t =
     (if error_code = [] \<or> 64 < length error_code then Inl (ValueError ''Invalid scheduled report error code'')
      else if rowcount (holds_claim i token) t \<noteq> 1 then Inl (ValueError ''Scheduled report delivery claim was lost'')
      else Inr (update_where (holds_claim i token) (\<lambda>r. r\<lparr>sr_failures := sr_failures r + 1, sr_last_failed := Some failed_at,
        sr_error := error_code, sr_next := Some next_attempt, sr_token := None, sr_until := None\<rparr>) t))"

subsection \<open>Delivery\<close>

datatype failure = Too_Large | Configuration | Pdf_Busy | Unavailable | Generation

definition error_code :: "failure \<Rightarrow> string" where
  "error_code f = (case f of Too_Large \<Rightarrow> ''report_too_large'' | Configuration \<Rightarrow> ''invalid_configuration'' | Pdf_Busy \<Rightarrow> ''pdf_capacity''
     | Unavailable \<Rightarrow> ''delivery_unavailable'' | Generation \<Rightarrow> ''generation_failed'')"

text \<open>
  The world of a delivery: how many rows a report of a kind, a window and a limit has, what goes
  wrong when the attachment is built and when the mail is sent, and what other transactions do to
  the table before the result is recorded.
\<close>

record delivery_world =
  dl_rows :: "string \<Rightarrow> timestamp \<Rightarrow> timestamp \<Rightarrow> int \<Rightarrow> failure + int"
  dl_attach :: "string \<Rightarrow> string \<Rightarrow> int \<Rightarrow> failure option"
  dl_mail :: "string list \<Rightarrow> string \<Rightarrow> timestamp \<Rightarrow> timestamp \<Rightarrow> failure option"
  dl_meanwhile :: "uuid \<Rightarrow> reports \<Rightarrow> reports"
  dl_sha256 :: "string \<Rightarrow> nat list"

definition max_csv_rows :: int where "max_csv_rows = 10000"
definition max_pdf_rows :: int where "max_pdf_rows = 1000"

text \<open>The attachment: a CSV file of at most 10000 rows, or a PDF of at most 1000.\<close>

definition build_attachment :: "delivery_world \<Rightarrow> scheduled_report \<Rightarrow> int \<Rightarrow> failure option" where
  "build_attachment w r n =
     (if sr_format r = ''csv'' \<and> max_csv_rows < n \<or> sr_format r = ''pdf'' \<and> max_pdf_rows < n then Some Too_Large
      else dl_attach w (sr_format r) (sr_type r) n)"

definition send_report :: "delivery_world \<Rightarrow> scheduled_report \<Rightarrow> timestamp \<Rightarrow> failure option" where
  "send_report w r sent_at =
     (if bad_recipients (sr_recipients r) then Some Configuration
      else if sr_format r \<notin> set report_formats then Some Configuration
      else case scheduled_report_window (Aware sent_at 0) (sr_frequency r) (sr_preset r) of
        Inl _ \<Rightarrow> Some Generation
      | Inr (started_at, ended_at) \<Rightarrow>
          if sr_type r \<notin> set report_kinds then Some Configuration
          else case dl_rows w (sr_type r) started_at ended_at ((if sr_format r = ''pdf'' then max_pdf_rows else max_csv_rows) + 1) of
            Inl f \<Rightarrow> Some f
          | Inr n \<Rightarrow>
              (case build_attachment w r n of
                 Some f \<Rightarrow> Some f
               | None \<Rightarrow> dl_mail w (recipient_list (sr_recipients r)) (sr_name r) started_at ended_at))"

text \<open>\<open>_deliver_one\<close>: whatever fails is turned into an error code by the caller.\<close>

definition deliver_one :: "delivery_world \<Rightarrow> scheduled_report \<Rightarrow> timestamp \<Rightarrow> uuid \<Rightarrow> reports \<Rightarrow> failure + reports" where
  "deliver_one w r sent_at token t =
     (case send_report w r sent_at of
        Some f \<Rightarrow> Inl f
      | None \<Rightarrow>
          (case next_of r sent_at of
             Inl _ \<Rightarrow> Inl Generation
           | Inr next_at \<Rightarrow>
               (case mark_scheduled_report_sent (sr_id r) sent_at next_at (Some token) t of
                  Inl _ \<Rightarrow> Inl Generation
                | Inr t1 \<Rightarrow> Inr t1)))"

fun deliver_all :: "delivery_world \<Rightarrow> timestamp \<Rightarrow> uuid \<Rightarrow> reports \<Rightarrow> reports \<Rightarrow> int \<Rightarrow> reports \<times> (error + int)" where
  "deliver_all w sent_at token [] t sent = (t, Inr sent)"
| "deliver_all w sent_at token (r # rs) t sent =
     (let t0 = dl_meanwhile w (sr_id r) t
      in case deliver_one w r sent_at token t0 of
           Inr t1 \<Rightarrow> deliver_all w sent_at token rs t1 (sent + 1)
         | Inl f \<Rightarrow>
             (case scheduled_report_retry_at (dl_sha256 w) (Aware sent_at 0) (sr_failures r) (sr_id r) of
                Inl e \<Rightarrow> (t0, Inl e)
              | Inr next_attempt \<Rightarrow>
                  (case mark_scheduled_report_failed (sr_id r) sent_at next_attempt (error_code f) (Some token) t0 of
                     Inl e \<Rightarrow> (t0, Inl e)
                   | Inr t1 \<Rightarrow> deliver_all w sent_at token rs t1 sent)))"

text \<open>\<open>mail_configured\<close>: the SMTP host and the sender are set.  \<open>token\<close> is the \<open>uuid4\<close> drawn.\<close>

definition deliver_due :: "delivery_world \<Rightarrow> bool \<Rightarrow> timestamp \<Rightarrow> uuid \<Rightarrow> reports \<Rightarrow> reports \<times> (error + int)" where
  "deliver_due w mail_configured sent_at token t =
     (if \<not> mail_configured then (t, Inr 0)
      else case due_scheduled_reports Some sent_at token (30 * 60) 25 t of
        Inl e \<Rightarrow> (t, Inl e)
      | Inr (t1, claimed) \<Rightarrow> deliver_all w sent_at token claimed t1 0)"

subsection \<open>Reports stay well formed\<close>

definition report_ok :: "scheduled_report \<Rightarrow> bool" where
  "report_ok r \<longleftrightarrow> sr_frequency r \<in> set frequencies \<and> 0 \<le> sr_weekday r \<and> sr_weekday r \<le> 6 \<and> sr_month_day r \<in> {1, 15, -1} \<and>
     0 \<le> sr_hour r \<and> sr_hour r < 24 \<and> 0 \<le> sr_minute r \<and> sr_minute r < 60 \<and> sr_format r \<in> set report_formats \<and>
     sr_preset r \<in> set report_range_presets \<and> sr_type r \<in> set report_kinds \<and>
     0 \<le> sr_failures r \<and> length (sr_error r) \<le> 64 \<and> sr_next r \<noteq> None \<and> (sr_token r = None \<longleftrightarrow> sr_until r = None)"

definition reports_inv :: "reports \<Rightarrow> bool" where
  "reports_inv t \<longleftrightarrow> distinct (map sr_id t) \<and> (\<forall>r \<in> set t. report_ok r)"


lemma update_reports_inv:
  assumes "reports_inv t" and "\<And>r. sr_id (f r) = sr_id r" and "\<And>r. r \<in> set t \<Longrightarrow> p r \<Longrightarrow> report_ok r \<Longrightarrow> report_ok (f r)"
  shows "reports_inv (update_where p f t)"
proof -
  have "map sr_id (update_where p f t) = map sr_id t" by (simp add: update_where_def assms(2))
  with assms(1,3) show ?thesis by (auto simp: reports_inv_def set_update_where)
qed

datatype report_op =
    Create_Report uuid timestamp string string string string uuid string pytime int int string
  | Enable_Report timestamp uuid bool
  | Delete_Report uuid
  | Claim_Reports timestamp string int int
  | Report_Sent uuid timestamp timestamp "uuid option"
  | Report_Failed uuid timestamp timestamp string "uuid option"

definition report_exec :: "(string \<Rightarrow> uuid option) \<Rightarrow> report_op \<Rightarrow> reports \<Rightarrow> error + reports" where
  "report_exec canon c t =
     (case c of
        Create_Report i now nm kind frequency recipients creator format at_time wday month_day preset \<Rightarrow>
          create_scheduled_report i now nm kind frequency recipients creator format at_time wday month_day preset t
      | Enable_Report now i enabled \<Rightarrow> set_scheduled_report_enabled now i enabled t
      | Delete_Report i \<Rightarrow> delete_scheduled_report i t
      | Claim_Reports now token lease limit \<Rightarrow> map_sum (\<lambda>e. e) fst (due_scheduled_reports canon now token lease limit t)
      | Report_Sent i sent_at next_at token \<Rightarrow> mark_scheduled_report_sent i sent_at next_at token t
      | Report_Failed i failed_at next_attempt reason token \<Rightarrow> mark_scheduled_report_failed i failed_at next_attempt reason token t)"

definition proper_time :: "report_op \<Rightarrow> bool" where
  "proper_time c \<longleftrightarrow> (case c of
     Create_Report i now nm kind frequency recipients creator format at_time wday month_day preset \<Rightarrow> valid_pytime at_time
   | _ \<Rightarrow> True)"

lemma report_exec_ok:
  assumes inv: "reports_inv t" and c: "proper_time c" and r: "report_exec canon c t = Inr t'"
  shows "reports_inv t'"
proof (cases c)
  case (Create_Report i now nm kind frequency recipients creator format at_time wday month_day preset)
  note r1 = r [unfolded Create_Report report_exec_def report_op.case create_scheduled_report_def Let_def]
  obtain n where n: "next_report_delivery (Aware now 0) frequency at_time wday month_day = Inr n"
    using r1 by (auto split: if_splits sum.splits)
  have k: "frequency \<in> set frequencies" "0 \<le> wday" "wday \<le> 6" "month_day \<in> {1, 15, -1}"
    using n by (auto simp: next_report_delivery_def split: if_splits)
  have short: "take 60 kind = kind" if "kind \<in> set report_kinds" using that by (auto simp: report_kinds_def)
  have g: "kind \<in> set report_kinds" "format \<in> set report_formats" "preset \<in> set report_range_presets" "i \<notin> sr_id ` set t"
    using r1 by (auto simp: exists_row_iff n split: if_splits)
  have t': "t' = t @ [\<lparr>sr_id = i, sr_name = take 120 (strip nm), sr_type = kind, sr_frequency = frequency,
               sr_recipients = take 1000 (strip recipients), sr_format = format,
               sr_hour = pt_hour at_time, sr_minute = pt_minute at_time, sr_weekday = wday, sr_month_day = month_day,
               sr_preset = preset, sr_enabled = True, sr_next = Some n, sr_last_sent = None, sr_failures = 0,
               sr_last_failed = None, sr_error = [], sr_token = None, sr_until = None, sr_creator = creator, sr_created = now\<rparr>]"
    using r1 short [OF g(1)] by (simp add: n split: if_splits)
  show ?thesis using inv k g c unfolding t' Create_Report by (simp add: reports_inv_def report_ok_def proper_time_def valid_pytime_def)
next
  case (Enable_Report now i enabled)
  note r1 = r [unfolded Enable_Report report_exec_def report_op.case set_scheduled_report_enabled_def]
  obtain x where x: "find (\<lambda>r. sr_id r = i) t = Some x" using r1 by (cases "find (\<lambda>r. sr_id r = i) t") auto
  then have "report_ok x" using inv find_in_set [OF x] by (auto simp: reports_inv_def)
  obtain n where n: "(if enabled then map_sum (\<lambda>e. e) Some (next_of x now) else Inr (sr_next x)) = Inr n"
    and t': "t' = update_where (\<lambda>r. sr_id r = i) (\<lambda>r. r\<lparr>sr_enabled := enabled, sr_next := n,
                 sr_failures := (if enabled then 0 else sr_failures r), sr_error := (if enabled then [] else sr_error r),
                 sr_token := None, sr_until := None\<rparr>) t"
    using r1 [unfolded x option.case] by (cases "if enabled then map_sum (\<lambda>e. e) Some (next_of x now) else Inr (sr_next x)") auto
  have "sr_next x \<noteq> None" using \<open>report_ok x\<close> by (simp add: report_ok_def)
  then have "n \<noteq> None" using n by (cases enabled; cases "next_of x now") (simp_all, metis option.distinct(1))
  then show ?thesis unfolding t' by (intro update_reports_inv inv) (auto simp: report_ok_def)
next
  case (Delete_Report i)
  with r inv show ?thesis
    by (auto simp: report_exec_def delete_scheduled_report_def reports_inv_def delete_where_def distinct_map_filter split: if_splits)
next
  case (Claim_Reports now token lease limit)
  with r show ?thesis
    by (auto simp: report_exec_def due_scheduled_reports_def Let_def split: option.splits if_splits
        intro!: update_reports_inv inv) (auto simp: report_ok_def)
next
  case (Report_Sent i sent_at next_at token)
  with r show ?thesis
    by (auto simp: report_exec_def mark_scheduled_report_sent_def split: if_splits intro!: update_reports_inv inv) (auto simp: report_ok_def)
next
  case (Report_Failed i failed_at next_attempt reason token)
  with r show ?thesis
    by (auto simp: report_exec_def mark_scheduled_report_failed_def split: if_splits intro!: update_reports_inv inv) (auto simp: report_ok_def)
qed

interpretation report_run: transactional "report_exec canon" reports_inv proper_time for canon
  by unfold_locales (rule report_exec_ok)

text \<open>C34. Over any run of the operations on scheduled reports, by any number of replicas, ids stay
  unique and every report keeps a schedule from which its next delivery can be computed, a valid
  format, range and kind, and a claim that is either complete or absent.\<close>

theorem report_runs:
  assumes "reports_inv t" and "list_all proper_time cs"
  shows "reports_inv (exec_all (report_exec canon) cs t)"
  using assms by (rule report_run.exec_all_inv)

subsection \<open>A claim is exclusive\<close>

text \<open>What another replica, or another user, may do while a claim on a report lasts: anything but
  enabling, disabling or deleting it, and finishing it with the token of the claim or none.\<close>

definition leaves_claim :: "uuid \<Rightarrow> uuid \<Rightarrow> timestamp \<Rightarrow> report_op \<Rightarrow> bool" where
  "leaves_claim i token until c \<longleftrightarrow> (case c of
     Create_Report j now nm kind frequency recipients creator format at_time wday month_day preset \<Rightarrow> valid_pytime at_time
   | Enable_Report now j enabled \<Rightarrow> j \<noteq> i
   | Delete_Report j \<Rightarrow> j \<noteq> i
   | Claim_Reports now token' lease limit \<Rightarrow> now < until
   | Report_Sent j sent_at next_at token' \<Rightarrow> j \<noteq> i \<or> token' \<notin> {None, Some token}
   | Report_Failed j failed_at next_attempt reason token' \<Rightarrow> j \<noteq> i \<or> token' \<notin> {None, Some token})"

definition claimed_by :: "uuid \<Rightarrow> uuid \<Rightarrow> timestamp \<Rightarrow> reports \<Rightarrow> bool" where
  "claimed_by i token until t \<longleftrightarrow> reports_inv t \<and> (\<exists>r \<in> set t. sr_id r = i \<and> sr_token r = Some token \<and> sr_until r = Some until)"

lemma update_keeps_claim:
  "r \<in> set t \<Longrightarrow> \<not> p r \<Longrightarrow> r \<in> set (update_where p f t)"
  by (auto simp: update_where_def intro!: image_eqI [of _ _ r])

lemma candidate_due:
  assumes "distinct (map sr_id t)" and "r \<in> set t" and "sr_id r \<in> set (map sr_id (take n (sort_key k (filter (is_due now) t))))"
  shows "is_due now r"
proof -
  obtain x where x: "x \<in> set (take n (sort_key k (filter (is_due now) t)))" "sr_id x = sr_id r" using assms(3) by auto
  from in_set_takeD [OF x(1)] have "x \<in> set t" "is_due now x" by auto
  with x(2) assms(1,2) show ?thesis using distinct_key_eq [of sr_id t x r] by auto
qed

lemma claim_step:
  assumes c: "claimed_by i token until t" and a: "leaves_claim i token until op" and r: "report_exec canon op t = Inr t'"
  shows "claimed_by i token until t'"
proof -
  obtain x where inv: "reports_inv t" and x: "x \<in> set t" "sr_id x = i" "sr_token x = Some token" "sr_until x = Some until"
    using c by (auto simp: claimed_by_def)
  have "proper_time op" using a by (cases op) (auto simp: leaves_claim_def proper_time_def)
  from report_exec_ok [OF inv this r] have inv': "reports_inv t'" .
  have "x \<in> set t'"
  proof (cases op)
    case (Create_Report j now nm kind frequency recipients creator format at_time wday month_day preset)
    with r x show ?thesis by (auto simp: report_exec_def create_scheduled_report_def Let_def split: if_splits sum.splits)
  next
    case (Enable_Report now j enabled)
    with a x(2) have "sr_id x \<noteq> j" by (simp add: leaves_claim_def)
    with r Enable_Report x(1) show ?thesis
      by (auto simp: report_exec_def set_scheduled_report_enabled_def split: option.splits sum.splits intro: update_keeps_claim)
  next
    case (Delete_Report j)
    with r a x show ?thesis by (auto simp: report_exec_def delete_scheduled_report_def leaves_claim_def delete_where_def split: if_splits)
  next
    case (Claim_Reports now token' lease limit)
    have "\<not> is_due now x" using a x(4) by (simp add: Claim_Reports leaves_claim_def is_due_def)
    then have "sr_id x \<notin> set (map sr_id (take n (sort_key due_order (filter (is_due now) t))))" for n
      using candidate_due [of t x n due_order now] inv x(1) by (auto simp only: reports_inv_def)
    then show ?thesis using r Claim_Reports x(1)
      by (auto simp del: set_map simp: report_exec_def due_scheduled_reports_def Let_def split: option.splits if_splits intro!: update_keeps_claim)
  next
    case (Report_Sent j sent_at next_at token')
    with a x(2,3) have "\<not> holds_claim j token' x" by (auto simp: leaves_claim_def holds_claim_def)
    with r Report_Sent x(1) show ?thesis
      by (auto simp: report_exec_def mark_scheduled_report_sent_def split: if_splits intro: update_keeps_claim)
  next
    case (Report_Failed j failed_at next_attempt reason token')
    with a x(2,3) have "\<not> holds_claim j token' x" by (auto simp: leaves_claim_def holds_claim_def)
    with r Report_Failed x(1) show ?thesis
      by (auto simp: report_exec_def mark_scheduled_report_failed_def split: if_splits intro: update_keeps_claim)
  qed
  with inv' x show ?thesis by (auto simp: claimed_by_def)
qed

interpretation claim_run: transactional "report_exec canon" "claimed_by i token until" "leaves_claim i token until" for canon i token until
  by unfold_locales (rule claim_step)

lemma claim_made:
  assumes inv: "reports_inv t" and d: "due_scheduled_reports canon now claim lease limit t = Inr (t1, claimed)"
    and tok: "canon claim = Some token" and r: "r \<in> set claimed"
  shows "claimed_by (sr_id r) token (now + seconds lease) t1 \<and> r \<in> set t1 \<and> sr_token r = Some token"
proof -
  have "reports_inv t1"
    using report_exec_ok [OF inv, of "Claim_Reports now claim lease limit" canon t1] d by (simp add: proper_time_def report_exec_def)
  moreover have "r \<in> set t1 \<and> sr_token r = Some token \<and> sr_until r = Some (now + seconds lease)"
    using d tok r by (auto simp: due_scheduled_reports_def Let_def set_update_where split: if_splits)
  ultimately show ?thesis by (auto simp: claimed_by_def)
qed

text \<open>A report is never delivered by two replicas at once.  While the lease of a claim lasts, no
  other claim returns the report, whatever the other replicas do, unless an administrator changes
  the report or the holder finishes it.\<close>

theorem claim_is_exclusive:
  assumes "reports_inv t" and "due_scheduled_reports canon now claim lease limit t = Inr (t1, claimed)" and "canon claim = Some token"
    and "r \<in> set claimed" and "list_all (leaves_claim (sr_id r) token (now + seconds lease)) cs"
    and "due_scheduled_reports canon now' claim' lease' limit' (exec_all (report_exec canon) cs t1) = Inr (t2, claimed')"
    and "now' < now + seconds lease"
  shows "sr_id r \<notin> sr_id ` set claimed'"
proof
  assume "sr_id r \<in> sr_id ` set claimed'"
  let ?t = "exec_all (report_exec canon) cs t1"
  have "claimed_by (sr_id r) token (now + seconds lease) t1" using claim_made [OF assms(1-4)] by blast
  from claim_run.exec_all_inv [OF this assms(5)] obtain x where inv: "reports_inv ?t" and x: "x \<in> set ?t" "sr_id x = sr_id r"
      "sr_until x = Some (now + seconds lease)" by (auto simp: claimed_by_def)
  have "sr_id x \<in> set (map sr_id (take (nat limit') (sort_key due_order (filter (is_due now') ?t))))"
    using assms(6) \<open>sr_id r \<in> sr_id ` set claimed'\<close> x(2)
    by (auto simp del: set_map simp: due_scheduled_reports_def Let_def split: option.splits if_splits)
  from candidate_due [OF _ x(1) this] inv have "is_due now' x" by (simp add: reports_inv_def)
  with x(3) assms(7) show False by (simp add: is_due_def)
qed

subsection \<open>A delivery settles what it claimed\<close>







subsection \<open>Examples\<close>

definition sample_report :: "uuid \<Rightarrow> scheduled_report" where
  "sample_report i = \<lparr>sr_id = i, sr_name = ''Hours'', sr_type = ''time'', sr_frequency = ''weekly'', sr_recipients = ''a@x; b@x'',
     sr_format = ''csv'', sr_hour = 9, sr_minute = 0, sr_weekday = 0, sr_month_day = 1, sr_preset = ''previous_period'', sr_enabled = True,
     sr_next = Some 0, sr_last_sent = None, sr_failures = 0, sr_last_failed = None, sr_error = [], sr_token = None, sr_until = None,
     sr_creator = ''u'', sr_created = 0\<rparr>"

definition sample_delivery :: "(uuid \<Rightarrow> reports \<Rightarrow> reports) \<Rightarrow> delivery_world" where
  "sample_delivery meanwhile = \<lparr>dl_rows = (\<lambda>k s e n. Inr 3), dl_attach = (\<lambda>f k n. None),
     dl_mail = (\<lambda>rs n s e. None), dl_meanwhile = meanwhile, dl_sha256 = (\<lambda>_. [0, 7])\<rparr>"

lemma sample_reports_inv: "reports_inv [sample_report ''r1'', sample_report ''r2'']"
  by (simp add: reports_inv_def report_ok_def sample_report_def frequencies_def report_formats_def report_kinds_def report_range_presets_def)

definition sample_claim :: "reports \<times> reports" where
  "sample_claim = (let c = map (\<lambda>r. r\<lparr>sr_token := Some ''t'', sr_until := Some 1800000001\<rparr>) [sample_report ''r1'', sample_report ''r2''] in (c, c))"

lemma sample_claimed:
  "due_scheduled_reports Some 1 ''t'' (30 * 60) 25 [sample_report ''r1'', sample_report ''r2''] = Inr (fst sample_claim, snd sample_claim)"
  by code_simp

theorem report_runs_witness:
  "reports_inv (exec_all (report_exec Some)
     [Claim_Reports 1 ''t'' 1800 25, Report_Sent ''r1'' 1 2 (Some ''t''), Enable_Report 5 ''r2'' True, Delete_Report ''r1''] [sample_report ''r1'', sample_report ''r2''])"
  by (rule report_runs [OF sample_reports_inv]) (simp add: proper_time_def)

theorem claim_is_exclusive_witness:
  "\<exists>t2 claimed. due_scheduled_reports Some 3 ''u'' 60 25 (exec_all (report_exec Some)
       [Report_Sent ''r2'' 1 2 (Some ''t''), Report_Sent ''r1'' 1 2 (Some ''u'')] (fst sample_claim)) = Inr (t2, claimed) \<and>
     map sr_id claimed = [''r2''] \<and> ''r1'' \<notin> sr_id ` set claimed"
proof -
  let ?r = "(sample_report ''r1'')\<lparr>sr_token := Some ''t'', sr_until := Some 1800000001\<rparr>"
  let ?cs = "[Report_Sent ''r2'' 1 2 (Some ''t''), Report_Sent ''r1'' 1 2 (Some ''u'')]"
  let ?d = "due_scheduled_reports Some 3 ''u'' 60 25 (exec_all (report_exec Some) ?cs (fst sample_claim))"
  have m: "?r \<in> set (snd sample_claim)" by (simp add: sample_claim_def Let_def)
  have l: "list_all (leaves_claim (sr_id ?r) ''t'' (1 + seconds (30 * 60))) ?cs"
    by (simp add: leaves_claim_def sample_report_def)
  have "map_sum (\<lambda>e. e) (\<lambda>(t, c). map sr_id c) ?d = Inr [''r2'']" by code_simp
  then obtain t2 claimed where d: "?d = Inr (t2, claimed)" and i: "map sr_id claimed = [''r2'']" by (cases ?d) auto
  have n: "3 < 1 + seconds (30 * 60)" by (simp add: seconds_def usec_per_second_def)
  have "sr_id ?r \<notin> sr_id ` set claimed" by (rule claim_is_exclusive [OF sample_reports_inv sample_claimed refl m l d n])
  with d i show ?thesis by (simp add: sample_report_def)
qed


text \<open>
  A claim that is lost while a report is sent, here because an administrator pauses the first one,
  ends the whole round: the second report stays claimed and unsent until its lease ends.
\<close>

lemma lost_claim_ends_round:
  "case deliver_due (sample_delivery (\<lambda>i t. if i = ''r1'' then commit t (set_scheduled_report_enabled 1 ''r1'' False t) else t)) True 1 ''t''
       [sample_report ''r1'', sample_report ''r2''] of
     (t2, r) \<Rightarrow> r = Inl (ValueError ''Scheduled report delivery claim was lost'') \<and>
       map sr_token t2 = [None, Some ''t''] \<and> map sr_last_sent t2 = [None, None]"
  by code_simp

end
