(* ===== verification/Coordination.thy ===== *)
theory Coordination
  imports Calendar "HOL-Library.Product_Lexorder"
begin

section \<open>Coordination through the database\<close>

text \<open>
  What replicas of the server share so that they act as one: the leases of periodic jobs
  (\<open>api/repositories/background_jobs.py\<close>, \<open>api/services/background_jobs.py\<close>), request limits
  (\<open>api/repositories/rate_limits.py\<close>), the throttle of logins and the replay protection of single
  sign-on (\<open>api/repositories/accounts.py\<close>).  Every statement is atomic; its time is an argument.
\<close>

subsection \<open>Leases\<close>

record job_lease =
  jl_name :: string
  jl_owner :: string
  jl_until :: timestamp
  jl_updated :: timestamp

definition claim_background_job :: "timestamp \<Rightarrow> string \<Rightarrow> string \<Rightarrow> int \<Rightarrow> job_lease list \<Rightarrow> error + (job_lease list \<times> bool)" where
  "claim_background_job now nm owner lease_seconds t =
     (if strip nm = [] \<or> strip owner = [] \<or> lease_seconds < 1 then
        Inl (ValueError ''A job name, owner, and positive lease are required'')
      else
        let row = \<lparr>jl_name = nm, jl_owner = owner, jl_until = now + seconds lease_seconds, jl_updated = now\<rparr>
        in case find (\<lambda>r. jl_name r = nm) t of
             None \<Rightarrow> Inr (t @ [row], True)
           | Some r \<Rightarrow>
               if jl_until r \<le> now \<or> jl_owner r = owner then Inr (update_where (\<lambda>r. jl_name r = nm) (\<lambda>_. row) t, True)
               else Inr (t, False))"

definition release_background_jobs :: "string \<Rightarrow> job_lease list \<Rightarrow> job_lease list \<times> int" where
  "release_background_jobs owner t = (delete_where (\<lambda>r. jl_owner r = owner) t, int (rowcount (\<lambda>r. jl_owner r = owner) t))"

text \<open>\<open>BackgroundJobCoordinator.run\<close>; a job is counted as skipped, failed or succeeded.\<close>

datatype job_outcome = Lease_Skipped | Job_Failed | Job_Succeeded

definition run_job ::
  "timestamp \<Rightarrow> string \<Rightarrow> string \<Rightarrow> int \<Rightarrow> ('s \<Rightarrow> 's \<times> (error + 'r)) \<Rightarrow> job_lease list \<Rightarrow> 's \<Rightarrow>
   job_lease list \<times> 's \<times> job_outcome option \<times> (error + 'r option)" where
  "run_job now nm owner lease_seconds job t s =
     (case claim_background_job now nm owner lease_seconds t of
        Inl e \<Rightarrow> (t, s, None, Inl e)
      | Inr (t1, False) \<Rightarrow> (t1, s, Some Lease_Skipped, Inr None)
      | Inr (t1, True) \<Rightarrow>
          (case job s of
             (s1, Inl e) \<Rightarrow> (t1, s1, Some Job_Failed, Inl e)
           | (s1, Inr r) \<Rightarrow> (t1, s1, Some Job_Succeeded, Inr (Some r))))"

datatype lease_op = Claim_Job timestamp string string int | Release_Jobs string

definition lease_exec :: "lease_op \<Rightarrow> job_lease list \<Rightarrow> error + job_lease list" where
  "lease_exec c t = (case c of
     Claim_Job now nm owner lease \<Rightarrow> map_sum (\<lambda>e. e) fst (claim_background_job now nm owner lease t)
   | Release_Jobs owner \<Rightarrow> Inr (fst (release_background_jobs owner t)))"

definition held :: "string \<Rightarrow> string \<Rightarrow> timestamp \<Rightarrow> job_lease list \<Rightarrow> bool" where
  "held nm owner until t \<longleftrightarrow> distinct (map jl_name t) \<and> (\<exists>r \<in> set t. jl_name r = nm \<and> jl_owner r = owner \<and> jl_until r = until)"

text \<open>What the other replicas do before the lease ends.\<close>

definition other_replica :: "string \<Rightarrow> timestamp \<Rightarrow> lease_op \<Rightarrow> bool" where
  "other_replica owner until c \<longleftrightarrow> (case c of
     Claim_Job now nm owner' lease \<Rightarrow> owner' \<noteq> owner \<and> now < until
   | Release_Jobs owner' \<Rightarrow> owner' \<noteq> owner)"

lemma lease_names: "distinct (map jl_name t) \<Longrightarrow> lease_exec c t = Inr t' \<Longrightarrow> distinct (map jl_name t')"
proof (cases c)
  case (Claim_Job now nm owner lease)
  assume d: "distinct (map jl_name t)" and r: "lease_exec c t = Inr t'"
  have u: "map jl_name (update_where (\<lambda>r. jl_name r = nm) (\<lambda>_. row) t) = map jl_name t" if "jl_name row = nm" for row
    using that by (auto simp: update_where_def)
  show ?thesis
  proof (cases "find (\<lambda>r. jl_name r = nm) t")
    case None
    then have "nm \<notin> jl_name ` set t" by (auto simp: find_None_iff)
    with r d Claim_Job None show ?thesis by (auto simp: lease_exec_def claim_background_job_def Let_def split: if_splits)
  next
    case (Some x)
    with r d Claim_Job show ?thesis by (auto simp: lease_exec_def claim_background_job_def Let_def u split: if_splits)
  qed
qed (auto simp: lease_exec_def release_background_jobs_def delete_where_def distinct_map_filter)

lemma lease_step:
  assumes h: "held nm owner until t" and a: "other_replica owner until c" and r: "lease_exec c t = Inr t'"
  shows "held nm owner until t'"
proof -
  obtain x where d: "distinct (map jl_name t)" and x: "x \<in> set t" "jl_name x = nm" "jl_owner x = owner" "jl_until x = until"
    using h by (auto simp: held_def)
  have "x \<in> set t'"
  proof (cases c)
    case (Claim_Job now nm' owner' lease)
    show ?thesis
    proof (cases "nm' = nm")
      case True
      obtain y where y: "find (\<lambda>r. jl_name r = nm) t = Some y" using x by (cases "find (\<lambda>r. jl_name r = nm) t") (auto simp: find_None_iff)
      then have "y = x" using find_in_set [OF y] distinct_key_eq [OF d] x by auto
      with y True a r x Claim_Job show ?thesis
        by (auto simp: lease_exec_def claim_background_job_def other_replica_def Let_def split: if_splits)
    next
      case False
      have k: "x \<in> set (update_where (\<lambda>r. jl_name r = nm') f t)" for f
        using x False by (auto simp: update_where_def intro!: image_eqI [of _ _ x])
      show ?thesis using r x(1) k Claim_Job
        by (auto simp: lease_exec_def claim_background_job_def Let_def split: if_splits option.splits)
    qed
  next
    case (Release_Jobs owner')
    with r a x show ?thesis by (auto simp: lease_exec_def release_background_jobs_def other_replica_def delete_where_def)
  qed
  with lease_names [OF d r] x show ?thesis by (auto simp: held_def)
qed

interpretation lease_run: transactional lease_exec "held nm owner until" "other_replica owner until" for nm owner until
  by unfold_locales (rule lease_step)

lemma claim_held:
  assumes "distinct (map jl_name t)" and "claim_background_job now nm owner lease t = Inr (t1, True)"
  shows "held nm owner (now + seconds lease) t1"
proof -
  have "lease_exec (Claim_Job now nm owner lease) t = Inr t1" using assms(2) by (simp add: lease_exec_def)
  from lease_names [OF assms(1) this] have d: "distinct (map jl_name t1)" .
  have "\<lparr>jl_name = nm, jl_owner = owner, jl_until = now + seconds lease, jl_updated = now\<rparr> \<in> set t1"
  proof (cases "find (\<lambda>r. jl_name r = nm) t")
    case None
    then show ?thesis using assms(2) by (auto simp: claim_background_job_def Let_def split: if_splits)
  next
    case (Some x)
    then have "x \<in> set t" "jl_name x = nm" using find_in_set [OF Some] by auto
    with Some assms(2) show ?thesis by (auto simp: claim_background_job_def Let_def set_update_where split: if_splits)
  qed
  from bexI [OF _ this, of "\<lambda>r. jl_name r = nm \<and> jl_owner r = owner \<and> jl_until r = now + seconds lease"] d show ?thesis
    by (simp add: held_def)
qed

text \<open>Periodic jobs run on one replica at a time: once a replica has claimed a job, no other replica
  that asks before the lease ends gets it, and it does not run the job, whatever the others have
  claimed or released meanwhile.\<close>

theorem lease_is_exclusive:
  assumes "distinct (map jl_name t)" and "claim_background_job now nm owner lease t = Inr (t1, True)"
    and "list_all (other_replica owner (now + seconds lease)) cs"
    and "owner' \<noteq> owner" and "now' < now + seconds lease" and "strip owner' \<noteq> []" and "1 \<le> lease'"
  shows "run_job now' nm owner' lease' job (exec_all lease_exec cs t1) s = (exec_all lease_exec cs t1, s, Some Lease_Skipped, Inr None)"
proof -
  let ?t = "exec_all lease_exec cs t1"
  from lease_run.exec_all_inv [OF claim_held [OF assms(1,2)] assms(3)] obtain x where
    d: "distinct (map jl_name ?t)" and x: "x \<in> set ?t" "jl_name x = nm" "jl_owner x = owner" "jl_until x = now + seconds lease"
    by (auto simp: held_def)
  obtain y where y: "find (\<lambda>r. jl_name r = nm) ?t = Some y" using x by (cases "find (\<lambda>r. jl_name r = nm) ?t") (auto simp: find_None_iff)
  then have "y = x" using find_in_set [OF y] distinct_key_eq [OF d] x by auto
  moreover have "strip nm \<noteq> []" using assms(2) by (auto simp: claim_background_job_def split: if_splits)
  ultimately show ?thesis using y x assms(4-7) by (simp add: run_job_def claim_background_job_def Let_def)
qed

subsection \<open>Request limits\<close>

text \<open>A fixed window of whole seconds since the epoch; times are in microseconds.\<close>

record rate_bucket =
  rb_key :: string
  rb_window :: int
  rb_count :: int
  rb_updated :: timestamp

definition window_of :: "int \<Rightarrow> timestamp \<Rightarrow> int" where
  "window_of window_seconds now = now div seconds window_seconds"

definition consume_request_limit :: "timestamp \<Rightarrow> string \<Rightarrow> int \<Rightarrow> int \<Rightarrow> rate_bucket list \<Rightarrow> rate_bucket list \<times> bool \<times> int" where
  "consume_request_limit now key limit window_seconds t =
     (let w = window_of window_seconds now;
          count = (case find (\<lambda>r. rb_key r = key) t of None \<Rightarrow> 1 | Some r \<Rightarrow> if rb_window r = w then rb_count r + 1 else 1);
          row = \<lparr>rb_key = key, rb_window = w, rb_count = count, rb_updated = now\<rparr>;
          t1 = (if exists_row (\<lambda>r. rb_key r = key) t then update_where (\<lambda>r. rb_key r = key) (\<lambda>_. row) t else t @ [row])
      in (t1, count \<le> limit, max 1 (- ((now - (w + 1) * seconds window_seconds) div usec_per_second))))"

definition purge_request_limits_before :: "timestamp \<Rightarrow> rate_bucket list \<Rightarrow> rate_bucket list \<times> int" where
  "purge_request_limits_before cutoff t =
     (delete_where (\<lambda>r. rb_updated r < cutoff) t, int (rowcount (\<lambda>r. rb_updated r < cutoff) t))"

text \<open>The answers to requests at given times, all for one key.\<close>

fun consume_all :: "string \<Rightarrow> int \<Rightarrow> int \<Rightarrow> timestamp list \<Rightarrow> rate_bucket list \<Rightarrow> bool list" where
  "consume_all key limit window [] t = []"
| "consume_all key limit window (now # nows) t =
     (let (t1, allowed, retry) = consume_request_limit now key limit window t in allowed # consume_all key limit window nows t1)"








text \<open>Waiting as long as \<open>Retry-After\<close> says is long enough, and never longer than the window needs.\<close>

lemma retry_after_bounds:
  assumes "0 < window" and "consume_request_limit now key limit window t = (t1, allowed, retry)"
  shows "1 \<le> retry \<and> retry \<le> window \<and> window_of window now < window_of window (now + seconds retry)"
proof -
  let ?w = "window_of window now" and ?s = "seconds window"
  have s: "0 < ?s" using assms(1) by (simp add: seconds_def usec_per_second_def)
  have r: "retry = max 1 (- ((now - (?w + 1) * ?s) div usec_per_second))"
    using assms(2) by (auto simp: consume_request_limit_def Let_def)
  define left where "left = (?w + 1) * ?s - now"
  have l: "0 < left" "left \<le> ?s"
    using s by (simp_all add: left_def window_of_def algebra_simps mult_div_mod_eq [symmetric] minus_mod_eq_mult_div [symmetric] pos_mod_bound)
  have c: "left \<le> usec_per_second * (- ((- left) div usec_per_second))"
    "usec_per_second * (- ((- left) div usec_per_second)) < left + usec_per_second"
    by (simp_all add: usec_per_second_def)
  have r': "retry = max 1 (- ((- left) div usec_per_second))" by (simp add: r left_def)
  have "left \<le> seconds retry" using c(1) by (simp add: r' seconds_def usec_per_second_def mult.commute)
  then have "(?w + 1) * ?s \<le> now + seconds retry" by (simp add: left_def)
  from zdiv_mono1 [OF this s] have "?w + 1 \<le> window_of window (now + seconds retry)"
    using s by (simp add: window_of_def [of window "now + seconds retry"])
  moreover have "- ((- left) div usec_per_second) \<le> window"
    using c(2) l(2) by (simp add: seconds_def usec_per_second_def)
  ultimately show ?thesis using assms(1) by (simp add: r')
qed

text \<open>
  The bucket is set to the window of the statement that comes last.  When a request of an earlier
  window is recorded late, the count of the current window starts again.
\<close>

lemma late_request_resets_window:
  "consume_all ''k'' 2 60 [seconds 60, seconds 61, seconds 62, seconds 59, seconds 63, seconds 64] [] = [True, True, False, True, True, True]"
  by code_simp

subsection \<open>The throttle of logins\<close>

record login_attempt =
  la_identity :: string
  la_source :: string
  la_at :: timestamp

definition record_login_failure :: "timestamp \<Rightarrow> string \<Rightarrow> string \<Rightarrow> login_attempt list \<Rightarrow> login_attempt list" where
  "record_login_failure now identity_hash source_hash t =
     delete_where (\<lambda>r. la_at r < now - seconds (24 * 60 * 60)) (t @ [\<lparr>la_identity = identity_hash, la_source = source_hash, la_at = now\<rparr>])"

definition clear_login_failures :: "string \<Rightarrow> login_attempt list \<Rightarrow> login_attempt list" where
  "clear_login_failures identity_hash t = delete_where (\<lambda>r. la_identity r = identity_hash) t"

definition login_is_rate_limited ::
  "timestamp \<Rightarrow> string \<Rightarrow> string \<Rightarrow> int \<Rightarrow> int \<Rightarrow> int \<Rightarrow> login_attempt list \<Rightarrow> bool" where
  "login_is_rate_limited now identity_hash source_hash identity_limit source_limit window_minutes t =
     (let recent = filter (\<lambda>r. now - seconds (60 * window_minutes) < la_at r) t
      in identity_limit \<le> int (rowcount (\<lambda>r. la_identity r = identity_hash) recent) \<or>
         source_limit \<le> int (rowcount (\<lambda>r. la_source r = source_hash) recent))"

datatype login_op = Login_Failed timestamp string string | Login_Cleared string

fun login_exec :: "login_op \<Rightarrow> login_attempt list \<Rightarrow> login_attempt list" where
  "login_exec (Login_Failed now identity_hash source_hash) t = record_login_failure now identity_hash source_hash t"
| "login_exec (Login_Cleared identity_hash) t = clear_login_failures identity_hash t"

text \<open>The failures of an identity after the last time it was cleared, within a window.\<close>

fun recent_failures :: "string \<Rightarrow> timestamp \<Rightarrow> login_op list \<Rightarrow> nat" where
  "recent_failures i since [] = 0"
| "recent_failures i since (Login_Failed now i' s # cs) =
     (if i' = i \<and> since < now \<and> Login_Cleared i \<notin> set cs then 1 else 0) + recent_failures i since cs"
| "recent_failures i since (Login_Cleared i' # cs) = recent_failures i since cs"

lemma failures_kept:
  assumes "\<forall>c \<in> set cs. case c of Login_Failed now i' s \<Rightarrow> now - seconds (24 * 60 * 60) \<le> since | Login_Cleared i' \<Rightarrow> True"
  shows "rowcount (\<lambda>r. la_identity r = i) (filter (\<lambda>r. since < la_at r) (fold login_exec cs t)) =
    (if Login_Cleared i \<in> set cs then 0 else rowcount (\<lambda>r. la_identity r = i) (filter (\<lambda>r. since < la_at r) t)) + recent_failures i since cs"
  using assms
proof (induction cs arbitrary: t)
  case (Cons c cs)
  note ih = Cons.IH [of "login_exec c t"]
  show ?case
  proof (cases c)
    case (Login_Failed now i' s)
    have k: "now - seconds (24 * 60 * 60) \<le> since" using Cons.prems Login_Failed by simp
    have "filter (\<lambda>r. since < la_at r) (record_login_failure now i' s t) = filter (\<lambda>r. since < la_at r) (t @ [\<lparr>la_identity = i', la_source = s, la_at = now\<rparr>])"
      unfolding record_login_failure_def delete_where_def filter_filter by (rule filter_cong [OF refl]) (use k in auto)
    then show ?thesis using ih Cons.prems Login_Failed by simp
  next
    case (Login_Cleared i')
    show ?thesis
    proof (cases "i' = i")
      case True
      have "rowcount (\<lambda>r. la_identity r = i) (filter (\<lambda>r. since < la_at r) (clear_login_failures i t)) = 0"
        by (simp add: rowcount_0 clear_login_failures_def delete_where_def)
      then show ?thesis using ih Cons.prems Login_Cleared True by simp
    next
      case False
      have "rowcount (\<lambda>r. la_identity r = i) (filter (\<lambda>r. since < la_at r) (clear_login_failures i' t)) =
          rowcount (\<lambda>r. la_identity r = i) (filter (\<lambda>r. since < la_at r) t)"
        using False by (simp add: rowcount_def clear_login_failures_def delete_where_def filter_filter) (metis (mono_tags, lifting) filter_cong)
      then show ?thesis using ih Cons.prems Login_Cleared False by simp
    qed
  qed
qed simp

text \<open>Guessing is throttled: whatever else happens, an identity that has failed as often as its
  limit within the window, and has not logged in since, is refused; only its own success, not
  anybody else's, and only time lift this.\<close>

theorem guessing_is_throttled:
  assumes "\<forall>c \<in> set cs. case c of Login_Failed at_time i' s \<Rightarrow> at_time \<le> now | Login_Cleared i' \<Rightarrow> True"
    and "window_minutes \<le> 24 * 60" and "identity_limit \<le> int (recent_failures i (now - seconds (60 * window_minutes)) cs)"
  shows "login_is_rate_limited now i s identity_limit source_limit window_minutes (fold login_exec cs t)"
proof -
  let ?since = "now - seconds (60 * window_minutes)"
  have "seconds (60 * window_minutes) \<le> seconds (24 * 60 * 60)" using assms(2) by (simp add: seconds_def usec_per_second_def)
  then have "\<forall>c \<in> set cs. case c of Login_Failed now i' s \<Rightarrow> now - seconds (24 * 60 * 60) \<le> ?since | Login_Cleared i' \<Rightarrow> True"
    using assms(1) by (fastforce split: login_op.splits)
  from failures_kept [OF this, of i t] assms(3) show ?thesis by (simp add: login_is_rate_limited_def Let_def)
qed

subsection \<open>Assertions of an identity provider\<close>

record used_assertion =
  sa_response :: string
  sa_assertion :: string
  sa_expires :: timestamp

definition consume_saml_assertion ::
  "timestamp \<Rightarrow> string \<Rightarrow> string \<Rightarrow> timestamp \<Rightarrow> used_assertion list \<Rightarrow> error + (used_assertion list \<times> bool)" where
  "consume_saml_assertion now response_id assertion_id expires_at t =
     (if response_id = [] \<or> 512 < length response_id \<or> assertion_id = [] \<or> 512 < length assertion_id then
        Inl (ValueError ''SAML replay identifiers are invalid'')
      else
        let t1 = delete_where (\<lambda>r. sa_expires r < now) t
        in if exists_row (\<lambda>r. sa_response r = response_id \<or> sa_assertion r = assertion_id) t1 then Inr (t1, False)
           else Inr (t1 @ [\<lparr>sa_response = response_id, sa_assertion = assertion_id, sa_expires = expires_at\<rparr>], True))"

type_synonym saml_op = "timestamp \<times> string \<times> string \<times> timestamp"

definition saml_exec :: "saml_op \<Rightarrow> used_assertion list \<Rightarrow> error + used_assertion list" where
  "saml_exec c t = (case c of (now, response_id, assertion_id, expires_at) \<Rightarrow>
     map_sum (\<lambda>e. e) fst (consume_saml_assertion now response_id assertion_id expires_at t))"

definition remembered :: "used_assertion \<Rightarrow> used_assertion list \<Rightarrow> bool" where
  "remembered r t \<longleftrightarrow> r \<in> set t"

interpretation saml_run: transactional saml_exec "remembered r" "\<lambda>c. fst c \<le> sa_expires r" for r
  by unfold_locales
    (auto simp: remembered_def saml_exec_def map_fst_Inr consume_saml_assertion_def Let_def delete_where_def split: if_splits)

text \<open>A response of the identity provider signs in once: after it was accepted, no response with
  its id or with the id of its assertion is accepted until it has expired, whatever other
  responses arrive in between.\<close>

theorem assertion_used_once:
  assumes "consume_saml_assertion now response_id assertion_id expires_at t = Inr (t1, True)"
    and "list_all (\<lambda>c. fst c \<le> expires_at) cs" and "now' \<le> expires_at"
    and "response_id' = response_id \<or> assertion_id' = assertion_id"
  shows "consume_saml_assertion now' response_id' assertion_id' expires_at' (exec_all saml_exec cs t1) \<noteq> Inr (t2, True)"
proof -
  let ?r = "\<lparr>sa_response = response_id, sa_assertion = assertion_id, sa_expires = expires_at\<rparr>"
  have "remembered ?r t1" using assms(1) by (auto simp: remembered_def consume_saml_assertion_def Let_def split: if_splits)
  from saml_run.exec_all_inv [OF this] assms(2) have "?r \<in> set (exec_all saml_exec cs t1)" by (simp add: remembered_def)
  with assms(3,4) show ?thesis
    by (auto simp: consume_saml_assertion_def Let_def exists_row_iff delete_where_def split: if_splits)
qed

subsection \<open>Examples\<close>

definition one_lease :: "job_lease list" where
  "one_lease = [\<lparr>jl_name = ''reports'', jl_owner = ''a'', jl_until = seconds 60, jl_updated = 0\<rparr>]"

lemma one_lease_claimed: "claim_background_job 0 ''reports'' ''a'' 60 [] = Inr (one_lease, True)"
  by code_simp

theorem lease_is_exclusive_witness:
  "run_job (seconds 59) ''reports'' ''b'' 60 (\<lambda>s. (s + 1, Inr ())) (exec_all lease_exec
     [Claim_Job (seconds 30) ''reports'' ''c'' 60, Release_Jobs ''b''] one_lease) (0 :: nat) =
   (exec_all lease_exec [Claim_Job (seconds 30) ''reports'' ''c'' 60, Release_Jobs ''b''] one_lease, 0, Some Lease_Skipped, Inr None)"
proof -
  have d: "distinct (map jl_name [])" by simp
  have o: "list_all (other_replica ''a'' (0 + seconds 60)) [Claim_Job (seconds 30) ''reports'' ''c'' 60, Release_Jobs ''b'']"
    by (simp add: other_replica_def seconds_def usec_per_second_def)
  have n: "''b'' \<noteq> ''a''" "seconds 59 < 0 + seconds 60" "strip ''b'' \<noteq> []" "1 \<le> (60 :: int)"
    by (simp_all add: seconds_def usec_per_second_def strip_def lstrip_def is_space_def)
  show ?thesis by (rule lease_is_exclusive [OF d one_lease_claimed o n])
qed


theorem guessing_is_throttled_witness:
  "login_is_rate_limited (seconds 100) ''i'' ''s'' 2 100 15
     (fold login_exec [Login_Failed (seconds 10) ''i'' ''s'', Login_Cleared ''j'', Login_Failed (seconds 20) ''i'' ''t''] [])"
  by (rule guessing_is_throttled) (simp_all add: seconds_def usec_per_second_def)

theorem assertion_used_once_witness:
  "consume_saml_assertion 5 ''r'' ''b'' 20 [\<lparr>sa_response = ''r'', sa_assertion = ''a'', sa_expires = 10\<rparr>] \<noteq>
     Inr ([\<lparr>sa_response = ''r'', sa_assertion = ''b'', sa_expires = 20\<rparr>], True)"
proof -
  have c: "consume_saml_assertion 1 ''r'' ''a'' 10 [] = Inr ([\<lparr>sa_response = ''r'', sa_assertion = ''a'', sa_expires = 10\<rparr>], True)"
    by code_simp
  have "list_all (\<lambda>c. fst c \<le> 10) []" by simp
  from assertion_used_once [OF c this, of 5 "''r''" "''b''" 20] show ?thesis by simp
qed

end
