(* ===== verification/QuickBooks_IIF.thy ===== *)
theory QuickBooks_IIF
  imports Agent_Windows
begin

section \<open>Time for QuickBooks\<close>

text \<open>
  \<open>api/services/quickbooks_iif.py\<close>: recorded time as a file of the Intuit Interchange Format.  A row
  is a record; a missing value is \<open>None\<close>, as is a date or a duration the code cannot read.
  \<open>quickbooks_totals\<close> states the account the export gives of the time, \<open>quickbooks_reads_back\<close>
  that the file reads back as the table of its rows.
\<close>

definition timeact_columns :: "string list" where
  "timeact_columns = [''!TIMEACT'', ''DATE'', ''JOB'', ''EMP'', ''ITEM'', ''PITEM'', ''DURATION'', ''PROJ'', ''NOTE'', ''BILLINGSTATUS'']"

definition max_iif_rows :: int where "max_iif_rows = 10000"
definition max_duration_minutes :: int where "max_duration_minutes = 23 * 60 + 59"

record time_row =
  tr_employee :: "string option"
  tr_job :: "string option"
  tr_item :: "string option"
  tr_class :: "string option"
  tr_billable :: bool
  tr_seconds :: "int option"
  tr_date :: "date option"
  tr_note :: "string option"

record iif_export =
  ie_data :: bytes
  ie_rows :: int
  ie_source :: int
  ie_exported :: int
  ie_skipped :: int

definition text_or_empty :: "string option \<Rightarrow> string" where
  "text_or_empty v = (case v of None \<Rightarrow> [] | Some s \<Rightarrow> s)"

definition formula_start :: "string \<Rightarrow> bool" where
  "formula_start s \<longleftrightarrow> s \<noteq> [] \<and> hd s \<in> {CHR ''='', CHR ''+'', CHR ''-'', CHR ''@''}"

definition control_char :: "char \<Rightarrow> bool" where "control_char c \<longleftrightarrow> code c < 32 \<or> code c = 127"

definition validate_mapping :: "string \<Rightarrow> string \<Rightarrow> bool \<Rightarrow> nat \<Rightarrow> error + string" where
  "validate_mapping v label required max_length =
     (let cleaned = strip v
      in if required \<and> cleaned = [] then Inl (ValueError (label @ '' is required''))
         else if max_length < length cleaned then Inl (ValueError (label @ '' must contain at most '' @ digits max_length @ '' characters''))
         else if list_ex control_char cleaned then Inl (ValueError (label @ '' cannot contain control characters''))
         else if list_ex (\<lambda>c. 128 \<le> code c) cleaned then Inl (ValueError (label @ '' must use ASCII characters for QuickBooks IIF''))
         else if formula_start cleaned then Inl (ValueError (label @ '' cannot begin with a spreadsheet formula character''))
         else Inr cleaned)"

fun replace_crlf :: "string \<Rightarrow> string" where
  "replace_crlf (a # b # cs) = (if a = CHR 13 \<and> b = CHR 10 then ''/n'' @ replace_crlf cs else a # replace_crlf (b # cs))"
| "replace_crlf cs = cs"

definition newline_marks :: "string \<Rightarrow> string" where
  "newline_marks s = concat (map (\<lambda>c. if c = CHR 13 \<or> c = CHR 10 then ''/n'' else if c = CHR 9 then '' '' else [c]) (replace_crlf s))"

text \<open>
  The normal form NFKD of a code point below 256 without combining characters, then
  \<open>encode("ascii", "replace")\<close>.
\<close>

definition ascii_fold :: "char \<Rightarrow> string" where
  "ascii_fold c = (let n = code c in
     if n < 128 then [c]
     else if n \<in> {160, 168, 175, 180, 184} then '' ''
     else if n = 170 \<or> 224 \<le> n \<and> n \<le> 229 then ''a''
     else if n = 178 then ''2'' else if n = 179 then ''3'' else if n = 185 then ''1''
     else if n = 188 then ''1?4'' else if n = 189 then ''1?2'' else if n = 190 then ''3?4''
     else if n = 186 \<or> 242 \<le> n \<and> n \<le> 246 then ''o''
     else if 192 \<le> n \<and> n \<le> 197 then ''A'' else if n = 199 then ''C''
     else if 200 \<le> n \<and> n \<le> 203 then ''E'' else if 204 \<le> n \<and> n \<le> 207 then ''I''
     else if n = 209 then ''N'' else if 210 \<le> n \<and> n \<le> 214 then ''O''
     else if 217 \<le> n \<and> n \<le> 220 then ''U'' else if n = 221 then ''Y''
     else if n = 231 then ''c'' else if 232 \<le> n \<and> n \<le> 235 then ''e''
     else if 236 \<le> n \<and> n \<le> 239 then ''i'' else if n = 241 then ''n''
     else if 249 \<le> n \<and> n \<le> 252 then ''u'' else if n = 253 \<or> n = 255 then ''y''
     else ''?'')"

definition safe_note :: "string option \<Rightarrow> string" where
  "safe_note v =
     (let note1 = map (\<lambda>c. if control_char c then CHR '' '' else c) (newline_marks (text_or_empty v));
          note2 = take 1000 (concat (map ascii_fold note1))
      in if formula_start note2 then take 1000 (CHR 39 # note2) else note2)"

definition us_date :: "date \<Rightarrow> string" where
  "us_date d = zero_pad 2 (month_of d) @ ''/'' @ zero_pad 2 (day_of d) @ ''/'' @ zero_pad 2 (year_of d mod 100)"

record row_values =
  rv_date :: string
  rv_job :: string
  rv_employee :: string
  rv_item :: string
  rv_class :: string
  rv_note :: string
  rv_billing :: int
  rv_minutes :: int

definition row_values_of :: "time_row \<Rightarrow> string \<Rightarrow> error + row_values" where
  "row_values_of row default_service_item =
     (case validate_mapping (text_or_empty (tr_employee row)) ''QuickBooks employee name'' True 209 of Inl e \<Rightarrow> Inl e
      | Inr employee \<Rightarrow>
     (case validate_mapping (text_or_empty (tr_job row)) ''QuickBooks customer/job'' False 209 of Inl e \<Rightarrow> Inl e
      | Inr job \<Rightarrow>
     (case validate_mapping (text_or_empty (py_or (tr_item row) (Some default_service_item))) ''QuickBooks service item'' True 209 of Inl e \<Rightarrow> Inl e
      | Inr item \<Rightarrow>
     (case validate_mapping (text_or_empty (tr_class row)) ''QuickBooks class'' False 159 of Inl e \<Rightarrow> Inl e
      | Inr class_name \<Rightarrow>
        if tr_billable row \<and> job = [] then Inl (ValueError ''Billable time requires a QuickBooks customer/job mapping'')
        else case tr_seconds row of None \<Rightarrow> Inl (ValueError ''A time row has an invalid duration'')
        | Some secs \<Rightarrow>
          if secs < 0 then Inl (ValueError ''A time row has a negative duration'')
          else case tr_date row of None \<Rightarrow> Inl (ValueError ''A time row has an invalid work date'')
          | Some d \<Rightarrow> Inr \<lparr>rv_date = us_date d, rv_job = job, rv_employee = employee, rv_item = item, rv_class = class_name,
              rv_note = safe_note (tr_note row), rv_billing = (if tr_billable row then 1 else 0),
              rv_minutes = (secs + 30) div 60\<rparr>))))"

text \<open>The inner loop: a row per piece of at most 23:59.\<close>

function split_minutes :: "int \<Rightarrow> int list" where
  "split_minutes minutes = (if minutes \<le> 0 then [] else
     (let duration = min minutes max_duration_minutes in duration # split_minutes (minutes - duration)))"
  by pat_completeness auto
termination by (relation "measure nat") (auto simp: max_duration_minutes_def)

declare split_minutes.simps [simp del]

definition timeact_row :: "row_values \<Rightarrow> int \<Rightarrow> string list" where
  "timeact_row v duration =
     [''TIMEACT'', rv_date v, rv_job v, rv_employee v, rv_item v, [],
      digits (nat (duration div 60)) @ '':'' @ zero_pad 2 (duration mod 60), rv_class v, rv_note v, digits (nat (rv_billing v))]"

record iif_state =
  is_output :: "string list list"
  is_count :: int
  is_source :: int
  is_exported :: int
  is_skipped :: int

fun add_pieces :: "row_values \<Rightarrow> int list \<Rightarrow> iif_state \<Rightarrow> error + iif_state" where
  "add_pieces v [] s = Inr s"
| "add_pieces v (d # ds) s =
     (let s1 = s\<lparr>is_output := is_output s @ [timeact_row v d], is_count := is_count s + 1, is_exported := is_exported s + d\<rparr>
      in if max_iif_rows < is_count s1 then Inl (ValueError ''QuickBooks exports are limited to 10000 rows'')
         else add_pieces v ds s1)"

fun export_rows :: "string \<Rightarrow> time_row list \<Rightarrow> iif_state \<Rightarrow> error + iif_state" where
  "export_rows item [] s = Inr s"
| "export_rows item (row # rows) s =
     (case row_values_of row item of
        Inl e \<Rightarrow> Inl e
      | Inr v \<Rightarrow>
          (let secs = the (tr_seconds row); s1 = s\<lparr>is_source := is_source s + secs\<rparr>
           in if rv_minutes v = 0 then export_rows item rows (s1\<lparr>is_skipped := is_skipped s1 + secs\<rparr>)
              else case add_pieces v (split_minutes (rv_minutes v)) s1 of
                Inl e \<Rightarrow> Inl e
              | Inr s2 \<Rightarrow> export_rows item rows s2))"

definition iif_header :: "string \<Rightarrow> string \<Rightarrow> timestamp \<Rightarrow> string list list" where
  "iif_header company company_time observed =
     [[''!TIMERHDR'', ''VER'', ''REL'', ''COMPANYNAME'', ''IMPORTEDBEFORE'', ''FROMTIMER'', ''COMPANYCREATETIME''],
      [''TIMERHDR'', ''8'', ''0'', company, ''N'', ''Y'', company_time],
      [''!HDR'', ''PROD'', ''VER'', ''REL'', ''IIFVER'', ''DATE'', ''TIME'', ''ACCNTNT'', ''ACCNTNTSPLITTIME''],
      [''HDR'', ''Dayfinch Workforce Tracker'', ''Version 0.6.0'', ''Release 0'', ''1'',
       zero_pad 2 (month_of (date_of observed)) @ ''/'' @ zero_pad 2 (day_of (date_of observed)) @ ''/'' @ zero_pad 4 (year_of (date_of observed)),
       int_text (observed div usec_per_second), ''N'', ''0''],
      timeact_columns]"

definition crlf :: string where "crlf = [CHR 13, CHR 10]"

fun join_text :: "string \<Rightarrow> string list \<Rightarrow> string" where
  "join_text d [] = []"
| "join_text d [w] = w"
| "join_text d (w # ws) = w @ d @ join_text d ws"

definition render_iif :: "string list list \<Rightarrow> string" where
  "render_iif output = join_text crlf (map (join_text [CHR 9]) output) @ crlf"

definition quickbooks_timer_iif ::
  "string \<Rightarrow> string \<Rightarrow> string \<Rightarrow> time_row list \<Rightarrow> timestamp \<Rightarrow> error + iif_export" where
  "quickbooks_timer_iif company_name company_create_time default_service_item rows observed =
     (case validate_mapping company_name ''QuickBooks company name'' True 255 of Inl e \<Rightarrow> Inl e
      | Inr company \<Rightarrow>
     (let company_time = strip company_create_time
      in if company_time = [] \<or> list_ex (\<lambda>c. \<not> ascii_digit c) company_time \<or> 20 < length company_time then
           Inl (ValueError ''QuickBooks company creation time must be the numeric value exported by QuickBooks'')
         else case validate_mapping default_service_item ''Default QuickBooks service item'' False 209 of Inl e \<Rightarrow> Inl e
         | Inr item \<Rightarrow>
             (case export_rows item rows
                \<lparr>is_output = iif_header company company_time observed, is_count = 0, is_source = 0, is_exported = 0, is_skipped = 0\<rparr> of
                Inl e \<Rightarrow> Inl e
              | Inr s \<Rightarrow> Inr \<lparr>ie_data = render_iif (is_output s), ie_rows = is_count s, ie_source = is_source s,
                  ie_exported = is_exported s, ie_skipped = is_skipped s\<rparr>)))"

lemma split_minutes_0 [simp]: "n \<le> 0 \<Longrightarrow> split_minutes n = []"
  by (simp add: split_minutes.simps)

lemma split_minutes_sum: "0 \<le> n \<Longrightarrow> sum_list (split_minutes n) = n"
proof (induction n rule: split_minutes.induct)
  case (1 n)
  then show ?case by (cases "n \<le> 0") (auto simp: split_minutes.simps [of n] Let_def min_def)
qed

lemma split_minutes_range: "d \<in> set (split_minutes n) \<Longrightarrow> 1 \<le> d \<and> d \<le> max_duration_minutes"
proof (induction n rule: split_minutes.induct)
  case (1 n)
  then show ?case by (cases "n \<le> 0") (auto simp: split_minutes.simps [of n] Let_def min_def max_duration_minutes_def)
qed

lemma add_pieces_ok:
  "add_pieces v ds s = Inr s' \<Longrightarrow>
     s' = s\<lparr>is_output := is_output s @ map (timeact_row v) ds, is_count := is_count s + int (length ds), is_exported := is_exported s + sum_list ds\<rparr>
     \<and> (ds \<noteq> [] \<longrightarrow> is_count s' \<le> max_iif_rows)"
proof (induction v ds s rule: add_pieces.induct)
  case (1 v s) then show ?case by simp
next
  case (2 v d ds s) then show ?case by (auto simp: Let_def split: if_splits)
qed

text \<open>The lines a row of time adds to the table.\<close>

definition row_lines :: "string \<Rightarrow> time_row \<Rightarrow> string list list" where
  "row_lines item row = (case row_values_of row item of Inl e \<Rightarrow> [] | Inr v \<Rightarrow> map (timeact_row v) (split_minutes (rv_minutes v)))"

definition rounded_minutes :: "time_row \<Rightarrow> int" where
  "rounded_minutes row = (the (tr_seconds row) + 30) div 60"

lemma row_values_ok:
  assumes "row_values_of row item = Inr v"
  shows "0 \<le> the (tr_seconds row)" "rv_minutes v = rounded_minutes row"
  using assms by (auto simp: row_values_of_def rounded_minutes_def split: sum.splits if_splits option.splits)

lemma export_rows_ok:
  "export_rows item rows s = Inr s' \<Longrightarrow> is_count s \<le> max_iif_rows \<Longrightarrow>
     is_output s' = is_output s @ concat (map (row_lines item) rows) \<and>
     is_count s' = is_count s + int (length (concat (map (row_lines item) rows))) \<and> is_count s' \<le> max_iif_rows \<and>
     is_source s' = is_source s + (\<Sum>row\<leftarrow>rows. the (tr_seconds row)) \<and>
     is_exported s' = is_exported s + (\<Sum>row\<leftarrow>rows. rounded_minutes row) \<and>
     is_skipped s' = is_skipped s + (\<Sum>row\<leftarrow>rows. if rounded_minutes row = 0 then the (tr_seconds row) else 0) \<and>
     (\<forall>row\<in>set rows. 0 \<le> the (tr_seconds row) \<and> (\<exists>v. row_values_of row item = Inr v))"
proof (induction item rows s rule: export_rows.induct)
  case (1 item s) then show ?case by simp
next
  case (2 item row rows s)
  from 2(3) obtain v where v: "row_values_of row item = Inr v" by (auto split: sum.splits)
  note sec = row_values_ok [OF v]
  let ?s1 = "s\<lparr>is_source := is_source s + the (tr_seconds row)\<rparr>"
  show ?case
  proof (cases "rv_minutes v = 0")
    case True
    then have "export_rows item rows (?s1\<lparr>is_skipped := is_skipped ?s1 + the (tr_seconds row)\<rparr>) = Inr s'" using 2(3) v by (simp add: Let_def)
    then show ?thesis using 2(1) [OF v refl refl True] 2(4) v sec True by (auto simp: row_lines_def algebra_simps)
  next
    case False
    then obtain s2 where s2: "add_pieces v (split_minutes (rv_minutes v)) ?s1 = Inr s2" and r: "export_rows item rows s2 = Inr s'"
      using 2(3) v by (auto simp: Let_def split: sum.splits)
    have "0 < rv_minutes v" using False sec by (simp add: rounded_minutes_def)
    then have "split_minutes (rv_minutes v) \<noteq> []" "sum_list (split_minutes (rv_minutes v)) = rv_minutes v"
      using split_minutes_sum [of "rv_minutes v"] by (auto simp: split_minutes.simps [of "rv_minutes v"] Let_def)
    then show ?thesis using add_pieces_ok [OF s2] 2(2) [OF v refl refl False s2 r] v sec False by (auto simp: row_lines_def algebra_simps)
  qed
qed

subsection \<open>The text of the file\<close>

definition clean_cell :: "string \<Rightarrow> bool" where
  "clean_cell s \<longleftrightarrow> list_all (\<lambda>c. \<not> control_char c \<and> code c < 128) s"

definition read_table :: "string \<Rightarrow> string list list" where
  "read_table data = map (split_on CHR 9) (butlast (split_on CHR 10 (filter (\<lambda>c. c \<noteq> CHR 13) data)))"

lemma split_on_word: "d \<notin> set w \<Longrightarrow> split_on d w = [w]"
  by (induction w) auto

lemma split_on_append: "d \<notin> set w \<Longrightarrow> split_on d (w @ d # r) = w # split_on d r"
  by (induction w) auto

lemma split_on_join: "ws \<noteq> [] \<Longrightarrow> \<forall>w\<in>set ws. d \<notin> set w \<Longrightarrow> split_on d (join_text [d] ws) = ws"
proof (induction ws rule: induct_list012)
  case 1 then show ?case by simp
next
  case (2 w) then show ?case by (simp add: split_on_word)
next
  case (3 w v ws) then show ?case by (simp add: split_on_append)
qed

lemma split_on_join_end: "ws \<noteq> [] \<Longrightarrow> \<forall>w\<in>set ws. d \<notin> set w \<Longrightarrow> split_on d (join_text [d] ws @ [d]) = ws @ [[]]"
proof (induction ws rule: induct_list012)
  case 1 then show ?case by simp
next
  case (2 w) then show ?case using split_on_append [of d w "[]"] by simp
next
  case (3 w v ws) then show ?case by (simp add: split_on_append)
qed

lemma filter_join: "\<forall>w\<in>set ws. \<forall>c\<in>set w. p c \<Longrightarrow> filter p (join_text d ws) = join_text (filter p d) ws"
  by (induction ws rule: induct_list012) auto

lemma set_join: "c \<in> set (join_text d ws) \<Longrightarrow> c \<in> set d \<or> (\<exists>w\<in>set ws. c \<in> set w)"
  by (induction ws rule: induct_list012) auto

lemma clean_cellD: "clean_cell w \<Longrightarrow> CHR 9 \<notin> set w \<and> CHR 10 \<notin> set w \<and> CHR 13 \<notin> set w"
  by (auto simp: clean_cell_def list_all_iff control_char_def code_def)

lemma read_table_render:
  assumes ne: "output \<noteq> []" "\<forall>line\<in>set output. line \<noteq> [] \<and> list_all clean_cell line"
  shows "read_table (render_iif output) = output"
proof -
  let ?lines = "map (join_text [CHR 9]) output"
  have no: "c \<notin> set w" if w: "w \<in> set ?lines" and c: "c = CHR 10 \<or> c = CHR 13" for w c
  proof
    assume i: "c \<in> set w"
    from w obtain line where l: "line \<in> set output" "w = join_text [CHR 9] line" by auto
    with i c obtain cell where "cell \<in> set line" "c \<in> set cell" using set_join [of c "[CHR 9]" line] by auto
    with c clean_cellD [of cell] ne(2) l(1) show False by (auto simp: list_all_iff)
  qed
  have "filter (\<lambda>c. c \<noteq> CHR 13) (join_text crlf ?lines) = join_text (filter (\<lambda>c. c \<noteq> CHR 13) crlf) ?lines"
    by (rule filter_join) (use no in blast)
  then have "filter (\<lambda>c. c \<noteq> CHR 13) (render_iif output) = join_text [CHR 10] ?lines @ [CHR 10]"
    by (simp add: render_iif_def crlf_def)
  then have "read_table (render_iif output) = map (split_on CHR 9) ?lines"
    using split_on_join_end [of ?lines "CHR 10"] ne(1) no [of _ "CHR 10"] by (simp add: read_table_def)
  also have "\<dots> = output"
  proof -
    have "split_on CHR 9 (join_text [CHR 9] line) = line" if "line \<in> set output" for line
      using that ne(2) clean_cellD by (intro split_on_join) (auto simp: list_all_iff)
    then show ?thesis by (simp add: map_idI)
  qed
  finally show ?thesis .
qed

lemma render_ascii:
  assumes "\<forall>line\<in>set output. list_all clean_cell line" "c \<in> set (render_iif output)"
  shows "code c < 128"
proof -
  have "c \<in> set crlf \<or> (\<exists>line\<in>set output. c \<in> set (join_text [CHR 9] line))"
    using assms(2) set_join [of c crlf "map (join_text [CHR 9]) output"] by (auto simp: render_iif_def)
  then have "c \<in> {CHR 9, CHR 10, CHR 13} \<or> (\<exists>line\<in>set output. \<exists>cell\<in>set line. c \<in> set cell)"
    using set_join [of c "[CHR 9]"] by (fastforce simp: crlf_def)
  then show ?thesis using assms(1) by (auto simp: clean_cell_def list_all_iff code_def)
qed

lemma digits_ascii: "list_all ascii_digit (digits n)"
proof (induction n rule: digits.induct)
  case (1 n)
  have "ascii_digit (char_of (48 + k))" if "k < 10" for k :: nat using that by (simp add: ascii_digit_def code_def)
  then show ?case using 1 by (subst digits.simps) (auto simp: list_all_iff)
qed

lemma digit_clean: "list_all ascii_digit w \<Longrightarrow> clean_cell w"
  by (auto simp: clean_cell_def list_all_iff control_char_def ascii_digit_def)

lemma clean_simps [simp]:
  "clean_cell []" "clean_cell (v @ w) \<longleftrightarrow> clean_cell v \<and> clean_cell w"
  "clean_cell (c # w) \<longleftrightarrow> \<not> control_char c \<and> code c < 128 \<and> clean_cell w"
  "clean_cell (digits n)" "clean_cell (zero_pad k i)" "clean_cell (int_text i)"
proof -
  show "clean_cell (digits n)" for n by (rule digit_clean [OF digits_ascii])
  then show "clean_cell (zero_pad k i)" "clean_cell (int_text i)"
    by (auto simp: zero_pad_def int_text_def Let_def clean_cell_def list_all_iff control_char_def code_def)
qed (auto simp: clean_cell_def)

subsection \<open>What is written\<close>

lemma validate_mapping_ok:
  assumes "validate_mapping v label required n = Inr w"
  shows "w = strip v" "clean_cell w" "\<not> formula_start w" "length w \<le> n" "required \<Longrightarrow> w \<noteq> []"
  using assms by (auto simp: validate_mapping_def Let_def clean_cell_def list_all_iff list_ex_iff split: if_splits)

lemma ascii_fold_clean: "\<not> control_char c \<Longrightarrow> clean_cell (ascii_fold c)"
  by (auto simp: ascii_fold_def Let_def control_char_def code_def)

lemma clean_take: "clean_cell w \<Longrightarrow> clean_cell (take n w)"
  by (auto simp: clean_cell_def list_all_iff dest: in_set_takeD)

lemma clean_concat: "\<forall>w\<in>set ws. clean_cell w \<Longrightarrow> clean_cell (concat ws)"
  by (induction ws) auto

lemma safe_note_clean: "clean_cell (safe_note v)" "\<not> formula_start (safe_note v)" "length (safe_note v) \<le> 1000"
proof -
  let ?n1 = "map (\<lambda>c. if control_char c then CHR '' '' else c) (newline_marks (text_or_empty v))"
  have "clean_cell (concat (map ascii_fold ?n1))"
    by (rule clean_concat) (auto intro!: ascii_fold_clean simp: control_char_def code_def)
  then have c: "clean_cell (take 1000 (concat (map ascii_fold ?n1)))" by (rule clean_take)
  then have "clean_cell (take 1000 (CHR 39 # take 1000 (concat (map ascii_fold ?n1))))"
    by (intro clean_take) (simp add: control_char_def code_def)
  with c show "clean_cell (safe_note v)" by (simp only: safe_note_def Let_def if_split) simp
  show "\<not> formula_start (safe_note v)" "length (safe_note v) \<le> 1000"
    by (auto simp: safe_note_def Let_def formula_start_def hd_take)
qed

definition safe_cell :: "string \<Rightarrow> bool" where "safe_cell w \<longleftrightarrow> clean_cell w \<and> \<not> formula_start w"

lemma digits_no_formula: "list_all ascii_digit w \<Longrightarrow> \<not> formula_start (w @ v)" if "w \<noteq> []"
  using that by (cases w) (auto simp: formula_start_def ascii_digit_def code_def)

lemma digits_nonempty [simp]: "digits n \<noteq> []"
  by (simp add: digits.simps [of n])

lemma zero_pad_digits: "list_all ascii_digit (zero_pad k i)" "zero_pad k i \<noteq> []"
  using digits_ascii [of "nat i"] by (auto simp: zero_pad_def Let_def list_all_iff ascii_digit_def code_def)

lemma row_values_safe:
  assumes "row_values_of row item = Inr v"
  shows "list_all safe_cell [rv_date v, rv_job v, rv_employee v, rv_item v, rv_class v, rv_note v]" "rv_employee v \<noteq> []" "rv_item v \<noteq> []"
proof -
  have date: "safe_cell (us_date d)" for d
    using digits_no_formula [OF zero_pad_digits(2) zero_pad_digits(1)]
    by (auto simp: safe_cell_def us_date_def control_char_def code_def)
  from assms obtain em jb it cl d where
    "validate_mapping (text_or_empty (tr_employee row)) ''QuickBooks employee name'' True 209 = Inr em"
    "validate_mapping (text_or_empty (tr_job row)) ''QuickBooks customer/job'' False 209 = Inr jb"
    "validate_mapping (text_or_empty (py_or (tr_item row) (Some item))) ''QuickBooks service item'' True 209 = Inr it"
    "validate_mapping (text_or_empty (tr_class row)) ''QuickBooks class'' False 159 = Inr cl"
    and v: "rv_date v = us_date d" "rv_job v = jb" "rv_employee v = em" "rv_item v = it" "rv_class v = cl" "rv_note v = safe_note (tr_note row)"
    by (auto simp: row_values_of_def split: sum.splits if_splits option.splits)
  note ok = this(1-4) [THEN validate_mapping_ok(2)] this(1-4) [THEN validate_mapping_ok(3)] this(1) [THEN validate_mapping_ok(5)] this(3) [THEN validate_mapping_ok(5)]
  show "list_all safe_cell [rv_date v, rv_job v, rv_employee v, rv_item v, rv_class v, rv_note v]"
    and "rv_employee v \<noteq> []" "rv_item v \<noteq> []"
    using ok date safe_note_clean [of "tr_note row"] by (simp_all add: v safe_cell_def)
qed

lemma row_lines_safe:
  assumes "line \<in> set (row_lines item row)"
  shows "length line = length timeact_columns" "list_all safe_cell line"
proof -
  from assms obtain v d where v: "row_values_of row item = Inr v" and l: "line = timeact_row v d"
    unfolding row_lines_def by (cases "row_values_of row item") auto
  show "length line = length timeact_columns" by (simp add: l timeact_row_def timeact_columns_def)
  have "safe_cell ''TIMEACT''" "safe_cell []" "safe_cell (digits n)" "safe_cell (digits n @ '':'' @ zero_pad 2 k)" for n k
    using digits_no_formula [OF digits_nonempty digits_ascii, of n] digits_no_formula [OF digits_nonempty digits_ascii, of n "[]"]
    by (auto simp: safe_cell_def control_char_def code_def formula_start_def)
  then show "list_all safe_cell line" using row_values_safe(1) [OF v] by (simp add: l timeact_row_def)
qed

lemma header_clean:
  assumes "clean_cell company" "clean_cell company_time" "line \<in> set (iif_header company company_time observed)"
  shows "line \<noteq> []" "list_all clean_cell line"
  using assms by (auto simp: iif_header_def timeact_columns_def control_char_def code_def)

text \<open>A successful export, taken apart.\<close>

lemma timer_iif_ok:
  assumes "quickbooks_timer_iif company_name company_create_time default_service_item rows observed = Inr e"
  obtains s where
    "export_rows (strip default_service_item) rows
       \<lparr>is_output = iif_header (strip company_name) (strip company_create_time) observed, is_count = 0, is_source = 0, is_exported = 0, is_skipped = 0\<rparr> = Inr s"
    "e = \<lparr>ie_data = render_iif (is_output s), ie_rows = is_count s, ie_source = is_source s, ie_exported = is_exported s, ie_skipped = is_skipped s\<rparr>"
    "clean_cell (strip company_name)" "clean_cell (strip company_create_time)"
proof -
  from assms obtain company item s where c: "validate_mapping company_name ''QuickBooks company name'' True 255 = Inr company"
    and t: "\<not> list_ex (\<lambda>c. \<not> ascii_digit c) (strip company_create_time)"
    and i: "validate_mapping default_service_item ''Default QuickBooks service item'' False 209 = Inr item"
    and x: "export_rows item rows
       \<lparr>is_output = iif_header company (strip company_create_time) observed, is_count = 0, is_source = 0, is_exported = 0, is_skipped = 0\<rparr> = Inr s"
    and e: "e = \<lparr>ie_data = render_iif (is_output s), ie_rows = is_count s, ie_source = is_source s, ie_exported = is_exported s, ie_skipped = is_skipped s\<rparr>"
    by (auto simp: quickbooks_timer_iif_def Let_def split: sum.splits if_splits)
  from t have "clean_cell (strip company_create_time)" by (intro digit_clean) (auto simp: list_all_iff list_ex_iff)
  then show thesis using that x e validate_mapping_ok(1,2) [OF c] validate_mapping_ok(1) [OF i] by simp
qed

lemma error_add:
  fixes a b c n a' b' c' n' :: int
  assumes "\<bar>60 * a - (b - c)\<bar> \<le> 30 * n" "\<bar>60 * a' - (b' - c')\<bar> \<le> 30 * n'"
  shows "\<bar>60 * (a + a') - (b + b' - (c + c'))\<bar> \<le> 30 * (n + n')"
  using assms by (simp add: abs_le_iff)

lemma rounding_error:
  assumes "\<forall>row\<in>set rows. 0 \<le> the (tr_seconds row) \<and> (\<exists>v. row_values_of row item = Inr v)"
  shows "\<bar>60 * (\<Sum>row\<leftarrow>rows. rounded_minutes row)
     - ((\<Sum>row\<leftarrow>rows. the (tr_seconds row)) - (\<Sum>row\<leftarrow>rows. if rounded_minutes row = 0 then the (tr_seconds row) else 0))\<bar>
     \<le> 30 * int (length (concat (map (row_lines item) rows)))"
  using assms
proof (induction rows)
  case Nil then show ?case by simp
next
  case (Cons row rows)
  from Cons(2) obtain v where v: "row_values_of row item = Inr v" and pos: "0 \<le> the (tr_seconds row)" by auto
  have one: "0 < rounded_minutes row \<Longrightarrow> 1 \<le> length (row_lines item row)"
    using v row_values_ok(2) [OF v] split_minutes.simps [of "rv_minutes v"] by (auto simp: row_lines_def Let_def)
  have "\<bar>60 * rounded_minutes row - (the (tr_seconds row) - (if rounded_minutes row = 0 then the (tr_seconds row) else 0))\<bar>
      \<le> 30 * int (length (row_lines item row))"
  proof (cases "rounded_minutes row = 0")
    case True then show ?thesis by simp
  next
    case False
    with pos have "0 < rounded_minutes row" by (simp add: rounded_minutes_def)
    with one have "1 \<le> length (row_lines item row)" by simp
    moreover have "\<bar>60 * rounded_minutes row - the (tr_seconds row)\<bar> \<le> 30" by (simp add: rounded_minutes_def)
    ultimately show ?thesis using False by simp
  qed
  moreover have "\<bar>60 * (\<Sum>row\<leftarrow>rows. rounded_minutes row)
     - ((\<Sum>row\<leftarrow>rows. the (tr_seconds row)) - (\<Sum>row\<leftarrow>rows. if rounded_minutes row = 0 then the (tr_seconds row) else 0))\<bar>
     \<le> 30 * int (length (concat (map (row_lines item) rows)))"
    using Cons by simp
  ultimately show ?case
    by (simp only: list.map concat.simps sum_list.Cons length_append of_nat_add) (rule error_add)
qed

text \<open>C27. The account of an export is exact: it counts the seconds of its rows, the minutes of each row
  rounded to the nearest minute, and as skipped the seconds of the rows that round to nothing; what it
  exports differs from the time that is not skipped by at most half a minute for each line of the file, and
  there are at most ten thousand lines.\<close>
theorem quickbooks_totals:
  assumes "quickbooks_timer_iif company_name company_create_time default_service_item rows observed = Inr e"
  shows "ie_source e = (\<Sum>row\<leftarrow>rows. the (tr_seconds row))
    \<and> ie_exported e = (\<Sum>row\<leftarrow>rows. (the (tr_seconds row) + 30) div 60)
    \<and> ie_skipped e = (\<Sum>row\<leftarrow>rows. if the (tr_seconds row) < 30 then the (tr_seconds row) else 0)
    \<and> \<bar>60 * ie_exported e - (ie_source e - ie_skipped e)\<bar> \<le> 30 * ie_rows e
    \<and> 0 \<le> ie_rows e \<and> ie_rows e \<le> max_iif_rows"
proof -
  from assms obtain s where s: "export_rows (strip default_service_item) rows
       \<lparr>is_output = iif_header (strip company_name) (strip company_create_time) observed, is_count = 0, is_source = 0, is_exported = 0, is_skipped = 0\<rparr> = Inr s"
    and e: "e = \<lparr>ie_data = render_iif (is_output s), ie_rows = is_count s, ie_source = is_source s, ie_exported = is_exported s, ie_skipped = is_skipped s\<rparr>"
    by (rule timer_iif_ok)
  note ok = export_rows_ok [OF s, simplified]
  have "(\<Sum>row\<leftarrow>rows. if rounded_minutes row = 0 then the (tr_seconds row) else 0)
      = (\<Sum>row\<leftarrow>rows. if the (tr_seconds row) < 30 then the (tr_seconds row) else 0)"
    by (rule arg_cong [where f = sum_list], rule map_cong [OF refl]) (use ok in \<open>auto simp: rounded_minutes_def max_iif_rows_def\<close>)
  moreover have "(\<Sum>row\<leftarrow>rows. rounded_minutes row) = (\<Sum>row\<leftarrow>rows. (the (tr_seconds row) + 30) div 60)"
    by (simp add: rounded_minutes_def)
  ultimately show ?thesis using ok rounding_error [of rows "strip default_service_item"] by (simp add: e max_iif_rows_def)
qed

definition sample_time :: time_row where
  "sample_time = \<lparr>tr_employee = Some ''Bo'', tr_job = None, tr_item = None, tr_class = None,
     tr_billable = False, tr_seconds = Some 90000, tr_date = Some 739626, tr_note = Some ''=x''\<rparr>"

lemma quickbooks_sample:
  "map_sum (\<lambda>e. ()) ie_rows (quickbooks_timer_iif ''Acme'' ''123'' ''Dev'' [sample_time] 0) = Inr 2"
  by code_simp

text \<open>C28. The file of an export, read back line by line and cell by cell, is its header and then, for each row of
  time in order, the pieces of at most 23:59 its minutes make; no cell of these lines breaks out of its
  column or begins as a formula of a spreadsheet, and the file is plain ASCII.\<close>
theorem quickbooks_reads_back:
  assumes "quickbooks_timer_iif company_name company_create_time default_service_item rows observed = Inr e"
  shows "read_table (ie_data e) = iif_header (strip company_name) (strip company_create_time) observed
      @ concat (map (row_lines (strip default_service_item)) rows)
    \<and> int (length (concat (map (row_lines (strip default_service_item)) rows))) = ie_rows e
    \<and> list_all (\<lambda>line. length line = length timeact_columns \<and> list_all safe_cell line) (concat (map (row_lines (strip default_service_item)) rows))
    \<and> list_all (\<lambda>c. code c < 128) (ie_data e)"
proof -
  from assms obtain s where s: "export_rows (strip default_service_item) rows
       \<lparr>is_output = iif_header (strip company_name) (strip company_create_time) observed, is_count = 0, is_source = 0, is_exported = 0, is_skipped = 0\<rparr> = Inr s"
    and e: "e = \<lparr>ie_data = render_iif (is_output s), ie_rows = is_count s, ie_source = is_source s, ie_exported = is_exported s, ie_skipped = is_skipped s\<rparr>"
    and c: "clean_cell (strip company_name)" "clean_cell (strip company_create_time)"
    by (rule timer_iif_ok)
  let ?lines = "concat (map (row_lines (strip default_service_item)) rows)"
  have out: "is_output s = iif_header (strip company_name) (strip company_create_time) observed @ ?lines"
    and n: "is_count s = int (length ?lines)"
    using export_rows_ok [OF s] by (auto simp: max_iif_rows_def)
  have row: "list_all (\<lambda>line. length line = length timeact_columns \<and> list_all safe_cell line) ?lines"
    using row_lines_safe [of _ "strip default_service_item"] by (auto simp: list_all_iff)
  have rne: "line \<noteq> []" if "line \<in> set ?lines" for line
  proof -
    have "length line = length timeact_columns" using row that by (simp only: list_all_iff)
    then show ?thesis by (auto simp: timeact_columns_def)
  qed
  have clean: "line \<noteq> [] \<and> list_all clean_cell line" if "line \<in> set (is_output s)" for line
  proof -
    from that consider (header) "line \<in> set (iif_header (strip company_name) (strip company_create_time) observed)"
      | (row) "line \<in> set ?lines" unfolding out set_append by blast
    then show ?thesis
    proof cases
      case header with header_clean [OF c] show ?thesis by blast
    next
      case inrow: row
      have "list_all safe_cell line" using row inrow unfolding list_all_iff by blast
      then show ?thesis using rne [OF inrow] by (auto simp: list_all_iff safe_cell_def)
    qed
  qed
  then have "read_table (ie_data e) = is_output s" using read_table_render [of "is_output s"] by (simp add: e out iif_header_def)
  moreover have "list_all (\<lambda>c. code c < 128) (ie_data e)"
    using clean render_ascii [of "is_output s"] by (auto simp: e list_all_iff)
  ultimately show ?thesis using row n out by (simp add: e)
qed

text \<open>Ninety thousand seconds are fifteen hundred minutes, in two lines.\<close>

lemma quickbooks_totals_witness:
  "\<exists>e. quickbooks_timer_iif ''Acme'' ''123'' ''Dev'' [sample_time] 0 = Inr e \<and> ie_exported e = 1500 \<and> ie_source e = 90000"
proof -
  obtain e where e: "quickbooks_timer_iif ''Acme'' ''123'' ''Dev'' [sample_time] 0 = Inr e"
    using quickbooks_sample by (cases "quickbooks_timer_iif ''Acme'' ''123'' ''Dev'' [sample_time] 0") auto
  with quickbooks_totals [OF e] show ?thesis by (simp add: sample_time_def)
qed

lemma quickbooks_reads_back_witness:
  "\<exists>e. quickbooks_timer_iif ''Acme'' ''123'' ''Dev'' [sample_time] 0 = Inr e \<and> length (read_table (ie_data e)) = 7"
proof -
  obtain e where e: "quickbooks_timer_iif ''Acme'' ''123'' ''Dev'' [sample_time] 0 = Inr e" and n: "ie_rows e = 2"
    using quickbooks_sample by (cases "quickbooks_timer_iif ''Acme'' ''123'' ''Dev'' [sample_time] 0") auto
  have "length (iif_header (strip ''Acme'') (strip ''123'') 0) = 5" by (simp add: iif_header_def)
  with quickbooks_reads_back [OF e] e n show ?thesis by simp
qed

end
