(* ===== verification/Credentials.thy ===== *)
theory Credentials
  imports Agent_Windows Sealing
begin

unbundle bit_operations_syntax

section \<open>Passwords and codes\<close>

text \<open>
  \<open>api/security.py\<close>: password hashes and the codes of an authenticator app.  The hash functions of
  \<open>hashlib\<close> are the record \<open>crypto\<close>: \<open>scrypt\<close> of a password with a salt, the costs \<open>n\<close>, \<open>r\<close>, \<open>p\<close> and a
  length (\<open>None\<close> where it raises \<open>ValueError\<close>), \<open>HMAC\<close> with SHA-1 and with SHA-256, and SHA-256.
  \<open>crypto_law\<close> states the lengths they document.  Base 32 is defined as \<open>base64\<close> does it.
\<close>

record crypto =
  cy_scrypt :: "bytes \<Rightarrow> bytes \<Rightarrow> int \<Rightarrow> int \<Rightarrow> int \<Rightarrow> nat \<Rightarrow> bytes option"
  cy_hmac_sha1 :: "bytes \<Rightarrow> bytes \<Rightarrow> bytes"
  cy_hmac_sha256 :: "bytes \<Rightarrow> bytes \<Rightarrow> bytes"
  cy_sha256 :: "bytes \<Rightarrow> bytes"

definition scrypt_n :: int where "scrypt_n = 2 ^ 14"
definition scrypt_r :: int where "scrypt_r = 8"
definition scrypt_p :: int where "scrypt_p = 1"
definition scrypt_length :: nat where "scrypt_length = 64"

definition crypto_law :: "crypto \<Rightarrow> bool" where
  "crypto_law C \<longleftrightarrow>
     (\<forall>pw salt. \<exists>d. cy_scrypt C pw salt scrypt_n scrypt_r scrypt_p scrypt_length = Some d \<and> length d = scrypt_length)
     \<and> (\<forall>key msg. length (cy_hmac_sha1 C key msg) = 20)"

subsection \<open>Passwords\<close>

definition hash_password :: "crypto \<Rightarrow> bytes \<Rightarrow> string \<Rightarrow> error + string" where
  "hash_password C salt password =
     (if length password < 12 then Inl (ValueError ''Password must be at least 12 characters'')
      else case cy_scrypt C (utf8_encode password) salt scrypt_n scrypt_r scrypt_p scrypt_length of
        None \<Rightarrow> Inl (ValueError ''scrypt'')
      | Some derived \<Rightarrow>
          Inr (''scrypt$'' @ digits (nat scrypt_n) @ ''$'' @ digits (nat scrypt_r) @ ''$'' @ digits (nat scrypt_p) @ ''$'' @
            b64_encode salt @ ''$'' @ b64_encode derived))"

text \<open>\<open>s.split(c, n)\<close>: at most \<open>n\<close> cuts.\<close>

fun split_at_most :: "nat \<Rightarrow> char \<Rightarrow> string \<Rightarrow> string list" where
  "split_at_most n d [] = [[]]"
| "split_at_most 0 d (c # cs) = [c # cs]"
| "split_at_most (Suc n) d (c # cs) =
     (if c = d then [] # split_at_most n d cs
      else (case split_at_most (Suc n) d cs of [] \<Rightarrow> [[c]] | w # ws \<Rightarrow> (c # w) # ws))"

definition verify_password :: "crypto \<Rightarrow> string \<Rightarrow> string option \<Rightarrow> bool" where
  "verify_password C password encoded =
     (case encoded of None \<Rightarrow> False
      | Some enc \<Rightarrow>
        if enc = [] then False
        else case split_at_most 5 CHR ''$'' enc of
          [algorithm, n, r, p, salt_text, expected_text] \<Rightarrow>
            if algorithm \<noteq> ''scrypt'' then False
            else (case (b64_decode salt_text, b64_decode expected_text, py_int n, py_int r, py_int p) of
              (Some salt, Some expected, Some n', Some r', Some p') \<Rightarrow>
                (case cy_scrypt C (utf8_encode password) salt n' r' p' (length expected) of
                   None \<Rightarrow> False
                 | Some actual \<Rightarrow> actual = expected)
            | _ \<Rightarrow> False)
        | _ \<Rightarrow> False)"

subsection \<open>Base 32\<close>

definition b32_char :: "nat \<Rightarrow> char" where
  "b32_char n = (if n < 26 then char_of (65 + n) else char_of (24 + n))"

definition b32_value :: "char \<Rightarrow> nat option" where
  "b32_value c = (let n = code c in if 65 \<le> n \<and> n \<le> 90 then Some (n - 65) else if 50 \<le> n \<and> n \<le> 55 then Some (n - 24) else None)"

definition big_endian :: "nat \<Rightarrow> int \<Rightarrow> bytes" where
  "big_endian k v = map (\<lambda>i. char_of (nat (v div 256 ^ (k - Suc i) mod 256))) [0..<k]"

definition from_bytes :: "bytes \<Rightarrow> int" where
  "from_bytes bs = foldl (\<lambda>acc b. acc * 256 + int (code b)) 0 bs"

definition b32_group :: "int \<Rightarrow> string" where
  "b32_group v = map (\<lambda>i. b32_char (nat (v div 32 ^ (7 - i) mod 32))) [0..<8]"

function b32_blocks :: "bytes \<Rightarrow> string" where
  "b32_blocks bs = (if bs = [] then [] else b32_group (from_bytes (take 5 bs)) @ b32_blocks (drop 5 bs))"
  by pat_completeness auto
termination by (relation "measure length") auto

declare b32_blocks.simps [simp del]

definition b32_encode :: "bytes \<Rightarrow> string" where
  "b32_encode bs =
     (let left = length bs mod 5; padded = (if left = 0 then bs else bs @ replicate (5 - left) (char_of (0 :: nat)));
          e = b32_blocks padded;
          cut = (if left = 0 then 0 else if left = 1 then 6 else if left = 2 then 4 else if left = 3 then 3 else 1 :: nat)
      in take (length e - cut) e @ replicate cut CHR ''='')"

definition rstrip_pad :: "string \<Rightarrow> string" where
  "rstrip_pad s = rev (dropWhile (\<lambda>c. c = CHR ''='') (rev s))"

fun b32_acc :: "int \<Rightarrow> string \<Rightarrow> int option" where
  "b32_acc acc [] = Some acc"
| "b32_acc acc (c # cs) = (case b32_value c of None \<Rightarrow> None | Some v \<Rightarrow> b32_acc (acc * 32 + int v) cs)"

text \<open>The groups of eight characters, five bytes each; the value of the last group is kept for its padding.\<close>

function b32_go :: "string \<Rightarrow> (bytes \<times> int) option" where
  "b32_go s = (if s = [] then Some ([], 0)
     else case b32_acc 0 (take 8 s) of
       None \<Rightarrow> None
     | Some acc \<Rightarrow> (case b32_go (drop 8 s) of None \<Rightarrow> None
         | Some (bs, acc') \<Rightarrow> Some (big_endian 5 acc @ bs, if drop 8 s = [] then acc else acc')))"
  by pat_completeness auto
termination by (relation "measure length") auto

declare b32_go.simps [simp del]

definition b32_decode :: "string \<Rightarrow> bytes option" where
  "b32_decode s =
     (if \<not> list_all (\<lambda>c. code c < 128) s \<or> length s mod 8 \<noteq> 0 then None
      else (let t = rstrip_pad s; pads = length s - length t
        in case b32_go t of None \<Rightarrow> None
        | Some (bs, acc) \<Rightarrow>
            if pads \<notin> {0, 1, 3, 4, 6} then None
            else if pads \<noteq> 0 \<and> bs \<noteq> [] then
              Some (take (length bs - 5) bs @ take ((43 - 5 * pads) div 8) (big_endian 5 (acc * 32 ^ pads)))
            else Some bs))"

subsection \<open>Codes of an authenticator\<close>

definition generate_totp_secret :: "bytes \<Rightarrow> string" where
  "generate_totp_secret raw = rstrip_pad (b32_encode raw)"

definition hotp :: "crypto \<Rightarrow> bytes \<Rightarrow> int \<Rightarrow> string" where
  "hotp C key counter =
     (let digest = cy_hmac_sha1 C key (big_endian 8 counter);
          offset = code (last digest) AND 15;
          v = (from_bytes (take 4 (drop offset digest)) AND 2147483647) mod 1000000
      in zero_pad 6 v)"

text \<open>
  The loop over the drifts.  \<open>hmac.compare_digest\<close> refuses a text with a character that is not ASCII,
  and \<open>struct.pack\<close> a counter outside 64 bits.
\<close>

fun try_drifts :: "crypto \<Rightarrow> bytes \<Rightarrow> int \<Rightarrow> string \<Rightarrow> int list \<Rightarrow> error + bool" where
  "try_drifts C key counter given [] = Inr False"
| "try_drifts C key counter given (drift # ds) =
     (if counter + drift < 0 \<or> 2 ^ 64 \<le> counter + drift then Inl (RuntimeError ''struct.error'')
      else if \<not> list_all (\<lambda>c. code c < 128) given then Inl (TypeError ''comparing strings with non-ASCII characters is not supported'')
      else if hotp C key (counter + drift) = given then Inr True
      else try_drifts C key counter given ds)"

definition verify_totp :: "crypto \<Rightarrow> string \<Rightarrow> string \<Rightarrow> int \<Rightarrow> error + bool" where
  "verify_totp C secret given now =
     (if secret = [] \<or> \<not> isdigit given \<or> length given \<noteq> 6 then Inr False
      else case b32_decode (str_upper secret @ replicate ((8 - length secret mod 8) mod 8) CHR ''='') of
        None \<Rightarrow> Inr False
      | Some key \<Rightarrow> try_drifts C key (now div 30) given [-1, 0, 1])"


subsection \<open>Hashes verify\<close>

lemma split_at_most_0 [simp]: "split_at_most 0 d s = [s]"
  by (cases s) auto

lemma split_at_most_cut: "d \<notin> set w \<Longrightarrow> split_at_most (Suc n) d (w @ d # r) = w # split_at_most n d r"
  by (induction w) auto

lemma b64_char_no_dollar [simp]: "n < 64 \<Longrightarrow> CHR ''$'' \<noteq> b64_char n"
  using b64_value_char [of n] by (auto simp: b64_value_def code_def Let_def dest!: sym [of "CHR ''$''"])

lemma b64_no_dollar: "CHR ''$'' \<notin> set (b64_encode bs)"
  by (induction bs rule: b64_encode.induct) simp_all

lemma char_of_digits:
  "char_of (48 :: nat) = CHR ''0''" "char_of (49 :: nat) = CHR ''1''" "char_of (50 :: nat) = CHR ''2''" "char_of (51 :: nat) = CHR ''3''"
  "char_of (52 :: nat) = CHR ''4''" "char_of (53 :: nat) = CHR ''5''" "char_of (54 :: nat) = CHR ''6''" "char_of (55 :: nat) = CHR ''7''"
  "char_of (56 :: nat) = CHR ''8''" "char_of (57 :: nat) = CHR ''9''"
  by code_simp+

lemma scrypt_costs:
  "digits (nat scrypt_n) = ''16384''" "digits (nat scrypt_r) = ''8''" "digits (nat scrypt_p) = ''1''"
  "py_int ''16384'' = Some scrypt_n" "py_int ''8'' = Some scrypt_r" "py_int ''1'' = Some scrypt_p"
  by (simp_all add: scrypt_n_def scrypt_r_def scrypt_p_def digits.simps py_int_def strip_def lstrip_def is_space_def ascii_digit_def
    nat_of_digits_def code_def char_of_digits)

text \<open>
  A password verifies against the hash made of it; and a password that verifies against the hash of another has the same
  derived key.
\<close>

lemma hashed_parts:
  assumes C: "crypto_law C" and h: "hash_password C salt password = Inr enc"
  obtains d where "cy_scrypt C (utf8_encode password) salt scrypt_n scrypt_r scrypt_p scrypt_length = Some d" "length d = scrypt_length"
    "enc \<noteq> []" "split_at_most 5 CHR ''$'' enc = [''scrypt'', ''16384'', ''8'', ''1'', b64_encode salt, b64_encode d]"
proof -
  from C obtain d where d: "cy_scrypt C (utf8_encode password) salt scrypt_n scrypt_r scrypt_p scrypt_length = Some d" "length d = scrypt_length"
    unfolding crypto_law_def by blast
  from h d have enc: "enc = ''scrypt'' @ CHR ''$'' # ''16384'' @ CHR ''$'' # ''8'' @ CHR ''$'' # ''1'' @ CHR ''$'' # b64_encode salt @ CHR ''$'' # b64_encode d"
    by (simp add: hash_password_def scrypt_costs split: if_splits)
  have "split_at_most (Suc (Suc (Suc (Suc (Suc 0))))) CHR ''$'' enc = [''scrypt'', ''16384'', ''8'', ''1'', b64_encode salt, b64_encode d]"
    unfolding enc by (subst split_at_most_cut, simp add: b64_no_dollar)+ simp
  with d that enc show thesis by (simp add: numeral_eq_Suc)
qed

lemma password_verifies:
  assumes C: "crypto_law C" and h: "hash_password C salt password = Inr enc"
  shows "verify_password C p (Some enc) \<longleftrightarrow>
    cy_scrypt C (utf8_encode p) salt scrypt_n scrypt_r scrypt_p scrypt_length
      = cy_scrypt C (utf8_encode password) salt scrypt_n scrypt_r scrypt_p scrypt_length"
    "verify_password C password (Some enc)"
proof -
  from C h obtain d where d: "cy_scrypt C (utf8_encode password) salt scrypt_n scrypt_r scrypt_p scrypt_length = Some d" "length d = scrypt_length"
    and e: "enc \<noteq> []" "split_at_most 5 CHR ''$'' enc = [''scrypt'', ''16384'', ''8'', ''1'', b64_encode salt, b64_encode d]"
    by (rule hashed_parts)
  show "verify_password C p (Some enc) \<longleftrightarrow>
    cy_scrypt C (utf8_encode p) salt scrypt_n scrypt_r scrypt_p scrypt_length
      = cy_scrypt C (utf8_encode password) salt scrypt_n scrypt_r scrypt_p scrypt_length" for p
    using d e by (simp add: verify_password_def scrypt_costs b64_roundtrip split: option.splits)
  then show "verify_password C password (Some enc)" by blast
qed

subsection \<open>Codes verify\<close>

lemma b32_value_char [simp]: "n < 32 \<Longrightarrow> b32_value (b32_char n) = Some n"
  by (auto simp: b32_value_def b32_char_def Let_def)

lemma b32_acc_digits:
  "b32_acc acc (map (\<lambda>i. b32_char (nat (v div 32 ^ (k - Suc i) mod 32))) [0..<k]) = Some (acc * 32 ^ k + v mod 32 ^ k)"
proof (induction k arbitrary: acc)
  case 0 then show ?case by simp
next
  case (Suc k)
  have "map (\<lambda>i. b32_char (nat (v div 32 ^ (Suc k - Suc i) mod 32))) [0..<Suc k]
      = b32_char (nat (v div 32 ^ k mod 32)) # map (\<lambda>i. b32_char (nat (v div 32 ^ (k - Suc i) mod 32))) [0..<k]"
    by (simp add: upt_conv_Cons map_Suc_upt [symmetric] del: upt_Suc map_Suc_upt)
  moreover have "v mod 32 ^ Suc k = (v div 32 ^ k mod 32) * 32 ^ k + v mod 32 ^ k"
    by (simp add: zmod_zmult2_eq mult.commute [of 32])
  ultimately show ?case by (simp add: Suc.IH nat_less_iff algebra_simps)
qed

lemma b32_acc_group: "0 \<le> v \<Longrightarrow> v < 32 ^ 8 \<Longrightarrow> b32_acc 0 (b32_group v) = Some v"
  using b32_acc_digits [of 0 v 8] by (simp add: b32_group_def)

lemma from_bytes_acc: "foldl (\<lambda>acc b. acc * 256 + int (code b)) a bs = a * 256 ^ length bs + from_bytes bs"
proof (induction bs arbitrary: a)
  case Nil then show ?case by (simp add: from_bytes_def)
next
  case (Cons b bs)
  show ?case using Cons.IH [of "a * 256 + int (code b)"] Cons.IH [of "int (code b)"] by (simp add: from_bytes_def algebra_simps)
qed

lemma from_bytes_simps [simp]: "from_bytes [] = 0" "from_bytes (b # bs) = int (code b) * 256 ^ length bs + from_bytes bs"
  using from_bytes_acc [of "int (code b)" bs] by (simp_all add: from_bytes_def)

lemma from_bytes_range: "0 \<le> from_bytes bs \<and> from_bytes bs < 256 ^ length bs"
proof (induction bs)
  case Nil then show ?case by simp
next
  case (Cons b bs)
  have add: "0 \<le> y + f \<and> y + f < 256 * X" if "y \<le> 255 * X" "0 \<le> y" "0 \<le> f \<and> f < X" for y f X :: int using that by simp
  have "int (code b) * 256 ^ length bs \<le> 255 * 256 ^ length bs" using code_lt [of b] by (intro mult_right_mono) (simp_all del: code_lt)
  moreover have "(0 :: int) \<le> int (code b) * 256 ^ length bs" by simp
  ultimately have "0 \<le> int (code b) * 256 ^ length bs + from_bytes bs \<and> int (code b) * 256 ^ length bs + from_bytes bs < 256 * 256 ^ length bs"
    using Cons.IH by (rule add)
  then show ?case by simp
qed

lemma big_endian_Suc: "big_endian (Suc k) v = char_of (nat (v div 256 ^ k mod 256)) # big_endian k v"
  by (simp add: big_endian_def upt_conv_Cons map_Suc_upt [symmetric] del: upt_Suc map_Suc_upt)

lemma big_endian_from_bytes: "big_endian (length bs) (from_bytes bs + m * 256 ^ length bs) = bs"
proof (induction bs arbitrary: m)
  case Nil then show ?case by (simp add: big_endian_def)
next
  case (Cons b bs)
  have v: "from_bytes (b # bs) + m * 256 ^ length (b # bs) = from_bytes bs + (int (code b) + m * 256) * 256 ^ length bs"
    by (simp only: from_bytes_simps list.size power_Suc) (simp add: algebra_simps)
  have "(from_bytes bs + (int (code b) + m * 256) * 256 ^ length bs) div 256 ^ length bs = int (code b) + m * 256"
    using from_bytes_range [of bs] by (subst div_mult_self1) auto
  then have "char_of (nat ((from_bytes bs + (int (code b) + m * 256) * 256 ^ length bs) div 256 ^ length bs mod 256)) = b"
    by (simp only: mod_mult_self1 mod_mult_self2) simp
  moreover have "length (b # bs) = Suc (length bs)" by simp
  ultimately show ?case unfolding v by (simp only: big_endian_Suc Cons.IH)
qed

lemma length_b32_group [simp]: "length (b32_group v) = 8" by (simp add: b32_group_def)

lemma b32_go_blocks: "length bs mod 5 = 0 \<Longrightarrow> \<exists>acc. b32_go (b32_blocks bs) = Some (bs, acc)"
proof (induction bs rule: b32_blocks.induct)
  case (1 bs)
  show ?case
  proof (cases "bs = []")
    case True then show ?thesis by (simp add: b32_blocks.simps b32_go.simps)
  next
    case False
    with 1(2) have len: "5 \<le> length bs" by (cases "length bs < 5") auto
    then have five: "length (take 5 bs) = 5" by simp
    have "length (drop 5 bs) mod 5 = 0" using 1(2) len by (simp add: mod_eq_0_iff_dvd)
    with 1(1) False obtain acc where acc: "b32_go (b32_blocks (drop 5 bs)) = Some (drop 5 bs, acc)" by blast
    let ?v = "from_bytes (take 5 bs)"
    have "0 \<le> ?v" "?v < 32 ^ 8" using from_bytes_range [of "take 5 bs"] five by simp_all
    then have g: "b32_acc 0 (b32_group ?v) = Some ?v" by (rule b32_acc_group)
    have e: "big_endian 5 ?v = take 5 bs" using big_endian_from_bytes [of "take 5 bs" 0] five by simp
    have s: "b32_blocks bs = b32_group ?v @ b32_blocks (drop 5 bs)" using False by (simp add: b32_blocks.simps [of bs])
    have "b32_group ?v \<noteq> []" using length_b32_group [of ?v] by (auto simp del: length_b32_group)
    then show ?thesis using g e acc unfolding s by (subst b32_go.simps) simp
  qed
qed

lemma length_b32_blocks: "length bs mod 5 = 0 \<Longrightarrow> 5 * length (b32_blocks bs) = 8 * length bs"
proof (induction bs rule: b32_blocks.induct)
  case (1 bs)
  show ?case
  proof (cases "bs = []")
    case False
    with 1(2) have len: "5 \<le> length bs" by (cases "length bs < 5") auto
    then have "length (drop 5 bs) mod 5 = 0" using 1(2) by (simp add: mod_eq_0_iff_dvd)
    then show ?thesis using 1(1) [OF False] False len by (simp add: b32_blocks.simps [of bs])
  qed (simp add: b32_blocks.simps)
qed

lemma b32_chars: "c \<in> set (b32_blocks bs) \<Longrightarrow> \<exists>n < 32. c = b32_char n"
proof (induction bs rule: b32_blocks.induct)
  case (1 bs)
  have "\<exists>n < 32. c = b32_char n" if "c \<in> set (b32_group v)" for v using that by (force simp: b32_group_def nat_less_iff)
  then show ?case using 1 by (auto simp: b32_blocks.simps [of bs] split: if_splits)
qed

lemma b32_char_plain [simp]:
  assumes "n < 32"
  shows "b32_char n \<noteq> CHR ''=''" "CHR ''='' \<noteq> b32_char n" "code (b32_char n) < 128" "upper_char (b32_char n) = [b32_char n]"
proof -
  have "b32_value CHR ''='' = None" by code_simp
  then show "b32_char n \<noteq> CHR ''=''" using b32_value_char [OF assms] by auto
  then show "CHR ''='' \<noteq> b32_char n" by simp
  show "code (b32_char n) < 128" "upper_char (b32_char n) = [b32_char n]"
    using assms by (auto simp: b32_char_def upper_char_def Let_def)
qed

text \<open>A generated secret decodes to the bytes it was made of.\<close>

lemma generated_secret:
  assumes "length raw = 20"
  shows "generate_totp_secret raw \<noteq> []" "length (generate_totp_secret raw) = 32"
    "b32_decode (str_upper (generate_totp_secret raw)) = Some raw"
proof -
  let ?t = "b32_blocks raw"
  have len: "length ?t = 32" using length_b32_blocks [of raw] assms by simp
  have nopad: "rstrip_pad ?t = ?t"
  proof -
    have "last ?t \<in> set ?t" using len by (intro last_in_set) auto
    then obtain n where "n < 32" "last ?t = b32_char n" using b32_chars by blast
    then have "hd (rev ?t) \<noteq> CHR ''=''" by (simp add: hd_rev)
    then show ?thesis by (cases "rev ?t") (auto simp: rstrip_pad_def)
  qed
  have s: "generate_totp_secret raw = ?t" using assms nopad by (simp add: generate_totp_secret_def b32_encode_def)
  have "map upper_char ?t = map (\<lambda>c. [c]) ?t" using b32_chars [of _ raw] by (intro map_cong [OF refl]) (metis b32_char_plain(4))
  then have up: "str_upper ?t = ?t" unfolding str_upper_def by (simp only: concat_map_singleton list.map_ident)
  have asc: "list_all (\<lambda>c. code c < 128) ?t" unfolding list_all_iff using b32_chars [of _ raw] by (metis b32_char_plain(3))
  obtain acc where "b32_go ?t = Some (raw, acc)" using b32_go_blocks [of raw] assms by auto
  then show "b32_decode (str_upper (generate_totp_secret raw)) = Some raw" using asc len nopad by (simp add: s up b32_decode_def)
  show "length (generate_totp_secret raw) = 32" using len by (simp add: s)
  then show "generate_totp_secret raw \<noteq> []" by auto
qed

lemma length_digits: "n < 10 ^ k \<Longrightarrow> 0 < k \<Longrightarrow> length (digits n) \<le> k"
proof (induction k arbitrary: n)
  case (Suc k)
  show ?case
  proof (cases "n < 10")
    case True then show ?thesis by (simp add: digits.simps [of n])
  next
    case False
    then have "0 < k" using Suc.prems by (cases k) auto
    moreover have "n div 10 < 10 ^ k" using Suc.prems by (simp add: div_less_iff_less_mult mult.commute)
    ultimately show ?thesis using Suc.IH [of "n div 10"] False by (simp add: digits.simps [of n])
  qed
qed simp

lemma hotp_shape: "length (hotp C key c) = 6" "list_all ascii_digit (hotp C key c)"
proof -
  have "length (zero_pad 6 (v mod 1000000)) = 6" for v
    using length_digits [of "nat (v mod 1000000)" 6] by (simp add: zero_pad_def Let_def nat_less_iff)
  then show "length (hotp C key c) = 6" by (simp add: hotp_def Let_def)
  have "list_all ascii_digit (digits n)" for n
  proof (induction n rule: digits.induct)
    case (1 n)
    have "ascii_digit (char_of (48 + k))" if "k < 10" for k :: nat using that by (simp add: ascii_digit_def code_def)
    then show ?case using 1 by (subst digits.simps) (auto simp: list_all_iff)
  qed
  then show "list_all ascii_digit (hotp C key c)"
    by (auto simp: hotp_def Let_def zero_pad_def list_all_iff ascii_digit_def code_def)
qed

lemma ascii_digits_plain: "list_all ascii_digit w \<Longrightarrow> w \<noteq> [] \<Longrightarrow> isdigit w \<and> list_all (\<lambda>c. code c < 128) w"
  by (auto simp: isdigit_def list_all_iff ascii_digit_def is_digit_def Let_def)

text \<open>
  What \<open>verify_totp\<close> decides: a text of six plain digits passes exactly when it is the code of the current half minute
  or of one next to it.
\<close>

lemma verify_totp_iff:
  assumes "b32_decode (str_upper secret @ replicate ((8 - length secret mod 8) mod 8) CHR ''='') = Some key" "secret \<noteq> []"
    and "list_all ascii_digit given" "length given = 6" and "30 \<le> now" "now < 2 ^ 64"
  shows "verify_totp C secret given now = Inr (given \<in> {hotp C key (now div 30 - 1), hotp C key (now div 30), hotp C key (now div 30 + 1)})"
proof -
  have d: "isdigit given" "list_all (\<lambda>c. code c < 128) given" using ascii_digits_plain assms(3,4) by force+
  have c: "0 \<le> now div 30 - 1" "now div 30 + 1 < 2 ^ 64" using assms(5,6) by simp_all
  then show ?thesis using assms d by (auto simp: verify_totp_def)
qed

text \<open>The code of a device whose clock is at most half a minute off passes.\<close>

lemma totp_tolerance:
  assumes "length raw = 20" "\<bar>now - shown\<bar> \<le> 30" "30 \<le> now" "now < 2 ^ 64"
  shows "verify_totp C (generate_totp_secret raw) (hotp C raw (shown div 30)) now = Inr True"
proof -
  note g = generated_secret [OF assms(1)]
  have "shown div 30 \<in> {now div 30 - 1, now div 30, now div 30 + 1}" using assms(2) by auto
  then show ?thesis
    using verify_totp_iff [of "generate_totp_secret raw" raw "hotp C raw (shown div 30)" now C] g hotp_shape [of C raw "shown div 30"] assms(3,4)
    by auto
qed

text \<open>A superscript digit is a digit to \<open>str.isdigit\<close> and not to \<open>hmac.compare_digest\<close>, which raises.\<close>

lemma superscript_code_raises:
  assumes "length raw = 20" "30 \<le> now" "now < 2 ^ 64"
  shows "verify_totp C (generate_totp_secret raw) (replicate 6 (char_of (178 :: nat))) now
    = Inl (TypeError ''comparing strings with non-ASCII characters is not supported'')"
proof -
  have "0 \<le> now div 30 - 1" "now div 30 + 1 < 2 ^ 64" using assms(2,3) by simp_all
  then show ?thesis using generated_secret [OF assms(1)] by (simp add: verify_totp_def isdigit_def is_digit_def code_def list_all_iff)
qed

lemma strip_digits: "list_all ascii_digit w \<Longrightarrow> strip w = w"
proof -
  have "dropWhile is_space w = w" if "list_all ascii_digit w" for w
    using that by (cases w) (auto simp: ascii_digit_def is_space_def code_def)
  moreover assume "list_all ascii_digit w"
  ultimately show ?thesis by (simp add: strip_def lstrip_def list_all_rev)
qed

end
