(* ===== verification/Accounts.thy ===== *)
theory Accounts
  imports Credentials Coordination Work_Sessions
begin

section \<open>Accounts\<close>

text \<open>
  \<open>api/repositories/accounts.py\<close>: accounts, their second factor, identities of single sign-on, provisioning by
  SCIM and invitations.  The columns of \<open>users\<close> that this module reads beside those of \<open>Schema\<close> extend the
  record \<open>user\<close>; \<open>put_accounts\<close> is a statement on the table, which its unique indexes
  (\<open>api/migrations.py\<close>) refuse when two rows would share an email in lower case, an identity or an external id.
  The tables of the integrations that disabling an account also clears are not modelled.
\<close>

record account = user +
  ac_password :: "string option"
  ac_created :: timestamp
  ac_two_factor :: bool
  ac_totp :: "string option"
  ac_issuer :: string
  ac_subject :: string
  ac_scim_id :: string
  ac_scim_updated :: timestamp

record invitation =
  in_id :: uuid
  in_user :: uuid
  in_token :: string
  in_created_by :: uuid
  in_created :: timestamp
  in_expires :: timestamp
  in_used :: "timestamp option"

record account_db =
  ad_accounts :: "account list"
  ad_invitations :: "invitation list"
  ad_work :: db

subsection \<open>The table of accounts\<close>

definition nonempty_keys :: "('r \<Rightarrow> string) \<Rightarrow> 'r list \<Rightarrow> string list" where
  "nonempty_keys k rows = filter (\<lambda>s. s \<noteq> []) (map k rows)"

definition linked :: "account \<Rightarrow> bool" where "linked u \<longleftrightarrow> ac_issuer u \<noteq> [] \<and> ac_subject u \<noteq> []"

definition accounts_unique :: "account list \<Rightarrow> bool" where
  "accounts_unique acs \<longleftrightarrow> distinct (map us_id acs) \<and> distinct (map (\<lambda>u. str_lower (us_email u)) acs)
     \<and> distinct (map (\<lambda>u. (ac_issuer u, ac_subject u)) (filter linked acs))
     \<and> distinct (map ac_scim_id (filter (\<lambda>u. ac_scim_id u \<noteq> []) acs))"

definition put_accounts :: "account list \<Rightarrow> account_db \<Rightarrow> error + account_db" where
  "put_accounts acs a =
     (if accounts_unique acs then Inr (a\<lparr>ad_accounts := acs, ad_work := (ad_work a)\<lparr>users := map user.truncate acs\<rparr>\<rparr>)
      else Inl UniqueViolation)"

text \<open>A row of the defaults of the table.\<close>

definition new_account :: "uuid \<Rightarrow> string \<Rightarrow> role \<Rightarrow> bool \<Rightarrow> timestamp \<Rightarrow> account" where
  "new_account i email r enabled now =
     \<lparr>us_id = i, us_email = email, us_full_name = [], us_role = r, us_enabled = enabled, us_daily_limit = 0, us_weekly_limit = 0,
      us_pay_rate = 0, us_require_approval = True, ac_password = None, ac_created = now, ac_two_factor = False, ac_totp = None,
      ac_issuer = [], ac_subject = [], ac_scim_id = [], ac_scim_updated = now\<rparr>"

definition find_email :: "string \<Rightarrow> account_db \<Rightarrow> account option" where
  "find_email e a = find (\<lambda>u. str_lower (us_email u) = str_lower e) (ad_accounts a)"

definition get_user :: "uuid \<Rightarrow> account_db \<Rightarrow> account option" where
  "get_user user_id a = find (\<lambda>u. us_id u = user_id \<and> us_enabled u) (ad_accounts a)"

definition get_user_any :: "uuid \<Rightarrow> account_db \<Rightarrow> account option" where
  "get_user_any user_id a = find (\<lambda>u. us_id u = user_id) (ad_accounts a)"

definition get_user_by_email :: "string \<Rightarrow> account_db \<Rightarrow> account option" where
  "get_user_by_email email a =
     find (\<lambda>u. str_lower (us_email u) = str_lower (str_lower (strip email)) \<and> us_enabled u) (ad_accounts a)"

definition get_user_by_sso_identity :: "string \<Rightarrow> string \<Rightarrow> account_db \<Rightarrow> account option" where
  "get_user_by_sso_identity issuer subject a =
     find (\<lambda>u. ac_issuer u = issuer \<and> ac_subject u = subject \<and> us_enabled u) (ad_accounts a)"

definition bootstrap_admin :: "string \<Rightarrow> string \<Rightarrow> uuid \<Rightarrow> timestamp \<Rightarrow> account_db \<Rightarrow> error + (account_db \<times> account option)" where
  "bootstrap_admin email password_hash new_id now a =
     (let normalized = str_lower (strip email)
      in case find_email normalized a of
        None \<Rightarrow>
          (case put_accounts (ad_accounts a @ [new_account new_id normalized Admin True now \<lparr>ac_password := Some password_hash\<rparr>]) a of
             Inl e \<Rightarrow> Inl e
           | Inr a' \<Rightarrow> Inr (a', get_user_any new_id a'))
      | Some row \<Rightarrow>
          if us_role row \<noteq> Admin \<or> \<not> us_enabled row then Inl (RuntimeError ''TRACKER_ADMIN_EMAIL belongs to a non-admin account'')
          else (case put_accounts (update_where (\<lambda>u. us_id u = us_id row) (\<lambda>u. u\<lparr>ac_password := Some password_hash\<rparr>) (ad_accounts a)) a of
             Inl e \<Rightarrow> Inl e
           | Inr a' \<Rightarrow> Inr (a', get_user_any (us_id row) a')))"

definition link_sso_identity :: "uuid \<Rightarrow> string \<Rightarrow> string \<Rightarrow> account_db \<Rightarrow> error + account_db" where
  "link_sso_identity user_id issuer subject a =
     (if issuer = [] \<or> 1024 < length issuer \<or> subject = [] \<or> 512 < length subject then
        Inl (ValueError ''The identity provider returned an invalid subject'')
      else if (case find (\<lambda>u. ac_issuer u = issuer \<and> ac_subject u = subject) (ad_accounts a) of
                 None \<Rightarrow> False | Some holder \<Rightarrow> us_id holder \<noteq> user_id) then
        Inl (ValueError ''That SSO identity is already linked to another user'')
      else case get_user user_id a of
        None \<Rightarrow> Inl (ValueError ''The Dayfinch account is unavailable'')
      | Some u \<Rightarrow>
          if ac_subject u \<noteq> [] \<and> (ac_issuer u \<noteq> issuer \<or> ac_subject u \<noteq> subject) then
            Inl (ValueError ''This account is linked to a different SSO identity'')
          else put_accounts (update_where (\<lambda>u. us_id u = user_id) (\<lambda>u. u\<lparr>ac_issuer := issuer, ac_subject := subject\<rparr>) (ad_accounts a)) a)"

definition set_two_factor_secret :: "uuid \<Rightarrow> string option \<Rightarrow> bool \<Rightarrow> account_db \<Rightarrow> error + account_db" where
  "set_two_factor_secret user_id secret enabled a =
     put_accounts (update_where (\<lambda>u. us_id u = user_id) (\<lambda>u. u\<lparr>ac_totp := secret, ac_two_factor := enabled\<rparr>) (ad_accounts a)) a"

text \<open>\<open>set_user_enabled\<close>: \<open>Work_Sessions\<close> has its effect on the work of the member.\<close>

definition switch_account :: "uuid \<Rightarrow> bool \<Rightarrow> timestamp \<Rightarrow> account_db \<Rightarrow> error + account_db" where
  "switch_account user_id enabled now a =
     (case set_user_enabled user_id enabled now (ad_work a) of
        Inl e \<Rightarrow> Inl e
      | Inr w \<Rightarrow> Inr (a\<lparr>ad_accounts := update_where (\<lambda>u. us_id u = user_id) (\<lambda>u. u\<lparr>us_enabled := enabled\<rparr>) (ad_accounts a),
                       ad_work := w\<rparr>))"

subsection \<open>Provisioning\<close>

definition provisioned :: "account \<Rightarrow> bool" where "provisioned u \<longleftrightarrow> us_role u = Member \<or> us_role u = Viewer"

definition get_scim_user :: "uuid \<Rightarrow> account_db \<Rightarrow> account option" where
  "get_scim_user user_id a = find (\<lambda>u. us_id u = user_id \<and> provisioned u) (ad_accounts a)"

text \<open>\<open>ORDER BY lower(email), id\<close>: the texts compare as lists of code points.\<close>

definition list_scim_users :: "string option \<Rightarrow> int \<Rightarrow> int \<Rightarrow> account_db \<Rightarrow> account list \<times> int" where
  "list_scim_users username start_index count a =
     (let rows = filter (\<lambda>u. provisioned u \<and> (truthy username \<longrightarrow> str_lower (us_email u) = str_lower (the username))) (ad_accounts a)
      in (take (nat count) (drop (nat (max 0 (start_index - 1))) (sort_key (\<lambda>u. (str_lower (us_email u), us_id u)) rows)), int (length rows)))"

definition duplicate_account :: error where "duplicate_account = ValueError ''A user with that email or externalId already exists''"

definition create_scim_user ::
  "string \<Rightarrow> string \<Rightarrow> string \<Rightarrow> bool \<Rightarrow> uuid \<Rightarrow> timestamp \<Rightarrow> account_db \<Rightarrow> error + (account_db \<times> account option)" where
  "create_scim_user email external_id display_name enabled new_id now a =
     (case put_accounts (ad_accounts a @ [new_account new_id email Member enabled now
             \<lparr>us_full_name := display_name, ac_scim_id := external_id\<rparr>]) a of
        Inl e \<Rightarrow> Inl duplicate_account
      | Inr a' \<Rightarrow> Inr (a', get_scim_user new_id a'))"

definition or_keep :: "'a option \<Rightarrow> 'a \<Rightarrow> 'a" where "or_keep v old = (case v of None \<Rightarrow> old | Some x \<Rightarrow> x)"

definition update_scim_user ::
  "uuid \<Rightarrow> string option \<Rightarrow> string option \<Rightarrow> string option \<Rightarrow> bool option \<Rightarrow> timestamp \<Rightarrow> account_db \<Rightarrow> error + (account_db \<times> account option)" where
  "update_scim_user user_id email external_id display_name enabled now a =
     (if email = None \<and> external_id = None \<and> display_name = None \<and> enabled = None then
        (case get_scim_user user_id a of None \<Rightarrow> Inl (LookupError ''SCIM user not found'') | Some u \<Rightarrow> Inr (a, Some u))
      else
        let p = (\<lambda>u. us_id u = user_id \<and> provisioned u)
        in case put_accounts (update_where p (\<lambda>u. u\<lparr>us_email := or_keep email (us_email u), ac_scim_id := or_keep external_id (ac_scim_id u),
               us_full_name := or_keep display_name (us_full_name u), us_enabled := or_keep enabled (us_enabled u), ac_scim_updated := now\<rparr>)
               (ad_accounts a)) a of
             Inl e \<Rightarrow> Inl duplicate_account
           | Inr a1 \<Rightarrow>
               if rowcount p (ad_accounts a) \<noteq> 1 then Inl (LookupError ''SCIM user not found'')
               else if enabled = Some False then
                 (case switch_account user_id False now a1 of Inl e \<Rightarrow> Inl e | Inr a2 \<Rightarrow> Inr (a2, get_scim_user user_id a2))
               else Inr (a1, get_scim_user user_id a1))"

subsection \<open>Invitations\<close>

definition hex_bytes :: "bytes \<Rightarrow> string" where
  "hex_bytes bs = concat (map (\<lambda>b. [hex_digit (code b div 16), hex_digit (code b mod 16)]) bs)"

definition token_hash :: "crypto \<Rightarrow> string \<Rightarrow> string" where
  "token_hash C raw_token = hex_bytes (cy_sha256 C (utf8_encode raw_token))"

definition create_invitation ::
  "crypto \<Rightarrow> string \<Rightarrow> uuid \<Rightarrow> int \<Rightarrow> uuid \<Rightarrow> uuid \<Rightarrow> string \<Rightarrow> timestamp \<Rightarrow> account_db \<Rightarrow> error + (account_db \<times> invitation)" where
  "create_invitation C email created_by_user_id valid_hours new_user invitation_id raw_token now a =
     (let normalized = str_lower (strip email); existing = find_email normalized a
      in if (case existing of None \<Rightarrow> False | Some u \<Rightarrow> truthy (ac_password u) \<and> us_enabled u) then
           Inl (ValueError ''That email already has an active account'')
         else case (case existing of
                      None \<Rightarrow> map_sum (\<lambda>e. e) (\<lambda>a'. (a', new_user)) (put_accounts (ad_accounts a @ [new_account new_user normalized Member False now]) a)
                    | Some u \<Rightarrow> Inr (a, us_id u)) of
           Inl e \<Rightarrow> Inl e
         | Inr (a1, user_id) \<Rightarrow>
             let closed = update_where (\<lambda>i. in_user i = user_id \<and> in_used i = None) (\<lambda>i. i\<lparr>in_used := Some now\<rparr>) (ad_invitations a1);
                 i = \<lparr>in_id = invitation_id, in_user = user_id, in_token = token_hash C raw_token, in_created_by = created_by_user_id,
                      in_created = now, in_expires = now + seconds (60 * 60 * valid_hours), in_used = None\<rparr>
             in if exists_row (\<lambda>j. in_token j = in_token i \<or> in_id j = in_id i) closed then Inl UniqueViolation
                else Inr (a1\<lparr>ad_invitations := closed @ [i]\<rparr>, i))"

definition usable :: "crypto \<Rightarrow> string \<Rightarrow> timestamp \<Rightarrow> invitation \<Rightarrow> bool" where
  "usable C raw_token now i \<longleftrightarrow> in_token i = token_hash C raw_token \<and> in_used i = None \<and> now < in_expires i"

definition get_invitation :: "crypto \<Rightarrow> string \<Rightarrow> timestamp \<Rightarrow> account_db \<Rightarrow> invitation option" where
  "get_invitation C raw_token now a =
     find (\<lambda>i. usable C raw_token now i \<and> exists_row (\<lambda>u. us_id u = in_user i) (ad_accounts a)) (ad_invitations a)"

definition accept_invitation ::
  "crypto \<Rightarrow> string \<Rightarrow> string \<Rightarrow> timestamp \<Rightarrow> account_db \<Rightarrow> error + (account_db \<times> account option)" where
  "accept_invitation C raw_token password_hash now a =
     (case find (usable C raw_token now) (ad_invitations a) of
        None \<Rightarrow> Inr (a, None)
      | Some i \<Rightarrow>
          (case put_accounts (update_where (\<lambda>u. us_id u = in_user i) (\<lambda>u. u\<lparr>ac_password := Some password_hash, us_enabled := True\<rparr>)
                  (ad_accounts a)) a of
             Inl e \<Rightarrow> Inl e
           | Inr a1 \<Rightarrow>
               let a2 = a1\<lparr>ad_invitations := update_where (\<lambda>j. in_id j = in_id i) (\<lambda>j. j\<lparr>in_used := Some now\<rparr>) (ad_invitations a1)\<rparr>
               in Inr (a2, get_user_any (in_user i) a2)))"

subsection \<open>Runs of operations\<close>

datatype account_op =
  Bootstrap string string uuid timestamp
| Link_Identity uuid string string
| Two_Factor uuid "string option" bool
| Switch_Account uuid bool timestamp
| Scim_Create string string string bool uuid timestamp
| Scim_Update uuid "string option" "string option" "string option" "bool option" timestamp
| Invite string uuid int uuid uuid string timestamp
| Accept string string timestamp

fun account_exec :: "crypto \<Rightarrow> account_op \<Rightarrow> account_db \<Rightarrow> error + account_db" where
  "account_exec C (Bootstrap email password_hash new_id now) a = map_sum (\<lambda>e. e) fst (bootstrap_admin email password_hash new_id now a)"
| "account_exec C (Link_Identity user_id issuer subject) a = link_sso_identity user_id issuer subject a"
| "account_exec C (Two_Factor user_id secret enabled) a = set_two_factor_secret user_id secret enabled a"
| "account_exec C (Switch_Account user_id enabled now) a = switch_account user_id enabled now a"
| "account_exec C (Scim_Create email external_id display_name enabled new_id now) a =
     map_sum (\<lambda>e. e) fst (create_scim_user email external_id display_name enabled new_id now a)"
| "account_exec C (Scim_Update user_id email external_id display_name enabled now) a =
     map_sum (\<lambda>e. e) fst (update_scim_user user_id email external_id display_name enabled now a)"
| "account_exec C (Invite email creator valid_hours new_user invitation_id raw_token now) a =
     map_sum (\<lambda>e. e) fst (create_invitation C email creator valid_hours new_user invitation_id raw_token now a)"
| "account_exec C (Accept raw_token password_hash now) a = map_sum (\<lambda>e. e) fst (accept_invitation C raw_token password_hash now a)"

definition invitations_ok :: "invitation list \<Rightarrow> bool" where
  "invitations_ok is \<longleftrightarrow> distinct (map in_id is) \<and> distinct (map in_token is) \<and> distinct (map in_user (filter (\<lambda>i. in_used i = None) is))"

definition account_inv :: "account_db \<Rightarrow> bool" where
  "account_inv a \<longleftrightarrow> accounts_unique (ad_accounts a) \<and> users (ad_work a) = map user.truncate (ad_accounts a)
     \<and> work_inv (ad_work a) \<and> invitations_ok (ad_invitations a)"

text \<open>An account keeps its role, and an invitation its member and its token; once used it stays used.\<close>

definition roles_keep :: "account list \<Rightarrow> account list \<Rightarrow> bool" where
  "roles_keep acs acs' \<longleftrightarrow> (\<forall>u\<in>set acs. \<exists>u'\<in>set acs'. us_id u' = us_id u \<and> us_role u' = us_role u)"

definition invitations_keep :: "invitation list \<Rightarrow> invitation list \<Rightarrow> bool" where
  "invitations_keep is is' \<longleftrightarrow> (\<forall>i\<in>set is. \<exists>i'\<in>set is'. in_id i' = in_id i \<and> in_user i' = in_user i \<and> in_token i' = in_token i
     \<and> in_expires i' = in_expires i \<and> (in_used i \<noteq> None \<longrightarrow> in_used i' = in_used i))"

definition account_rel :: "account_db \<Rightarrow> account_db \<Rightarrow> bool" where
  "account_rel a a' \<longleftrightarrow> roles_keep (ad_accounts a) (ad_accounts a') \<and> invitations_keep (ad_invitations a) (ad_invitations a')"

lemma roles_keep_refl [simp]: "roles_keep acs acs" by (auto simp: roles_keep_def)

lemma invitations_keep_refl [simp]: "invitations_keep is is" by (auto simp: invitations_keep_def)

lemma roles_keep_append [simp]: "roles_keep acs (acs @ xs)" by (auto simp: roles_keep_def)

lemma roles_keep_update:
  assumes "\<And>u. us_id (f u) = us_id u" "\<And>u. us_role (f u) = us_role u"
  shows "roles_keep acs (update_where p f acs)"
  unfolding roles_keep_def
proof
  fix u assume "u \<in> set acs"
  then have "(if p u then f u else u) \<in> set (update_where p f acs)" by (auto simp: update_where_def)
  then show "\<exists>u'\<in>set (update_where p f acs). us_id u' = us_id u \<and> us_role u' = us_role u"
    by (rule rev_bexI) (simp add: assms)
qed

lemma invitations_keep_update:
  assumes "\<And>i. in_id (f i) = in_id i" "\<And>i. in_user (f i) = in_user i" "\<And>i. in_token (f i) = in_token i" "\<And>i. in_expires (f i) = in_expires i"
    "\<And>i. i \<in> set is \<Longrightarrow> p i \<Longrightarrow> in_used i = None"
  shows "invitations_keep is (update_where p f is @ xs)"
  unfolding invitations_keep_def
proof
  fix i assume i: "i \<in> set is"
  then have "(if p i then f i else i) \<in> set (update_where p f is @ xs)" by (auto simp: update_where_def)
  then show "\<exists>i'\<in>set (update_where p f is @ xs). in_id i' = in_id i \<and> in_user i' = in_user i \<and> in_token i' = in_token i
     \<and> in_expires i' = in_expires i \<and> (in_used i \<noteq> None \<longrightarrow> in_used i' = in_used i)"
    by (rule rev_bexI) (use i assms(5) in \<open>auto simp: assms(1-4)\<close>)
qed

lemma roles_keep_trans: "roles_keep a b \<Longrightarrow> roles_keep b c \<Longrightarrow> roles_keep a c"
  unfolding roles_keep_def by metis

lemma invitations_keep_trans: "invitations_keep a b \<Longrightarrow> invitations_keep b c \<Longrightarrow> invitations_keep a c"
  unfolding invitations_keep_def by metis

lemma put_accounts_inv:
  assumes "account_inv a" "put_accounts acs a = Inr a'"
  shows "account_inv a'" "ad_accounts a' = acs" "ad_invitations a' = ad_invitations a"
  using assms by (auto simp: account_inv_def put_accounts_def work_inv_def split: if_splits)

lemma accounts_unique_update:
  assumes "\<And>u. us_id (f u) = us_id u" "\<And>u. us_email (f u) = us_email u" "\<And>u. ac_issuer (f u) = ac_issuer u"
    "\<And>u. ac_subject (f u) = ac_subject u" "\<And>u. ac_scim_id (f u) = ac_scim_id u"
  shows "accounts_unique (update_where p f acs) = accounts_unique acs"
proof -
  have "map (\<lambda>u. (ac_issuer u, ac_subject u)) (filter linked (update_where p f acs)) = map (\<lambda>u. (ac_issuer u, ac_subject u)) (filter linked acs)"
    "map ac_scim_id (filter (\<lambda>u. ac_scim_id u \<noteq> []) (update_where p f acs)) = map ac_scim_id (filter (\<lambda>u. ac_scim_id u \<noteq> []) acs)"
    by (induction acs) (auto simp: update_where_def linked_def assms)
  then show ?thesis by (simp add: accounts_unique_def map_update_where assms)
qed

lemma set_user_enabled_users:
  assumes "set_user_enabled uid en now db = Inr db'"
  shows "users db' = update_where (\<lambda>u. us_id u = uid) (\<lambda>u. u\<lparr>us_enabled := en\<rparr>) (users db)"
  using assms by (auto simp: set_user_enabled_def Let_def end_breaks_def end_segments_def end_sessions_def split: if_splits sum.splits)

lemma truncate_enabled: "map user.truncate (update_where (\<lambda>u. us_id u = uid) (\<lambda>u. u\<lparr>us_enabled := en\<rparr>) acs)
    = update_where (\<lambda>u. us_id u = uid) (\<lambda>u. u\<lparr>us_enabled := en\<rparr>) (map user.truncate (acs :: account list))"
  by (auto simp: update_where_def user.truncate_def)

lemma switch_account_inv:
  assumes a: "account_inv a" and s: "switch_account uid en now a = Inr a'"
  shows "account_inv a'" "ad_invitations a' = ad_invitations a" "roles_keep (ad_accounts a) (ad_accounts a')"
proof -
  from s obtain w where w: "set_user_enabled uid en now (ad_work a) = Inr w"
    and a': "a' = a\<lparr>ad_accounts := update_where (\<lambda>u. us_id u = uid) (\<lambda>u. u\<lparr>us_enabled := en\<rparr>) (ad_accounts a), ad_work := w\<rparr>"
    by (auto simp: switch_account_def split: sum.splits)
  from a set_user_enabled_kept [OF _ w] have "work_inv w" by (simp add: account_inv_def kept_def)
  with a set_user_enabled_users [OF w] show "account_inv a'"
    by (simp add: account_inv_def a' accounts_unique_update truncate_enabled)
  show "ad_invitations a' = ad_invitations a" "roles_keep (ad_accounts a) (ad_accounts a')"
    by (simp_all add: a' roles_keep_update)
qed

subsection \<open>Every operation keeps the invariant\<close>

lemma account_relI: "roles_keep (ad_accounts a) (ad_accounts a') \<Longrightarrow> invitations_keep (ad_invitations a) (ad_invitations a') \<Longrightarrow> account_rel a a'"
  by (simp add: account_rel_def)

lemma put_step:
  assumes "account_inv a" "put_accounts acs a = Inr a'" "roles_keep (ad_accounts a) acs"
  shows "account_inv a' \<and> account_rel a a'"
  using put_accounts_inv [OF assms(1,2)] assms(3) by (simp add: account_rel_def)

lemma bootstrap_step:
  assumes "account_inv a" "bootstrap_admin email ph i now a = Inr (a', u)"
  shows "account_inv a' \<and> account_rel a a'"
proof -
  from assms(2) obtain acs where "put_accounts acs a = Inr a'" "roles_keep (ad_accounts a) acs"
    by (fastforce simp: bootstrap_admin_def Let_def intro: roles_keep_update split: option.splits sum.splits if_splits)
  with assms(1) show ?thesis by (rule put_step)
qed

lemma link_step:
  assumes "account_inv a" "link_sso_identity uid issuer subject a = Inr a'"
  shows "account_inv a' \<and> account_rel a a'"
proof -
  have "put_accounts (update_where (\<lambda>u. us_id u = uid) (\<lambda>u. u\<lparr>ac_issuer := issuer, ac_subject := subject\<rparr>) (ad_accounts a)) a = Inr a'"
    using assms(2) by (auto simp: link_sso_identity_def split: option.splits if_splits)
  with assms(1) show ?thesis by (rule put_step) (simp add: roles_keep_update)
qed

lemma two_factor_step: "account_inv a \<Longrightarrow> set_two_factor_secret uid secret en a = Inr a' \<Longrightarrow> account_inv a' \<and> account_rel a a'"
  unfolding set_two_factor_secret_def by (erule (1) put_step) (simp add: roles_keep_update)

lemma scim_create_step:
  assumes "account_inv a" "create_scim_user email x n en i now a = Inr (a', u)"
  shows "account_inv a' \<and> account_rel a a'"
proof -
  from assms(2) obtain acs where "put_accounts acs a = Inr a'" "roles_keep (ad_accounts a) acs"
    by (auto simp: create_scim_user_def split: sum.splits)
  with assms(1) show ?thesis by (rule put_step)
qed

lemma switch_step: "account_inv a \<Longrightarrow> switch_account uid en now a = Inr a' \<Longrightarrow> account_inv a' \<and> account_rel a a'"
  using switch_account_inv [of a uid en now a'] by (simp add: account_rel_def)

lemma account_rel_trans: "account_rel a b \<Longrightarrow> account_rel b c \<Longrightarrow> account_rel a c"
  unfolding account_rel_def using roles_keep_trans invitations_keep_trans by blast

lemma scim_update_step:
  assumes a: "account_inv a" and u: "update_scim_user uid email x n en now a = Inr (a', u)"
  shows "account_inv a' \<and> account_rel a a'"
proof (cases "email = None \<and> x = None \<and> n = None \<and> en = None")
  case True
  with u have "a' = a" by (auto simp: update_scim_user_def split: option.splits)
  with a show ?thesis by (simp add: account_rel_def)
next
  case False
  define acs where "acs = update_where (\<lambda>u. us_id u = uid \<and> provisioned u) (\<lambda>u. u\<lparr>us_email := or_keep email (us_email u), ac_scim_id := or_keep x (ac_scim_id u),
     us_full_name := or_keep n (us_full_name u), us_enabled := or_keep en (us_enabled u), ac_scim_updated := now\<rparr>) (ad_accounts a)"
  note u1 = u [unfolded update_scim_user_def if_not_P [OF False] Let_def, folded acs_def]
  obtain a1 where p: "put_accounts acs a = Inr a1" using u1 by (cases "put_accounts acs a") auto
  have s1: "account_inv a1 \<and> account_rel a a1" by (rule put_step [OF a p]) (simp add: acs_def roles_keep_update)
  show ?thesis
  proof (cases "en = Some False")
    case True
    with u1 p obtain a2 where "switch_account uid False now a1 = Inr a2" "a' = a2" by (auto split: if_splits sum.splits)
    with s1 switch_step show ?thesis using account_rel_trans by blast
  next
    case False
    with u1 p have "a' = a1" by (auto split: if_splits)
    with s1 show ?thesis by simp
  qed
qed

lemma unused_closed:
  "filter (\<lambda>i. in_used i = None) (update_where p (\<lambda>i. i\<lparr>in_used := Some now\<rparr>) is) = filter (\<lambda>i. \<not> p i) (filter (\<lambda>i. in_used i = None) is)"
  by (induction "is") (auto simp: update_where_def)

lemma invitations_ok_close:
  assumes "invitations_ok is"
  shows "invitations_ok (update_where p (\<lambda>i. i\<lparr>in_used := Some now\<rparr>) is)"
proof -
  have "distinct (map in_user (filter (\<lambda>i. \<not> p i) (filter (\<lambda>i. in_used i = None) is)))"
    using assms unfolding invitations_ok_def by (blast intro: distinct_map_filter)
  then show ?thesis using assms unfolding invitations_ok_def unused_closed by (simp add: map_update_where)
qed

lemma invitations_ok_add:
  assumes ok: "invitations_ok is" and new: "\<not> exists_row (\<lambda>j. in_token j = in_token i \<or> in_id j = in_id i) shut"
    and shut: "shut = update_where (\<lambda>j. in_user j = in_user i \<and> in_used j = None) (\<lambda>j. j\<lparr>in_used := Some now\<rparr>) is"
  shows "invitations_ok (shut @ [i])"
proof -
  have "invitations_ok shut" unfolding shut by (rule invitations_ok_close [OF ok])
  moreover have "in_user i \<notin> in_user ` set (filter (\<lambda>j. in_used j = None) shut)" unfolding shut unused_closed by auto
  moreover have "in_id i \<notin> in_id ` set shut" "in_token i \<notin> in_token ` set shut" using new by (auto simp: exists_row_iff)
  ultimately show ?thesis unfolding invitations_ok_def filter_append by auto
qed

lemma invite_step:
  assumes a: "account_inv a" and r: "create_invitation C email creator hours nu ii tok now a = Inr (a', i)"
  shows "account_inv a' \<and> account_rel a a'"
proof -
  let ?n = "str_lower (strip email)"
  let ?pick = "case find_email ?n a of
      None \<Rightarrow> map_sum (\<lambda>e. e) (\<lambda>a'. (a', nu)) (put_accounts (ad_accounts a @ [new_account nu ?n Member False now]) a)
    | Some u \<Rightarrow> Inr (a, us_id u)"
  obtain a1 uid where pick: "?pick = Inr (a1, uid)"
    using r by (cases ?pick) (auto simp: create_invitation_def Let_def split: if_splits)
  have s1: "account_inv a1 \<and> account_rel a a1 \<and> ad_invitations a1 = ad_invitations a"
  proof (cases "find_email ?n a")
    case None
    with pick have "put_accounts (ad_accounts a @ [new_account nu ?n Member False now]) a = Inr a1"
      by (cases "put_accounts (ad_accounts a @ [new_account nu ?n Member False now]) a") auto
    from put_step [OF a this] put_accounts_inv(3) [OF a this] show ?thesis by simp
  next
    case (Some u) with pick a show ?thesis by (simp add: account_rel_def)
  qed
  define shut where "shut = update_where (\<lambda>j. in_user j = uid \<and> in_used j = None) (\<lambda>j. j\<lparr>in_used := Some now\<rparr>) (ad_invitations a1)"
  have i: "in_user i = uid" "\<not> exists_row (\<lambda>j. in_token j = in_token i \<or> in_id j = in_id i) shut" "a' = a1\<lparr>ad_invitations := shut @ [i]\<rparr>"
    using r pick by (auto simp: create_invitation_def Let_def shut_def split: if_splits)
  have "invitations_ok (ad_invitations a1)" using s1 unfolding account_inv_def by blast
  from invitations_ok_add [OF this i(2)] have "invitations_ok (shut @ [i])" by (simp add: shut_def i(1))
  moreover have "invitations_keep (ad_invitations a1) (shut @ [i])" unfolding shut_def by (rule invitations_keep_update) auto
  ultimately show ?thesis using s1 by (auto simp: i(3) account_inv_def account_rel_def)
qed

lemma accept_step:
  assumes a: "account_inv a" and r: "accept_invitation C tok ph now a = Inr (a', u)"
  shows "account_inv a' \<and> account_rel a a'"
proof (cases "find (usable C tok now) (ad_invitations a)")
  case None with r a show ?thesis by (simp add: accept_invitation_def account_rel_def)
next
  case (Some i)
  from find_in_set [OF this] have i: "i \<in> set (ad_invitations a)" "in_used i = None" by (auto simp: usable_def)
  from r Some obtain a1 where p: "put_accounts (update_where (\<lambda>u. us_id u = in_user i) (\<lambda>u. u\<lparr>ac_password := Some ph, us_enabled := True\<rparr>) (ad_accounts a)) a = Inr a1"
    and a': "a' = a1\<lparr>ad_invitations := update_where (\<lambda>j. in_id j = in_id i) (\<lambda>j. j\<lparr>in_used := Some now\<rparr>) (ad_invitations a1)\<rparr>"
    by (auto simp: accept_invitation_def Let_def split: sum.splits)
  note s1 = put_step [OF a p roles_keep_update] and inv1 = put_accounts_inv(3) [OF a p]
  have ok: "invitations_ok (ad_invitations a)" using a by (simp add: account_inv_def)
  have same: "j = i" if "j \<in> set (ad_invitations a)" "in_id j = in_id i" for j
    using that i(1) ok by (auto simp: invitations_ok_def dest: distinct_key_eq)
  have "invitations_keep (ad_invitations a) (update_where (\<lambda>j. in_id j = in_id i) (\<lambda>j. j\<lparr>in_used := Some now\<rparr>) (ad_invitations a) @ [])"
    by (rule invitations_keep_update) (use same i(2) in auto)
  then show ?thesis using s1 invitations_ok_close [OF ok] inv1 by (simp add: a' account_inv_def account_rel_def)
qed

interpretation account_run: transactional_order "account_exec C" account_inv "\<lambda>_. True" account_rel for C
proof unfold_locales
  fix a c a' assume "account_inv a" "account_exec C c a = Inr a'"
  then have "account_inv a' \<and> account_rel a a'"
    by (cases c) (auto simp: map_fst_Inr dest: bootstrap_step link_step two_factor_step switch_step scim_create_step scim_update_step invite_step accept_step)
  then show "account_inv a'" "account_rel a a'" by auto
next
  show "account_rel a a" for a by (simp add: account_rel_def)
  show "account_rel a b \<Longrightarrow> account_rel b c \<Longrightarrow> account_rel a c" for a b c by (rule account_rel_trans)
qed

subsection \<open>What the repository promises\<close>

text \<open>A member who is switched off has no open session, and no device of theirs reports.\<close>

lemma switched_off: "u \<in> set (update_where (\<lambda>u. us_id u = uid) (\<lambda>u. u\<lparr>us_enabled := False\<rparr>) us) \<Longrightarrow> us_id u = uid \<Longrightarrow> \<not> us_enabled u"
  unfolding in_update_where by (elim bexE disjE conjE) simp_all

lemma switched_off_is_quiet:
  assumes "set_user_enabled uid False now db = Inr db'"
  shows "\<forall>w\<in>set (sessions db'). ws_user w = Some uid \<longrightarrow> \<not> is_open w"
    "\<forall>d\<in>set (devices db'). dv_owner d = Some uid \<longrightarrow> \<not> dv_enabled d"
    "\<forall>u\<in>set (users db'). us_id u = uid \<longrightarrow> \<not> us_enabled u"
proof -
  show "\<forall>u\<in>set (users db'). us_id u = uid \<longrightarrow> \<not> us_enabled u"
    unfolding set_user_enabled_users [OF assms] using switched_off by blast
  show "\<forall>d\<in>set (devices db'). dv_owner d = Some uid \<longrightarrow> \<not> dv_enabled d"
    "\<forall>w\<in>set (sessions db'). ws_user w = Some uid \<longrightarrow> \<not> is_open w"
    using assms
    by (auto simp: set_user_enabled_def Let_def end_breaks_def end_segments_def end_sessions_def update_where_def is_open_def
        split: if_splits sum.splits)
qed

lemma switch_account_quiet:
  assumes "switch_account uid False now a = Inr a'"
  shows "get_user uid a' = None" "\<forall>w\<in>set (sessions (ad_work a')). ws_user w = Some uid \<longrightarrow> \<not> is_open w"
    "\<forall>d\<in>set (devices (ad_work a')). dv_owner d = Some uid \<longrightarrow> \<not> dv_enabled d"
proof -
  from assms obtain w where w: "set_user_enabled uid False now (ad_work a) = Inr w"
    and a': "a' = a\<lparr>ad_accounts := update_where (\<lambda>u. us_id u = uid) (\<lambda>u. u\<lparr>us_enabled := False\<rparr>) (ad_accounts a), ad_work := w\<rparr>"
    by (auto simp: switch_account_def split: sum.splits)
  show "get_user uid a' = None" unfolding get_user_def find_None_all a' using switched_off [of _ uid "ad_accounts a"] by simp
  show "\<forall>w\<in>set (sessions (ad_work a')). ws_user w = Some uid \<longrightarrow> \<not> is_open w"
    "\<forall>d\<in>set (devices (ad_work a')). dv_owner d = Some uid \<longrightarrow> \<not> dv_enabled d"
    using switched_off_is_quiet [OF w] by (simp_all add: a')
qed

text \<open>An invitation that was accepted is spent.\<close>

lemma accepted_is_spent:
  assumes a: "account_inv a" and r: "accept_invitation C tok ph now a = Inr (a', Some u)"
  shows "accept_invitation C tok ph' now' (exec_all (account_exec C) ops a') = Inr (exec_all (account_exec C) ops a', None)"
proof -
  from r obtain i a1 where f: "find (usable C tok now) (ad_invitations a) = Some i"
    and p: "put_accounts (update_where (\<lambda>u. us_id u = in_user i) (\<lambda>u. u\<lparr>ac_password := Some ph, us_enabled := True\<rparr>) (ad_accounts a)) a = Inr a1"
    and a': "a' = a1\<lparr>ad_invitations := update_where (\<lambda>j. in_id j = in_id i) (\<lambda>j. j\<lparr>in_used := Some now\<rparr>) (ad_invitations a1)\<rparr>"
    by (auto simp: accept_invitation_def Let_def split: sum.splits option.splits)
  from find_in_set [OF f] have i: "i \<in> set (ad_invitations a)" "in_token i = token_hash C tok" by (auto simp: usable_def)
  have inv': "account_inv a'" using accept_step [OF a r] by simp
  let ?a = "exec_all (account_exec C) ops a'"
  have rel: "account_rel a' ?a" and inv: "account_inv ?a"
    using account_run.exec_all_rel [OF inv', of ops C] account_run.exec_all_inv [OF inv', of ops C] by (auto simp: list_all_iff)
  have "i\<lparr>in_used := Some now\<rparr> \<in> set (ad_invitations a')" using i(1) put_accounts_inv(3) [OF a p] by (auto simp: a' set_update_where)
  obtain j where j: "j \<in> set (ad_invitations ?a)" "in_token j = token_hash C tok" "in_used j = Some now"
  proof -
    have "invitations_keep (ad_invitations a') (ad_invitations ?a)" using rel by (simp add: account_rel_def)
    from bspec [OF this [unfolded invitations_keep_def] \<open>i\<lparr>in_used := Some now\<rparr> \<in> set (ad_invitations a')\<close>]
    obtain j where "j \<in> set (ad_invitations ?a)" "in_token j = in_token (i\<lparr>in_used := Some now\<rparr>)"
      "in_used (i\<lparr>in_used := Some now\<rparr>) \<noteq> None \<longrightarrow> in_used j = in_used (i\<lparr>in_used := Some now\<rparr>)" by blast
    then show thesis using i(2) that by simp
  qed
  have "\<not> usable C tok now' k" if "k \<in> set (ad_invitations ?a)" for k
  proof
    assume u: "usable C tok now' k"
    with j that inv have "k = j" by (auto simp: usable_def account_inv_def invitations_ok_def dest: distinct_key_eq)
    with u j(3) show False by (simp add: usable_def)
  qed
  then have "find (usable C tok now') (ad_invitations ?a) = None" by (simp add: find_None_all)
  then show ?thesis by (simp add: accept_invitation_def)
qed



text \<open>An invitation lets one person in once: after it was accepted, whatever operations follow, accepting it again
  returns nobody and changes nothing; and the password set with it is the password of the member invited.\<close>
theorem invitation_used_once:
  assumes "account_inv a" "accept_invitation C raw_token password_hash now a = Inr (a', Some u)"
  shows "accept_invitation C raw_token password_hash' now' (exec_all (account_exec C) ops a') = Inr (exec_all (account_exec C) ops a', None)
    \<and> ac_password u = Some password_hash \<and> us_enabled u"
proof -
  have "ac_password u = Some password_hash \<and> us_enabled u"
    using assms(2) by (auto simp: accept_invitation_def Let_def put_accounts_def get_user_any_def set_update_where
        dest!: find_in_set split: option.splits sum.splits if_splits)
  with accepted_is_spent [OF assms] show ?thesis by blast
qed

text \<open>
  Switching a member off leaves an open invitation open (only a new invitation closes it), and accepting it switches the
  member on again.
\<close>

lemma pending_invitation_survives:
  assumes a: "account_inv a" and i: "i \<in> set (ad_invitations a)" "usable C tok now i" and m: "\<exists>u\<in>set (ad_accounts a). us_id u = in_user i"
    and s: "switch_account (in_user i) False now a = Inr a'"
  shows "\<exists>a'' u. accept_invitation C tok ph now a' = Inr (a'', Some u) \<and> us_id u = in_user i \<and> us_enabled u"
proof -
  have inv: "account_inv a'" and same: "ad_invitations a' = ad_invitations a" and roles: "roles_keep (ad_accounts a) (ad_accounts a')"
    using switch_account_inv [OF a s] by auto
  have "find (usable C tok now) (ad_invitations a') \<noteq> None" using i same by (auto simp: find_None_all)
  then obtain j where f: "find (usable C tok now) (ad_invitations a') = Some j" by auto
  from find_in_set [OF f] i a have "j = i" by (auto simp: same usable_def account_inv_def invitations_ok_def dest: distinct_key_eq)
  let ?acs = "update_where (\<lambda>u. us_id u = in_user i) (\<lambda>u. u\<lparr>ac_password := Some ph, us_enabled := True\<rparr>) (ad_accounts a')"
  obtain u0 where "u0 \<in> set (ad_accounts a')" "us_id u0 = in_user i" using m roles unfolding roles_keep_def by metis
  then have "u0\<lparr>ac_password := Some ph, us_enabled := True\<rparr> \<in> set ?acs" "us_id (u0\<lparr>ac_password := Some ph, us_enabled := True\<rparr>) = in_user i"
    unfolding in_update_where by auto
  then have "find (\<lambda>u. us_id u = in_user i) ?acs \<noteq> None" unfolding find_None_all by blast
  then obtain u where u: "find (\<lambda>u. us_id u = in_user i) ?acs = Some u" by auto
  have "us_enabled u" using find_in_set [OF u] unfolding in_update_where by auto
  moreover have "accounts_unique ?acs" using inv by (simp add: accounts_unique_update account_inv_def)
  ultimately show ?thesis using f u find_in_set [OF u] by (simp add: accept_invitation_def \<open>j = i\<close> put_accounts_def get_user_any_def)
qed

subsection \<open>Examples\<close>

definition plain_crypto :: crypto where
  "plain_crypto = \<lparr>cy_scrypt = (\<lambda>pw salt n r p len. Some (take len (pw @ replicate len CHR ''0''))),
     cy_hmac_sha1 = (\<lambda>key msg. take 20 (key @ msg @ replicate 20 CHR ''0'')), cy_hmac_sha256 = (\<lambda>key msg. key @ msg), cy_sha256 = (\<lambda>msg. msg)\<rparr>"

lemma plain_crypto_law: "crypto_law plain_crypto"
  by (auto simp: crypto_law_def plain_crypto_def scrypt_length_def min_def)

definition first_accounts :: account_db where
  "first_accounts = \<lparr>ad_accounts = [new_account ''u0'' ''o@x'' Admin True 0], ad_invitations = [],
     ad_work = empty_db\<lparr>users := [user.truncate (new_account ''u0'' ''o@x'' Admin True 0)]\<rparr>\<rparr>"

lemma first_accounts_inv: "account_inv first_accounts"
  by (simp add: account_inv_def first_accounts_def accounts_unique_def linked_def new_account_def invitations_ok_def work_inv_def sessions_ok_def
      segments_ok_def events_ok_def empty_db_def)


definition invited_accounts :: account_db where
  "invited_accounts = first_accounts\<lparr>ad_invitations := [\<lparr>in_id = ''i'', in_user = ''u0'', in_token = token_hash plain_crypto ''t'', in_created_by = ''u0'',
     in_created = 0, in_expires = 10, in_used = None\<rparr>]\<rparr>"

lemma invited_accounts_inv: "account_inv invited_accounts"
  using first_accounts_inv by (simp add: account_inv_def invited_accounts_def invitations_ok_def)

lemma invitation_used_once_witness:
  "\<exists>a' u. accept_invitation plain_crypto ''t'' ''hash'' 5 invited_accounts = Inr (a', Some u) \<and> us_id u = ''u0'' \<and>
     accept_invitation plain_crypto ''t'' ''other'' 6 (exec_all (account_exec plain_crypto) [Switch_Account ''u0'' False 5] a')
       = Inr (exec_all (account_exec plain_crypto) [Switch_Account ''u0'' False 5] a', None)"
proof -
  have "\<exists>a' u. accept_invitation plain_crypto ''t'' ''hash'' 5 invited_accounts = Inr (a', Some u) \<and> us_id u = ''u0''"
    by (simp add: accept_invitation_def invited_accounts_def first_accounts_def usable_def put_accounts_def accounts_unique_def linked_def new_account_def
        update_where_def get_user_any_def)
  then show ?thesis using invitation_used_once [OF invited_accounts_inv] by metis
qed

end
