(* ===== verification/Sign_In.thy ===== *)
theory Sign_In
  imports Accounts
begin

section \<open>Signing in\<close>

text \<open>
  \<open>api/routers/auth.py\<close> over \<open>api/web.py\<close>: the pages that sign a person in and out.  The session of a browser is a
  signed cookie: a browser can present every cookie the site has issued, also an old one, and no other.  A handler takes the
  session of the request and returns the session of the response.  What a provider of single sign-on has confirmed (the
  packages behind \<open>oidc\<close> and \<open>saml\<close>) is an argument of the callback: an identity or the error it raised.
\<close>

record web_session =
  se_user :: "uuid option"
  se_preauth :: "uuid option"
  se_csrf :: "string option"

definition empty_session :: web_session where
  "empty_session = \<lparr>se_user = None, se_preauth = None, se_csrf = None\<rparr>"

record sign_in_settings =
  si_identity_limit :: int
  si_source_limit :: int
  si_window_minutes :: int
  si_invitation_hours :: int
  si_secret :: bytes
  si_dummy_hash :: string

record audit_row =
  ae_actor :: "uuid option"
  ae_action :: string
  ae_type :: string
  ae_target :: "uuid option"
  ae_at :: timestamp
  ae_details :: string

record site =
  st_accounts :: account_db
  st_attempts :: "login_attempt list"
  st_assertions :: "used_assertion list"
  st_audit :: "audit_row list"
  st_two_factor :: bool
  st_provider :: string
  st_domain :: string

record identity =
  id_email :: string
  id_issuer :: string
  id_subject :: string

text \<open>
  A response: a redirect, a page with its status and what it shows, an \<open>HTTPException\<close>, or an exception nobody
  catches (a server error, which sets no cookie).
\<close>

datatype reply = Redirect string | Page nat string "string list" | Failed nat string | Crashed error

record visit =
  vi_source :: string
  vi_draw :: string
  vi_now :: timestamp

definition normalize_email :: "string \<Rightarrow> string option" where
  "normalize_email email =
     (let normalized = str_lower (strip email)
      in if 254 < length normalized \<or> rowcount (\<lambda>c. c = CHR ''@'') normalized \<noteq> 1 \<or> CHR '' '' \<in> set normalized
           \<or> hd normalized = CHR ''@'' \<or> last normalized = CHR ''@'' then None else Some normalized)"

definition keyed_digest :: "crypto \<Rightarrow> bytes \<Rightarrow> string \<Rightarrow> string" where
  "keyed_digest C key v = hex_bytes (cy_hmac_sha256 C key (utf8_encode v))"

definition login_throttle_keys :: "crypto \<Rightarrow> bytes \<Rightarrow> string \<Rightarrow> string \<Rightarrow> string \<times> string" where
  "login_throttle_keys C key identity source =
     (keyed_digest C key (''identity:'' @ identity), keyed_digest C key (''source:'' @ source))"

definition with_csrf :: "string \<Rightarrow> web_session \<Rightarrow> web_session" where
  "with_csrf draw sess = (if truthy (se_csrf sess) then sess else sess\<lparr>se_csrf := Some draw\<rparr>)"

definition require_csrf :: "string \<Rightarrow> web_session \<Rightarrow> reply option" where
  "require_csrf supplied sess =
     (case se_csrf sess of
        None \<Rightarrow> Some (Failed 403 ''Invalid form token'')
      | Some expected \<Rightarrow>
          if expected = [] then Some (Failed 403 ''Invalid form token'')
          else if \<not> list_all (\<lambda>c. code c < 128) supplied then Some (Crashed (TypeError ''comparing strings with non-ASCII characters is not supported''))
          else if expected \<noteq> supplied then Some (Failed 403 ''Invalid form token'') else None)"

definition current_user :: "web_session \<Rightarrow> site \<Rightarrow> account option" where
  "current_user sess s = (if truthy (se_user sess) then get_user (the (se_user sess)) (st_accounts s) else None)"

definition write_audit :: "uuid option \<Rightarrow> string \<Rightarrow> string \<Rightarrow> uuid option \<Rightarrow> string \<Rightarrow> timestamp \<Rightarrow> site \<Rightarrow> site" where
  "write_audit actor action target_type target details now s =
     s\<lparr>st_audit := st_audit s @ [\<lparr>ae_actor = actor, ae_action = take 80 action, ae_type = take 40 target_type, ae_target = target,
        ae_at = now, ae_details = take 500 details\<rparr>]\<rparr>"

definition limited :: "sign_in_settings \<Rightarrow> timestamp \<Rightarrow> string \<times> string \<Rightarrow> site \<Rightarrow> bool" where
  "limited cf now ks s =
     login_is_rate_limited now (fst ks) (snd ks) (si_identity_limit cf) (si_source_limit cf) (si_window_minutes cf) (st_attempts s)"

definition needs_second :: "account \<Rightarrow> site \<Rightarrow> bool" where
  "needs_second u s \<longleftrightarrow> ac_two_factor u \<or> st_two_factor s"

subsection \<open>The first factor\<close>

definition factor_page :: "account \<Rightarrow> reply" where
  "factor_page u = Redirect (if truthy (ac_totp u) then ''/two-factor'' else ''/two-factor/setup'')"

definition login ::
  "crypto \<Rightarrow> sign_in_settings \<Rightarrow> string \<Rightarrow> string \<Rightarrow> string \<Rightarrow> visit \<Rightarrow> web_session \<Rightarrow> site \<Rightarrow> site \<times> web_session \<times> reply" where
  "login C cf email password csrf v sess s =
     (case require_csrf csrf sess of Some r \<Rightarrow> (s, sess, r)
      | None \<Rightarrow>
        let normalized = (case normalize_email email of None \<Rightarrow> ''invalid@example.invalid'' | Some e \<Rightarrow> e);
            ks = login_throttle_keys C (si_secret cf) normalized (vi_source v); now = vi_now v
        in if limited cf now ks s then
             (write_audit None ''auth.login_throttled'' ''user'' None normalized now s, with_csrf (vi_draw v) sess,
              Page 429 ''login.html'' [''Too many sign-in attempts. Try again later.''])
           else
             let user = get_user_by_email normalized (st_accounts s);
                 stored = (case user of None \<Rightarrow> None | Some u \<Rightarrow> ac_password u);
                 valid = verify_password C password (py_or stored (Some (si_dummy_hash cf)))
             in if user = None \<or> \<not> valid then
                  (write_audit (map_option us_id user) ''auth.login_failed'' ''user'' None normalized now
                     (s\<lparr>st_attempts := record_login_failure now (fst ks) (snd ks) (st_attempts s)\<rparr>), with_csrf (vi_draw v) sess,
                   Page 401 ''login.html'' [''Incorrect email or password''])
                else
                  let u = the user; s1 = s\<lparr>st_attempts := clear_login_failures (fst ks) (st_attempts s)\<rparr>;
                      fresh = empty_session\<lparr>se_csrf := Some (vi_draw v)\<rparr>
                  in if needs_second u s1 then (s1, fresh\<lparr>se_preauth := Some (us_id u)\<rparr>, factor_page u)
                     else (write_audit (Some (us_id u)) ''auth.login'' ''user'' (Some (us_id u)) (us_email u) now s1,
                           fresh\<lparr>se_user := Some (us_id u)\<rparr>, Redirect ''/''))"

text \<open>\<open>email.rsplit("@", 1)[1]\<close>.\<close>

definition domain_of :: "string \<Rightarrow> string" where
  "domain_of e = rev (takeWhile (\<lambda>c. c \<noteq> CHR ''@'') (rev e))"

definition required_domain :: "site \<Rightarrow> string" where
  "required_domain s = dropWhile (\<lambda>c. c = CHR ''@'') (str_lower (strip (st_domain s)))"

definition sso_user :: "identity \<Rightarrow> site \<Rightarrow> error + (site \<times> account)" where
  "sso_user i s =
     (case normalize_email (id_email i) of
        None \<Rightarrow> Inl (ValueError ''The identity provider returned an invalid email'')
      | Some email \<Rightarrow>
          if id_issuer i = [] \<or> 1024 < length (id_issuer i) \<or> id_subject i = [] \<or> 512 < length (id_subject i) then
            Inl (ValueError ''The identity provider returned an invalid subject'')
          else if required_domain s = [] \<or> domain_of email \<noteq> required_domain s then
            Inl (ValueError (''Your verified email is outside this workspace'' @ [CHR 39] @ ''s SSO domain''))
          else case get_user_by_sso_identity (id_issuer i) (id_subject i) (st_accounts s) of
            Some u \<Rightarrow> Inr (s, u)
          | None \<Rightarrow>
              (case get_user_by_email email (st_accounts s) of
                 None \<Rightarrow> Inl (ValueError ''No active Dayfinch account matches this identity; request an invitation'')
               | Some u \<Rightarrow>
                   (case link_sso_identity (us_id u) (id_issuer i) (id_subject i) (st_accounts s) of
                      Inl e \<Rightarrow> Inl e
                    | Inr a \<Rightarrow> Inr (s\<lparr>st_accounts := a\<rparr>, u))))"

definition finish_sso_login :: "account \<Rightarrow> visit \<Rightarrow> site \<Rightarrow> site \<times> web_session \<times> reply" where
  "finish_sso_login u v s =
     (let fresh = empty_session\<lparr>se_csrf := Some (vi_draw v)\<rparr>
      in if needs_second u s then (s, fresh\<lparr>se_preauth := Some (us_id u)\<rparr>, factor_page u)
         else (write_audit (Some (us_id u)) ''auth.sso_login'' ''user'' (Some (us_id u)) (us_email u) (vi_now v) s,
               fresh\<lparr>se_user := Some (us_id u)\<rparr>, Redirect ''/''))"

definition error_text :: "error \<Rightarrow> string" where
  "error_text e = (case e of ValueError m \<Rightarrow> m | KeyError m \<Rightarrow> m | RuntimeError m \<Rightarrow> m | TypeError m \<Rightarrow> m | LookupError m \<Rightarrow> m
     | UniqueViolation \<Rightarrow> ''unique violation'' | CheckViolation \<Rightarrow> ''check violation'')"

text \<open>
  \<open>except (..., ValueError)\<close>: an error of the provider, and \<open>ValueError\<close>, are audited and shown; others are not caught.
\<close>

definition sso_failure :: "error \<Rightarrow> visit \<Rightarrow> web_session \<Rightarrow> site \<Rightarrow> site \<times> web_session \<times> reply" where
  "sso_failure e v sess s =
     (case e of
        ValueError m \<Rightarrow> (write_audit None ''auth.sso_failed'' ''user'' None m (vi_now v) s, with_csrf (vi_draw v) sess, Page 401 ''login.html'' [m])
      | _ \<Rightarrow> (s, sess, Crashed e))"

definition oidc_callback :: "bool \<Rightarrow> error + identity \<Rightarrow> visit \<Rightarrow> web_session \<Rightarrow> site \<Rightarrow> site \<times> web_session \<times> reply" where
  "oidc_callback configured confirmed v sess s =
     (if \<not> configured \<or> st_provider s \<noteq> ''OpenID Connect'' then (s, sess, Failed 404 ''Single sign-on is not enabled'')
      else case confirmed of
        Inl e \<Rightarrow> sso_failure (ValueError (error_text e)) v sess s
      | Inr i \<Rightarrow> (case sso_user i s of Inl e \<Rightarrow> sso_failure e v sess s | Inr (s1, u) \<Rightarrow> finish_sso_login u v s1))"

definition saml_callback ::
  "bool \<Rightarrow> string \<Rightarrow> string \<Rightarrow> error + (identity \<times> string \<times> string \<times> timestamp) \<Rightarrow> visit \<Rightarrow> web_session \<Rightarrow> site \<Rightarrow> site \<times> web_session \<times> reply" where
  "saml_callback configured content_type content_length confirmed v sess s =
     (if \<not> configured \<or> st_provider s \<noteq> ''SAML 2.0'' then (s, sess, Failed 404 ''Single sign-on is not enabled'')
      else if strip (hd (split_on CHR '';'' content_type)) \<noteq> ''application/x-www-form-urlencoded'' then
        (s, sess, Failed 415 ''SAML responses must use form URL encoding'')
      else if content_length \<noteq> [] \<and> py_int content_length = None then (s, sess, Failed 400 ''Invalid Content-Length'')
      else if content_length \<noteq> [] \<and> (the (py_int content_length) < 0 \<or> 2000000 < the (py_int content_length)) then
        (s, sess, Failed 413 ''SAML response is too large'')
      else case confirmed of
        Inl e \<Rightarrow> sso_failure (ValueError (error_text e)) v sess s
      | Inr (i, response_id, assertion_id, expires_at) \<Rightarrow>
          (case consume_saml_assertion (vi_now v) response_id assertion_id expires_at (st_assertions s) of
             Inl e \<Rightarrow> sso_failure e v sess s
           | Inr (t, fresh) \<Rightarrow>
               let s1 = s\<lparr>st_assertions := t\<rparr>
               in if \<not> fresh then sso_failure (ValueError ''This SAML assertion was already used'') v sess s1
                  else (case sso_user i s1 of Inl e \<Rightarrow> sso_failure e v sess s1 | Inr (s2, u) \<Rightarrow> finish_sso_login u v s2)))"

subsection \<open>The second factor\<close>

text \<open>\<open>_preauth_user\<close>.\<close>

definition preauth_user :: "web_session \<Rightarrow> site \<Rightarrow> reply + account" where
  "preauth_user sess s =
     (if \<not> truthy (se_preauth sess) then Inl (Failed 401 ''Sign in with your password first'')
      else case get_user (the (se_preauth sess)) (st_accounts s) of
        None \<Rightarrow> Inl (Failed 401 ''Account is unavailable'')
      | Some u \<Rightarrow> Inr u)"

definition factor_keys :: "crypto \<Rightarrow> sign_in_settings \<Rightarrow> account \<Rightarrow> visit \<Rightarrow> string \<times> string" where
  "factor_keys C cf u v = login_throttle_keys C (si_secret cf) (''two-factor:'' @ us_id u) (vi_source v)"

definition code_accepted :: "crypto \<Rightarrow> account \<Rightarrow> string \<Rightarrow> timestamp \<Rightarrow> error + bool" where
  "code_accepted C u given now = verify_totp C ((case ac_totp u of None \<Rightarrow> [] | Some t \<Rightarrow> t)) (strip given) (now div usec_per_second)"

definition two_factor_page :: "visit \<Rightarrow> web_session \<Rightarrow> site \<Rightarrow> site \<times> web_session \<times> reply" where
  "two_factor_page v sess s =
     (case preauth_user sess s of Inl r \<Rightarrow> (s, sess, r) | Inr u \<Rightarrow> (s, with_csrf (vi_draw v) sess, Page 200 ''two_factor.html'' []))"

definition two_factor_verify ::
  "crypto \<Rightarrow> sign_in_settings \<Rightarrow> string \<Rightarrow> string \<Rightarrow> visit \<Rightarrow> web_session \<Rightarrow> site \<Rightarrow> site \<times> web_session \<times> reply" where
  "two_factor_verify C cf given csrf v sess s =
     (case preauth_user sess s of Inl r \<Rightarrow> (s, sess, r)
      | Inr u \<Rightarrow>
        (case require_csrf csrf sess of Some r \<Rightarrow> (s, sess, r)
         | None \<Rightarrow>
           let ks = factor_keys C cf u v; now = vi_now v; target = Some (us_id u)
           in if limited cf now ks s then
                (write_audit target ''auth.two_factor_throttled'' ''user'' target [] now s, with_csrf (vi_draw v) sess,
                 Page 429 ''two_factor.html'' [''Too many authentication-code attempts. Try again later.''])
              else (case code_accepted C u given now of
                Inl e \<Rightarrow> (s, sess, Crashed e)
              | Inr False \<Rightarrow>
                  (write_audit target ''auth.two_factor_failed'' ''user'' target [] now
                     (s\<lparr>st_attempts := record_login_failure now (fst ks) (snd ks) (st_attempts s)\<rparr>), with_csrf (vi_draw v) sess,
                   Page 401 ''two_factor.html'' [''The authentication code is invalid or expired.''])
              | Inr True \<Rightarrow>
                  (write_audit target ''auth.two_factor'' ''user'' target [] now
                     (s\<lparr>st_attempts := clear_login_failures (fst ks) (st_attempts s)\<rparr>),
                   sess\<lparr>se_preauth := None, se_user := target\<rparr>, Redirect ''/''))))"

definition provisioning_uri :: "account \<Rightarrow> string \<Rightarrow> string" where
  "provisioning_uri u secret = ''otpauth://totp/Dayfinch:'' @ us_email u @ ''?secret='' @ secret @ ''&issuer=Dayfinch''"

definition two_factor_setup_page :: "bytes \<Rightarrow> visit \<Rightarrow> web_session \<Rightarrow> site \<Rightarrow> site \<times> web_session \<times> reply" where
  "two_factor_setup_page raw v sess s =
     (case preauth_user sess s of Inl r \<Rightarrow> (s, sess, r)
      | Inr u \<Rightarrow>
        let secret = (if truthy (ac_totp u) then the (ac_totp u) else generate_totp_secret raw)
        in case (if truthy (ac_totp u) then Inr (st_accounts s) else set_two_factor_secret (us_id u) (Some secret) False (st_accounts s)) of
             Inl e \<Rightarrow> (s, sess, Crashed e)
           | Inr a \<Rightarrow> (s\<lparr>st_accounts := a\<rparr>, with_csrf (vi_draw v) sess, Page 200 ''two_factor_setup.html'' [secret, provisioning_uri u secret]))"

definition two_factor_setup ::
  "crypto \<Rightarrow> sign_in_settings \<Rightarrow> string \<Rightarrow> string \<Rightarrow> visit \<Rightarrow> web_session \<Rightarrow> site \<Rightarrow> site \<times> web_session \<times> reply" where
  "two_factor_setup C cf given csrf v sess s =
     (case preauth_user sess s of Inl r \<Rightarrow> (s, sess, r)
      | Inr u \<Rightarrow>
        (case require_csrf csrf sess of Some r \<Rightarrow> (s, sess, r)
         | None \<Rightarrow>
           let ks = factor_keys C cf u v; now = vi_now v; target = Some (us_id u); secret = (case ac_totp u of None \<Rightarrow> ''None'' | Some t \<Rightarrow> t);
               uri = provisioning_uri u secret
           in if limited cf now ks s then
                (write_audit target ''auth.two_factor_setup_throttled'' ''user'' target [] now s, with_csrf (vi_draw v) sess,
                 Page 429 ''two_factor_setup.html'' [''Too many authentication-code attempts. Try again later.'', secret, uri])
              else (case code_accepted C u given now of
                Inl e \<Rightarrow> (s, sess, Crashed e)
              | Inr False \<Rightarrow>
                  (s\<lparr>st_attempts := record_login_failure now (fst ks) (snd ks) (st_attempts s)\<rparr>, with_csrf (vi_draw v) sess,
                   Page 400 ''two_factor_setup.html'' [''Enter the current six-digit code to finish setup.'', secret, uri])
              | Inr True \<Rightarrow>
                  let s1 = s\<lparr>st_attempts := clear_login_failures (fst ks) (st_attempts s)\<rparr>
                  in (case set_two_factor_secret (us_id u) (ac_totp u) True (st_accounts s1) of
                    Inl e \<Rightarrow> (s1, sess, Crashed e)
                  | Inr a \<Rightarrow> (write_audit target ''auth.two_factor_enabled'' ''user'' target [] now (s1\<lparr>st_accounts := a\<rparr>),
                              sess\<lparr>se_preauth := None, se_user := target\<rparr>, Redirect ''/'')))))"

subsection \<open>Signing out, and invitations\<close>

definition logout :: "(account \<Rightarrow> string) \<Rightarrow> string \<Rightarrow> visit \<Rightarrow> web_session \<Rightarrow> site \<Rightarrow> site \<times> web_session \<times> reply" where
  "logout provider_url csrf v sess s =
     (case current_user sess s of None \<Rightarrow> (s, sess, Failed 401 ''Login required'')
      | Some u \<Rightarrow>
        (case require_csrf csrf sess of Some r \<Rightarrow> (s, sess, r)
         | None \<Rightarrow> (write_audit (Some (us_id u)) ''auth.logout'' ''user'' (Some (us_id u)) (us_email u) (vi_now v) s, empty_session,
             Redirect (if provider_url u \<noteq> [] then provider_url u else ''/login''))))"

definition accept_invite_page :: "crypto \<Rightarrow> string \<Rightarrow> visit \<Rightarrow> web_session \<Rightarrow> site \<Rightarrow> site \<times> web_session \<times> reply" where
  "accept_invite_page C token v sess s =
     (s, with_csrf (vi_draw v) sess,
      Page (if get_invitation C token (vi_now v) (st_accounts s) = None then 410 else 200) ''accept_invite.html'' [])"

definition accept_invite ::
  "crypto \<Rightarrow> string \<Rightarrow> string \<Rightarrow> string \<Rightarrow> string \<Rightarrow> bytes \<Rightarrow> visit \<Rightarrow> web_session \<Rightarrow> site \<Rightarrow> site \<times> web_session \<times> reply" where
  "accept_invite C token password password_confirm csrf salt v sess s =
     (case require_csrf csrf sess of Some r \<Rightarrow> (s, sess, r)
      | None \<Rightarrow>
        let now = vi_now v; invitation = get_invitation C token now (st_accounts s);
            problem = (if invitation = None then ''This invitation is invalid, expired, or already used.''
              else if password \<noteq> password_confirm then ''Passwords do not match.''
              else if length password < 12 then ''Password must be at least 12 characters.'' else [])
        in if problem \<noteq> [] then (s, with_csrf (vi_draw v) sess, Page 400 ''accept_invite.html'' [problem])
           else (case hash_password C salt password of
               Inl e \<Rightarrow> (s, sess, Crashed e)
             | Inr h \<Rightarrow>
               (case accept_invitation C token h now (st_accounts s) of
                  Inl e \<Rightarrow> (s, sess, Crashed e)
                | Inr (a, None) \<Rightarrow> (s\<lparr>st_accounts := a\<rparr>, sess, Failed 410 ''Invitation is no longer valid'')
                | Inr (a, Some u) \<Rightarrow>
                    (write_audit (Some (us_id u)) ''invitation.accepted'' ''user'' (Some (us_id u)) (us_email u) now (s\<lparr>st_accounts := a\<rparr>),
                     empty_session\<lparr>se_user := Some (us_id u), se_csrf := Some (vi_draw v)\<rparr>, Redirect ''/''))))"

text \<open>\<open>create_invitation\<close>: \<open>deliver\<close> is the mail service, whether it sent the mail or the error it raised.\<close>

definition post_invitation ::
  "crypto \<Rightarrow> sign_in_settings \<Rightarrow> string \<Rightarrow> string \<Rightarrow> uuid \<Rightarrow> uuid \<Rightarrow> string \<Rightarrow> (string \<Rightarrow> string \<Rightarrow> error + bool) \<Rightarrow>
   visit \<Rightarrow> web_session \<Rightarrow> site \<Rightarrow> site \<times> web_session \<times> reply" where
  "post_invitation C cf email csrf new_user new_id raw_token deliver v sess s =
     (case current_user sess s of None \<Rightarrow> (s, sess, Failed 401 ''Login required'')
      | Some admin \<Rightarrow>
        if us_role admin \<noteq> Admin \<and> us_role admin \<noteq> Manager then (s, sess, Failed 403 ''Administrator access required'')
        else (case require_csrf csrf sess of Some r \<Rightarrow> (s, sess, r)
         | None \<Rightarrow>
           let now = vi_now v; page = with_csrf (vi_draw v) sess
           in (case normalize_email email of
               None \<Rightarrow> (s, page, Page 400 ''invitation_created.html'' [''Enter a valid email address''])
             | Some normalized \<Rightarrow>
               (case create_invitation C normalized (us_id admin) (si_invitation_hours cf) new_user new_id raw_token now (st_accounts s) of
                  Inl (ValueError m) \<Rightarrow> (s, page, Page 400 ''invitation_created.html'' [m])
                | Inl e \<Rightarrow> (s, sess, Crashed e)
                | Inr (a, i) \<Rightarrow>
                    let s1 = write_audit (Some (us_id admin)) ''invitation.created'' ''invitation'' (Some (in_id i)) normalized now (s\<lparr>st_accounts := a\<rparr>);
                        delivered = (case deliver normalized raw_token of
                          Inl e \<Rightarrow> ''Email delivery failed. Copy the link below and check the SMTP settings.'' | Inr _ \<Rightarrow> [])
                    in (s1, page, Page 200 ''invitation_created.html'' [''/invite/'' @ raw_token, delivered])))))"

subsection \<open>Browsers and the site\<close>

datatype web_request =
  Login_Page
| Post_Login string string string
| Oidc_Callback "error + identity"
| Saml_Callback string string "error + (identity \<times> string \<times> string \<times> timestamp)"
| Factor_Page
| Post_Factor string string
| Setup_Page bytes
| Post_Setup string string
| Post_Logout string
| Invite_Page string
| Post_Invite string string string string bytes
| Post_Invitation string string uuid uuid string

record site_env =
  en_crypto :: crypto
  en_settings :: sign_in_settings
  en_oidc :: bool
  en_saml :: bool
  en_logout_url :: "account \<Rightarrow> string"
  en_deliver :: "string \<Rightarrow> string \<Rightarrow> error + bool"

definition login_page :: "visit \<Rightarrow> web_session \<Rightarrow> site \<Rightarrow> site \<times> web_session \<times> reply" where
  "login_page v sess s =
     (if current_user sess s \<noteq> None then (s, sess, Redirect ''/'') else (s, with_csrf (vi_draw v) sess, Page 200 ''login.html'' []))"

fun handle :: "site_env \<Rightarrow> web_request \<Rightarrow> visit \<Rightarrow> web_session \<Rightarrow> site \<Rightarrow> site \<times> web_session \<times> reply" where
  "handle E Login_Page v sess s = login_page v sess s"
| "handle E (Post_Login email password csrf) v sess s = login (en_crypto E) (en_settings E) email password csrf v sess s"
| "handle E (Oidc_Callback confirmed) v sess s = oidc_callback (en_oidc E) confirmed v sess s"
| "handle E (Saml_Callback ct cl confirmed) v sess s = saml_callback (en_saml E) ct cl confirmed v sess s"
| "handle E Factor_Page v sess s = two_factor_page v sess s"
| "handle E (Post_Factor given csrf) v sess s = two_factor_verify (en_crypto E) (en_settings E) given csrf v sess s"
| "handle E (Setup_Page raw) v sess s = two_factor_setup_page raw v sess s"
| "handle E (Post_Setup given csrf) v sess s = two_factor_setup (en_crypto E) (en_settings E) given csrf v sess s"
| "handle E (Post_Logout csrf) v sess s = logout (en_logout_url E) csrf v sess s"
| "handle E (Invite_Page token) v sess s = accept_invite_page (en_crypto E) token v sess s"
| "handle E (Post_Invite token password confirm csrf salt) v sess s =
     accept_invite (en_crypto E) token password confirm csrf salt v sess s"
| "handle E (Post_Invitation email csrf new_user new_id raw_token) v sess s =
     post_invitation (en_crypto E) (en_settings E) email csrf new_user new_id raw_token (en_deliver E) v sess s"

record world =
  wo_site :: site
  wo_cookies :: "web_session list"

text \<open>
  An event: a browser presents a cookie issued before (or none) with a request, another part of the program changes the
  accounts, or an administrator changes the policy.
\<close>

datatype event = Visit nat web_request visit | Repository account_op | Policy bool string string

definition cookie :: "nat \<Rightarrow> world \<Rightarrow> web_session" where
  "cookie k w = (if k < length (wo_cookies w) then wo_cookies w ! k else empty_session)"

fun happen :: "site_env \<Rightarrow> world \<Rightarrow> event \<Rightarrow> world" where
  "happen E w (Visit k rq v) =
     (case handle E rq v (cookie k w) (wo_site w) of (s, sess, r) \<Rightarrow> \<lparr>wo_site = s, wo_cookies = wo_cookies w @ [sess]\<rparr>)"
| "happen E w (Repository c) = w\<lparr>wo_site := (wo_site w)\<lparr>st_accounts := commit (st_accounts (wo_site w)) (account_exec (en_crypto E) c (st_accounts (wo_site w)))\<rparr>\<rparr>"
| "happen E w (Policy two_factor provider domain) = w\<lparr>wo_site := (wo_site w)\<lparr>st_two_factor := two_factor, st_provider := provider, st_domain := domain\<rparr>\<rparr>"

definition run_world :: "site_env \<Rightarrow> event list \<Rightarrow> world \<Rightarrow> world" where
  "run_world E evs w = foldl (happen E) w evs"

subsection \<open>What a person has shown\<close>

text \<open>The account whose password or identity a request shows, the account whose code it shows, and the member it was invited as.\<close>

definition password_shown :: "site_env \<Rightarrow> string \<Rightarrow> string \<Rightarrow> site \<Rightarrow> account option" where
  "password_shown E email password s =
     (case get_user_by_email (case normalize_email email of None \<Rightarrow> ''invalid@example.invalid'' | Some e \<Rightarrow> e) (st_accounts s) of
        None \<Rightarrow> None
      | Some u \<Rightarrow> if verify_password (en_crypto E) password (py_or (ac_password u) (Some (si_dummy_hash (en_settings E)))) then Some u else None)"

definition identity_shown :: "identity \<Rightarrow> site \<Rightarrow> account option" where
  "identity_shown i s = (case sso_user i s of Inl e \<Rightarrow> None | Inr (s', u) \<Rightarrow> Some u)"

fun first_factor :: "site_env \<Rightarrow> web_request \<Rightarrow> site \<Rightarrow> account option" where
  "first_factor E (Post_Login email password csrf) s = password_shown E email password s"
| "first_factor E (Oidc_Callback (Inr i)) s = identity_shown i s"
| "first_factor E (Saml_Callback ct cl (Inr (i, r, a, x))) s = identity_shown i s"
| "first_factor E rq s = None"

definition code_shown :: "site_env \<Rightarrow> string \<Rightarrow> visit \<Rightarrow> web_session \<Rightarrow> site \<Rightarrow> uuid option" where
  "code_shown E given v sess s =
     (case preauth_user sess s of Inl r \<Rightarrow> None
      | Inr u \<Rightarrow> if code_accepted (en_crypto E) u given (vi_now v) = Inr True then Some (us_id u) else None)"

fun second_factor :: "site_env \<Rightarrow> web_request \<Rightarrow> visit \<Rightarrow> web_session \<Rightarrow> site \<Rightarrow> uuid option" where
  "second_factor E (Post_Factor given csrf) v sess s = code_shown E given v sess s"
| "second_factor E (Post_Setup given csrf) v sess s = code_shown E given v sess s"
| "second_factor E rq v sess s = None"

fun invited_as :: "site_env \<Rightarrow> web_request \<Rightarrow> visit \<Rightarrow> site \<Rightarrow> uuid option" where
  "invited_as E (Post_Invite token password confirm csrf salt) v s =
     map_option in_user (find (usable (en_crypto E) token (vi_now v)) (ad_invitations (st_accounts s)))"
| "invited_as E rq v s = None"

definition signs_in :: "site_env \<Rightarrow> web_request \<Rightarrow> visit \<Rightarrow> web_session \<Rightarrow> site \<Rightarrow> uuid \<Rightarrow> bool" where
  "signs_in E rq v sess s u \<longleftrightarrow> invited_as E rq v s = Some u
     \<or> (\<exists>a. first_factor E rq s = Some a \<and> us_id a = u \<and> \<not> needs_second a s)
     \<or> (second_factor E rq v sess s = Some u \<and> se_preauth sess = Some u)"

definition shows_first :: "site_env \<Rightarrow> web_request \<Rightarrow> site \<Rightarrow> uuid \<Rightarrow> bool" where
  "shows_first E rq s u \<longleftrightarrow> (\<exists>a. first_factor E rq s = Some a \<and> us_id a = u)"

text \<open>A handler only hands out what was shown to it.\<close>

definition hands_out :: "site_env \<Rightarrow> web_request \<Rightarrow> visit \<Rightarrow> web_session \<Rightarrow> site \<Rightarrow> web_session \<Rightarrow> bool" where
  "hands_out E rq v sess s sess' \<longleftrightarrow>
     (\<forall>u. se_preauth sess' = Some u \<longrightarrow> se_preauth sess = Some u \<or> shows_first E rq s u) \<and>
     (\<forall>u. se_user sess' = Some u \<longrightarrow> se_user sess = Some u \<or> signs_in E rq v sess s u)"

lemma hands_out_same: "se_preauth sess' = se_preauth sess \<Longrightarrow> se_user sess' = se_user sess \<Longrightarrow> hands_out E rq v sess s sess'"
  by (simp add: hands_out_def)

lemma with_csrf_keeps [simp]: "se_preauth (with_csrf d sess) = se_preauth sess" "se_user (with_csrf d sess) = se_user sess"
  by (simp_all add: with_csrf_def)

lemma login_hands_out:
  assumes "handle E (Post_Login email password csrf) v sess s = (s', sess', r)"
  shows "hands_out E (Post_Login email password csrf) v sess s sess'"
proof -
  note d = assms [unfolded handle.simps login_def Let_def]
  let ?n = "case normalize_email email of None \<Rightarrow> ''invalid@example.invalid'' | Some e \<Rightarrow> e"
  show ?thesis
  proof (cases "get_user_by_email ?n (st_accounts s)")
    case None
    have "se_preauth sess' = se_preauth sess \<and> se_user sess' = se_user sess"
      using d None by (auto split: option.splits if_splits)
    then show ?thesis by (simp add: hands_out_same)
  next
    case (Some u)
    show ?thesis
    proof (cases "verify_password (en_crypto E) password (py_or (ac_password u) (Some (si_dummy_hash (en_settings E))))")
      case False
      have "se_preauth sess' = se_preauth sess \<and> se_user sess' = se_user sess"
        using d Some False by (auto split: option.splits if_splits)
      then show ?thesis by (simp add: hands_out_same)
    next
      case True
      then have f: "first_factor E (Post_Login email password csrf) s = Some u" by (simp add: password_shown_def Some)
      have "(se_preauth sess' = se_preauth sess \<and> se_user sess' = se_user sess)
          \<or> (needs_second u s \<and> se_preauth sess' = Some (us_id u) \<and> se_user sess' = None)
          \<or> (\<not> needs_second u s \<and> se_preauth sess' = None \<and> se_user sess' = Some (us_id u))"
        using d Some True by (auto simp: empty_session_def needs_second_def split: option.splits if_splits)
      then show ?thesis using f by (auto simp: hands_out_def shows_first_def signs_in_def)
    qed
  qed
qed

lemma finish_hands_out:
  assumes "finish_sso_login u v s1 = (s', sess', r)" "st_two_factor s1 = st_two_factor s" "first_factor E rq s = Some u"
  shows "hands_out E rq v sess s sess'"
  using assms by (auto simp: finish_sso_login_def Let_def empty_session_def needs_second_def hands_out_def shows_first_def signs_in_def split: if_splits)

lemma sso_failure_keeps:
  "sso_failure e v sess s = (s', sess', r) \<Longrightarrow> se_preauth sess' = se_preauth sess \<and> se_user sess' = se_user sess"
  by (auto simp: sso_failure_def split: error.splits)

lemma sso_user_policy: "sso_user i s = Inr (s1, u) \<Longrightarrow> st_two_factor s1 = st_two_factor s"
  by (auto simp: sso_user_def split: option.splits sum.splits if_splits)

lemma sso_user_assertions: "sso_user i (s\<lparr>st_assertions := t\<rparr>) = map_sum (\<lambda>e. e) (\<lambda>(s1, u). (s1\<lparr>st_assertions := t\<rparr>, u)) (sso_user i s)"
  by (auto simp: sso_user_def required_domain_def split: option.splits sum.splits)

lemma oidc_hands_out:
  assumes "handle E (Oidc_Callback confirmed) v sess s = (s', sess', r)"
  shows "hands_out E (Oidc_Callback confirmed) v sess s sess'"
proof (cases "\<exists>i s1 u. confirmed = Inr i \<and> sso_user i s = Inr (s1, u) \<and> finish_sso_login u v s1 = (s', sess', r)")
  case True
  then obtain i s1 u where c: "confirmed = Inr i" and u: "sso_user i s = Inr (s1, u)" and f: "finish_sso_login u v s1 = (s', sess', r)" by blast
  show ?thesis by (rule finish_hands_out [OF f sso_user_policy [OF u]]) (simp add: c identity_shown_def u)
next
  case False
  have "se_preauth sess' = se_preauth sess \<and> se_user sess' = se_user sess"
    using assms False by (auto simp: oidc_callback_def split: if_splits sum.splits dest!: sso_failure_keeps)
  then show ?thesis by (simp add: hands_out_same)
qed

lemma saml_hands_out:
  assumes "handle E (Saml_Callback ct cl confirmed) v sess s = (s', sess', r)"
  shows "hands_out E (Saml_Callback ct cl confirmed) v sess s sess'"
proof (cases "\<exists>i x y z t s1 u. confirmed = Inr (i, x, y, z) \<and> sso_user i (s\<lparr>st_assertions := t\<rparr>) = Inr (s1, u) \<and> finish_sso_login u v s1 = (s', sess', r)")
  case True
  then obtain i x y z t s1 u where c: "confirmed = Inr (i, x, y, z)" and u: "sso_user i (s\<lparr>st_assertions := t\<rparr>) = Inr (s1, u)"
    and f: "finish_sso_login u v s1 = (s', sess', r)" by blast
  from u obtain s2 where "sso_user i s = Inr (s2, u)" by (cases "sso_user i s") (auto simp: sso_user_assertions)
  then have "first_factor E (Saml_Callback ct cl confirmed) s = Some u" by (simp add: c identity_shown_def)
  moreover have "st_two_factor s1 = st_two_factor s" using sso_user_policy [OF u] by simp
  ultimately show ?thesis using finish_hands_out [OF f] by blast
next
  case False
  have "se_preauth sess' = se_preauth sess \<and> se_user sess' = se_user sess"
    using assms False by (auto simp: saml_callback_def Let_def split: if_splits sum.splits dest!: sso_failure_keeps)
  then show ?thesis by (simp add: hands_out_same)
qed

lemma preauth_user_id:
  assumes "preauth_user sess s = Inr u"
  shows "se_preauth sess = Some (us_id u)" "get_user (us_id u) (st_accounts s) = Some u"
  using assms find_in_set by (fastforce simp: preauth_user_def get_user_def truthy_iff split: if_splits option.splits)+

lemma code_hands_out:
  assumes "rq = Post_Factor given csrf \<or> rq = Post_Setup given csrf" "preauth_user sess s = Inr u"
    "code_accepted (en_crypto E) u given (vi_now v) = Inr True" "se_preauth sess' = None" "se_user sess' = Some (us_id u)"
  shows "hands_out E rq v sess s sess'"
proof -
  have "second_factor E rq v sess s = Some (us_id u)" using assms(1) by (auto simp: code_shown_def assms(2,3))
  then show ?thesis using preauth_user_id(1) [OF assms(2)] assms(4,5) by (simp add: hands_out_def signs_in_def)
qed

lemma factor_hands_out:
  assumes "handle E (Post_Factor given csrf) v sess s = (s', sess', r)"
  shows "hands_out E (Post_Factor given csrf) v sess s sess'"
proof (cases "\<exists>u. preauth_user sess s = Inr u \<and> code_accepted (en_crypto E) u given (vi_now v) = Inr True \<and> se_preauth sess' = None \<and> se_user sess' = Some (us_id u)")
  case True then show ?thesis using code_hands_out by blast
next
  case False
  have "se_preauth sess' = se_preauth sess \<and> se_user sess' = se_user sess"
    using assms False by (auto simp: two_factor_verify_def Let_def split: if_splits sum.splits option.splits bool.splits)
  then show ?thesis by (simp add: hands_out_same)
qed

lemma setup_hands_out:
  assumes "handle E (Post_Setup given csrf) v sess s = (s', sess', r)"
  shows "hands_out E (Post_Setup given csrf) v sess s sess'"
proof (cases "\<exists>u. preauth_user sess s = Inr u \<and> code_accepted (en_crypto E) u given (vi_now v) = Inr True \<and> se_preauth sess' = None \<and> se_user sess' = Some (us_id u)")
  case True then show ?thesis using code_hands_out by blast
next
  case False
  note d = assms [unfolded handle.simps two_factor_setup_def Let_def]
  have "se_preauth sess' = se_preauth sess \<and> se_user sess' = se_user sess"
  proof (cases "preauth_user sess s")
    case (Inl e) with d show ?thesis by simp
  next
    case (Inr u)
    with d False show ?thesis
      by (cases "code_accepted (en_crypto E) u given (vi_now v)") (auto split: if_splits sum.splits option.splits bool.splits)
  qed
  then show ?thesis by (simp add: hands_out_same)
qed

lemma accept_gives_invited:
  assumes "accept_invitation C tok ph now a = Inr (a', Some u)"
  shows "map_option in_user (find (usable C tok now) (ad_invitations a)) = Some (us_id u)"
  using assms by (auto simp: accept_invitation_def Let_def get_user_any_def dest!: find_in_set split: option.splits sum.splits)

lemma invite_hands_out:
  assumes "handle E (Post_Invite token password confirm csrf salt) v sess s = (s', sess', r)"
  shows "hands_out E (Post_Invite token password confirm csrf salt) v sess s sess'"
proof (cases "\<exists>h a u. accept_invitation (en_crypto E) token h (vi_now v) (st_accounts s) = Inr (a, Some u) \<and> se_preauth sess' = None \<and> se_user sess' = Some (us_id u)")
  case True
  then show ?thesis using accept_gives_invited by (fastforce simp: hands_out_def signs_in_def)
next
  case False
  note d = assms [unfolded handle.simps accept_invite_def Let_def]
  have "se_preauth sess' = se_preauth sess \<and> se_user sess' = se_user sess"
    using d False by (auto simp: empty_session_def split: if_splits sum.splits option.splits) metis+
  then show ?thesis by (simp add: hands_out_same)
qed

lemma quiet_hands_out:
  assumes "handle E rq v sess s = (s', sess', r)"
    and "rq = Login_Page \<or> rq = Factor_Page \<or> (\<exists>raw. rq = Setup_Page raw) \<or> (\<exists>t. rq = Invite_Page t) \<or>
      (\<exists>email csrf nu ni raw. rq = Post_Invitation email csrf nu ni raw)"
  shows "hands_out E rq v sess s sess'"
proof -
  have "se_preauth sess' = se_preauth sess \<and> se_user sess' = se_user sess"
    using assms by (auto simp: login_page_def two_factor_page_def two_factor_setup_page_def accept_invite_page_def post_invitation_def Let_def
        split: if_splits sum.splits option.splits error.splits)
  then show ?thesis by (simp add: hands_out_same)
qed

lemma logout_hands_out:
  assumes "handle E (Post_Logout csrf) v sess s = (s', sess', r)"
  shows "hands_out E (Post_Logout csrf) v sess s sess'"
  using assms by (auto simp: logout_def empty_session_def hands_out_def split: option.splits)

lemma handle_hands_out:
  assumes "handle E rq v sess s = (s', sess', r)"
  shows "hands_out E rq v sess s sess'"
proof (cases rq)
  case (Post_Login a b c) with assms show ?thesis using login_hands_out by blast
next
  case (Oidc_Callback a) with assms show ?thesis using oidc_hands_out by blast
next
  case (Saml_Callback a b c) with assms show ?thesis using saml_hands_out by blast
next
  case (Post_Factor a b) with assms show ?thesis using factor_hands_out by blast
next
  case (Post_Setup a b) with assms show ?thesis using setup_hands_out by blast
next
  case (Post_Invite a b c d e) with assms show ?thesis using invite_hands_out by blast
next
  case (Post_Logout a) with assms show ?thesis using logout_hands_out by blast
qed (use assms quiet_hands_out in blast)+

subsection \<open>Who is signed in\<close>

text \<open>Something true of an event and of the events before it has happened in a run.\<close>

definition happened :: "(event list \<Rightarrow> event \<Rightarrow> bool) \<Rightarrow> event list \<Rightarrow> bool" where
  "happened P evs \<longleftrightarrow> (\<exists>before ev after. evs = before @ ev # after \<and> P before ev)"

lemma happened_snoc: "happened P (evs @ [ev]) \<longleftrightarrow> happened P evs \<or> P evs ev"
proof
  assume "happened P (evs @ [ev])"
  then obtain before e after where e: "evs @ [ev] = before @ e # after" "P before e" unfolding happened_def by blast
  show "happened P evs \<or> P evs ev"
  proof (cases after rule: rev_cases)
    case Nil with e show ?thesis by simp
  next
    case (snoc xs x)
    with e(1) have "evs = before @ e # xs" by simp
    with e(2) show ?thesis unfolding happened_def by blast
  qed
next
  assume "happened P evs \<or> P evs ev"
  then show "happened P (evs @ [ev])" unfolding happened_def by (metis append.assoc append_Cons append_Nil)
qed

lemma happened_mono: "happened P evs \<Longrightarrow> happened P (evs @ [ev])"
  by (simp add: happened_snoc)

definition proved_first :: "site_env \<Rightarrow> world \<Rightarrow> uuid \<Rightarrow> event list \<Rightarrow> event \<Rightarrow> bool" where
  "proved_first E w0 u before ev \<longleftrightarrow> (\<exists>k rq v. ev = Visit k rq v \<and> shows_first E rq (wo_site (run_world E before w0)) u)"

definition proved_alone :: "site_env \<Rightarrow> world \<Rightarrow> uuid \<Rightarrow> event list \<Rightarrow> event \<Rightarrow> bool" where
  "proved_alone E w0 u before ev \<longleftrightarrow> (\<exists>k rq v a. ev = Visit k rq v \<and> first_factor E rq (wo_site (run_world E before w0)) = Some a
     \<and> us_id a = u \<and> \<not> needs_second a (wo_site (run_world E before w0)))"

definition proved_second :: "site_env \<Rightarrow> world \<Rightarrow> uuid \<Rightarrow> event list \<Rightarrow> event \<Rightarrow> bool" where
  "proved_second E w0 u before ev \<longleftrightarrow> happened (proved_first E w0 u) before
     \<and> (\<exists>k rq v. ev = Visit k rq v \<and> second_factor E rq v (cookie k (run_world E before w0)) (wo_site (run_world E before w0)) = Some u)"

definition came_invited :: "site_env \<Rightarrow> world \<Rightarrow> uuid \<Rightarrow> event list \<Rightarrow> event \<Rightarrow> bool" where
  "came_invited E w0 u before ev \<longleftrightarrow> (\<exists>k rq v. ev = Visit k rq v \<and> invited_as E rq v (wo_site (run_world E before w0)) = Some u)"

definition entitled :: "site_env \<Rightarrow> world \<Rightarrow> uuid \<Rightarrow> event list \<Rightarrow> bool" where
  "entitled E w0 u evs \<longleftrightarrow> happened (came_invited E w0 u) evs \<or> happened (proved_alone E w0 u) evs \<or> happened (proved_second E w0 u) evs"

definition cookies_justified :: "site_env \<Rightarrow> world \<Rightarrow> event list \<Rightarrow> web_session \<Rightarrow> bool" where
  "cookies_justified E w0 evs c \<longleftrightarrow> (\<forall>u. se_preauth c = Some u \<longrightarrow> happened (proved_first E w0 u) evs) \<and> (\<forall>u. se_user c = Some u \<longrightarrow> entitled E w0 u evs)"

lemma justified_mono: "cookies_justified E w0 evs c \<Longrightarrow> cookies_justified E w0 (evs @ [ev]) c"
  unfolding cookies_justified_def entitled_def by (auto intro: happened_mono)

lemma justified_empty [simp]: "cookies_justified E w0 evs empty_session"
  by (simp add: cookies_justified_def empty_session_def)

lemma run_world_snoc: "run_world E (evs @ [ev]) w0 = happen E (run_world E evs w0) ev"
  by (simp add: run_world_def)

lemma all_justified:
  assumes "wo_cookies w0 = []"
  shows "\<forall>c\<in>set (wo_cookies (run_world E evs w0)). cookies_justified E w0 evs c"
proof (induction evs rule: rev_induct)
  case Nil then show ?case using assms by (simp add: run_world_def)
next
  case (snoc ev evs)
  let ?w = "run_world E evs w0"
  have old: "\<forall>c\<in>set (wo_cookies ?w). cookies_justified E w0 (evs @ [ev]) c" using snoc justified_mono by blast
  show ?case
  proof (cases ev)
    case (Visit k rq v)
    obtain s sess r where h: "handle E rq v (cookie k ?w) (wo_site ?w) = (s, sess, r)" by (cases "handle E rq v (cookie k ?w) (wo_site ?w)") auto
    have c: "cookies_justified E w0 evs (cookie k ?w)" using snoc by (simp add: cookie_def)
    note hands = handle_hands_out [OF h, unfolded hands_out_def]
    have "happened (proved_first E w0 u) (evs @ [ev])" if p: "se_preauth sess = Some u" for u
    proof -
      from hands p consider "se_preauth (cookie k ?w) = Some u" | "shows_first E rq (wo_site ?w) u" by blast
      then show ?thesis
      proof cases
        case 1 with c show ?thesis by (simp add: cookies_justified_def happened_snoc)
      next
        case 2 then have "proved_first E w0 u evs ev" using Visit by (auto simp: proved_first_def)
        then show ?thesis by (simp add: happened_snoc)
      qed
    qed
    moreover have "entitled E w0 u (evs @ [ev])" if p: "se_user sess = Some u" for u
    proof -
      from hands p consider "se_user (cookie k ?w) = Some u" | "signs_in E rq v (cookie k ?w) (wo_site ?w) u" by blast
      then show ?thesis
      proof cases
        case 1 with c show ?thesis by (auto simp: cookies_justified_def entitled_def happened_snoc)
      next
        case 2
        have "came_invited E w0 u evs ev \<or> proved_alone E w0 u evs ev \<or> proved_second E w0 u evs ev"
          using 2 c Visit by (auto simp: signs_in_def came_invited_def proved_alone_def proved_second_def cookies_justified_def)
        then show ?thesis by (auto simp: entitled_def happened_snoc)
      qed
    qed
    ultimately have "cookies_justified E w0 (evs @ [ev]) sess" by (simp add: cookies_justified_def)
    then show ?thesis using old h by (simp add: run_world_snoc Visit)
  qed (use old in \<open>simp_all add: run_world_snoc\<close>)
qed

text \<open>C11. Who is signed in has proved to be the account.  Whatever browsers, repository and administrators do, in whatever
  order and with whatever old cookies, a cookie that signs somebody in as an account exists only if a request accepted
  an invitation of that account, or showed its password or identity when no second factor was asked of it, or showed a
  code of its authenticator after an earlier request had shown its password or identity.\<close>
theorem signed_in_is_proved:
  assumes "wo_cookies w0 = []" "c \<in> set (wo_cookies (run_world E evs w0))" "se_user c = Some u"
  shows "happened (came_invited E w0 u) evs \<or> happened (proved_alone E w0 u) evs \<or> happened (proved_second E w0 u) evs"
  using all_justified [OF assms(1), of E evs] assms(2,3) by (auto simp: cookies_justified_def entitled_def)

subsection \<open>What the pages do besides\<close>

text \<open>
  An account without a password (one that SCIM provisioned, or that signs in by single sign-on) is checked against the dummy
  hash that \<open>create_app\<close> makes of a fixed text: that text signs anybody in as any such account.
\<close>

definition dummy_password :: string where "dummy_password = ''invalid-password-for-timing-only''"

lemma dummy_password_signs_in:
  assumes "crypto_law C" "hash_password C salt dummy_password = Inr (si_dummy_hash cf)"
    and "normalize_email email = Some n" "get_user_by_email n (st_accounts s) = Some u" "\<not> truthy (ac_password u)"
    and "require_csrf csrf sess = None" "\<not> limited cf (vi_now v) (login_throttle_keys C (si_secret cf) n (vi_source v)) s"
    and "\<not> needs_second u s"
  shows "se_user (fst (snd (login C cf email dummy_password csrf v sess s))) = Some (us_id u)"
proof -
  have "py_or (ac_password u) (Some (si_dummy_hash cf)) = Some (si_dummy_hash cf)" using assms(5) by (simp add: py_or_def)
  moreover have "verify_password C dummy_password (Some (si_dummy_hash cf))" by (rule password_verifies(2) [OF assms(1,2)])
  ultimately show ?thesis using assms(3-8) by (simp add: login_def Let_def needs_second_def)
qed

text \<open>
  The page that sets up the second factor shows the secret of an account that has one: who knows only the password can read
  the secret there and show a code made of it.
\<close>

lemma setup_page_shows_secret:
  assumes "preauth_user sess s = Inr u" "ac_totp u = Some secret" "secret \<noteq> []"
  shows "two_factor_setup_page raw v sess s = (s, with_csrf (vi_draw v) sess, Page 200 ''two_factor_setup.html'' [secret, provisioning_uri u secret])"
  using assms by (simp add: two_factor_setup_page_def Let_def truthy_iff)

lemma secret_makes_codes:
  assumes "ac_totp u = Some (generate_totp_secret raw)" "length raw = 20" "30 \<le> now div usec_per_second" "now div usec_per_second < 2 ^ 64"
  shows "code_accepted C u (hotp C raw (now div usec_per_second div 30)) now = Inr True"
proof -
  let ?c = "hotp C raw (now div usec_per_second div 30)"
  have "strip ?c = ?c" by (rule strip_digits [OF hotp_shape(2)])
  then show ?thesis using totp_tolerance [OF assms(2) _ assms(3,4), of "now div usec_per_second" C] by (simp add: code_accepted_def assms(1))
qed

text \<open>An invitation signs a member in without a second factor, also when the policy asks for one.\<close>

lemma invitation_skips_second_factor:
  assumes "accept_invite C token password confirm csrf salt v sess s = (s', sess', Redirect ''/'')" "require_csrf csrf sess = None"
  shows "se_user sess' \<noteq> None \<and> se_preauth sess' = None"
  using assms by (auto simp: accept_invite_def Let_def empty_session_def split: if_splits sum.splits option.splits)

subsection \<open>Examples\<close>

definition first_site :: site where
  "first_site = \<lparr>st_accounts = first_accounts, st_attempts = [], st_assertions = [], st_audit = [], st_two_factor = False,
     st_provider = ''OpenID Connect'', st_domain = ''x''\<rparr>"

definition sample_env :: site_env where
  "sample_env = \<lparr>en_crypto = plain_crypto, en_settings = \<lparr>si_identity_limit = 5, si_source_limit = 20, si_window_minutes = 15, si_invitation_hours = 72,
     si_secret = ''k'', si_dummy_hash = []\<rparr>, en_oidc = True, en_saml = False, en_logout_url = (\<lambda>u. []), en_deliver = (\<lambda>e t. Inr True)\<rparr>"

definition first_world :: world where "first_world = \<lparr>wo_site = first_site, wo_cookies = []\<rparr>"

definition owner_visit :: event where
  "owner_visit = Visit 0 (Oidc_Callback (Inr \<lparr>id_email = ''o@x'', id_issuer = ''p'', id_subject = ''s''\<rparr>)) \<lparr>vi_source = ''h'', vi_draw = ''c'', vi_now = 0\<rparr>"

lemma owner_signed_in: "\<exists>c\<in>set (wo_cookies (run_world sample_env [owner_visit] first_world)). se_user c = Some ''u0''"
proof -
  have "normalize_email ''o@x'' = Some ''o@x''" by code_simp
  moreover have "domain_of ''o@x'' = ''x''" "required_domain first_site = ''x''" "str_lower ''o@x'' = ''o@x''" "str_lower (strip ''o@x'') = ''o@x''" by code_simp+
  moreover have "get_user_by_sso_identity ''p'' ''s'' first_accounts = None" by code_simp
  moreover have "get_user_by_email ''o@x'' first_accounts = Some (new_account ''u0'' ''o@x'' Admin True 0)" by code_simp
  moreover have "\<exists>a. link_sso_identity ''u0'' ''p'' ''s'' first_accounts = Inr a"
    by (simp add: link_sso_identity_def first_accounts_def new_account_def get_user_def put_accounts_def accounts_unique_def linked_def update_where_def)
  ultimately show ?thesis
    by (auto simp: run_world_def owner_visit_def first_world_def sample_env_def oidc_callback_def sso_user_def finish_sso_login_def Let_def
        needs_second_def new_account_def) (simp_all add: first_site_def finish_sso_login_def needs_second_def empty_session_def Let_def cookie_def)
qed

lemma signed_in_is_proved_witness:
  "happened (came_invited sample_env first_world ''u0'') [owner_visit] \<or> happened (proved_alone sample_env first_world ''u0'') [owner_visit]
    \<or> happened (proved_second sample_env first_world ''u0'') [owner_visit]"
proof -
  obtain c where "c \<in> set (wo_cookies (run_world sample_env [owner_visit] first_world))" "se_user c = Some ''u0''" using owner_signed_in by blast
  moreover have "wo_cookies first_world = []" by (simp add: first_world_def)
  ultimately show ?thesis using signed_in_is_proved [of first_world c sample_env "[owner_visit]" "''u0''"] by blast
qed

end
