(* ===== verification/Worklog_Exports.thy ===== *)
theory Worklog_Exports
  imports Team_Invoices Agent_Windows "HOL-Library.Product_Lexorder"
begin

section \<open>Time for Jira: the outbox of worklogs\<close>

text \<open>
  The export of recorded time to Jira in \<open>api/repositories/integrations.py\<close>: the days on which the work of a task changed
  become rows of an outbox, one per member, task and day (\<open>stage_due_jira_worklogs\<close>), which processes of the service claim
  (\<open>claim_due_jira_worklog_exports\<close>), renew, and mark as synchronised or failed.  The tables are a record; the id of a new
  row is a function of its day, since the code draws a random one.  A connection without a next synchronisation has
  \<open>None\<close>.  The bounds on times with a time zone and the syntax of tokens are left out.
\<close>

record integration_row =
  ig_id :: uuid
  ig_provider :: string
  ig_enabled :: bool

record jira_connection =
  jc_integration :: uuid
  jc_user :: uuid
  jc_account :: string
  jc_mode :: string
  jc_enabled :: bool
  jc_next_sync :: "timestamp option"
  jc_last_sync :: "timestamp option"
  jc_error :: string
  jc_updated :: timestamp

record dirty_day =
  dd_integration :: uuid
  dd_user :: uuid
  dd_task :: uuid
  dd_date :: date
  dd_changed :: timestamp

record auth_period =
  ap_integration :: uuid
  ap_user :: uuid
  ap_account :: string
  ap_started :: timestamp
  ap_ended :: "timestamp option"

record export_row =
  ep_id :: uuid
  ep_integration :: uuid
  ep_user :: uuid
  ep_task :: uuid
  ep_date :: date
  ep_account :: string
  ep_desired :: int
  ep_desired_started :: "timestamp option"
  ep_synced :: "int option"
  ep_synced_started :: "timestamp option"
  ep_provider :: "string option"
  ep_attempts :: int
  ep_next :: timestamp
  ep_token :: "string option"
  ep_until :: "timestamp option"
  ep_error :: string
  ep_created :: timestamp
  ep_updated :: timestamp
  ep_synced_at :: "timestamp option"

record export_db =
  xd_exports :: "export_row list"
  xd_dirty :: "dirty_day list"
  xd_connections :: "jira_connection list"
  xd_periods :: "auth_period list"
  xd_integrations :: "integration_row list"
  xd_issue_keys :: "(uuid \<times> string) list"
  xd_work :: db

subsection \<open>Staging\<close>

definition midnight :: "date \<Rightarrow> timestamp" where "midnight d = combine d 0"

definition mode_due :: "string \<Rightarrow> date \<Rightarrow> timestamp \<Rightarrow> bool" where
  "mode_due mode d observed_at \<longleftrightarrow>
     (mode = ''hourly'' \<and> d \<le> date_of observed_at) \<or> (mode = ''daily'' \<and> d < date_of observed_at)
     \<or> (mode = ''delayed'' \<and> d < date_of observed_at - 1)"

text \<open>The part of an interval inside an authorization and a day: its seconds, rounded, and its start.\<close>

definition before_end :: "timestamp \<Rightarrow> timestamp option \<Rightarrow> bool" where
  "before_end t e = (case e of None \<Rightarrow> True | Some x \<Rightarrow> t < x)"

definition earlier_end :: "timestamp \<Rightarrow> timestamp option \<Rightarrow> timestamp" where
  "earlier_end t e = (case e of None \<Rightarrow> t | Some x \<Rightarrow> min t x)"

definition clipped :: "date \<Rightarrow> auth_period \<Rightarrow> timestamp \<Rightarrow> timestamp \<Rightarrow> (int \<times> timestamp) list" where
  "clipped d p a b =
     (let first = midnight d; next = midnight (d + 1)
      in if a < next \<and> before_end a (ap_ended p) \<and> max (ap_started p) first < b
         then (let s = max a (max (ap_started p) first); e = min (earlier_end b (ap_ended p)) next in [(epoch_integer (e - s), s)])
         else [])"

definition own_periods :: "dirty_day \<Rightarrow> string \<Rightarrow> export_db \<Rightarrow> auth_period list" where
  "own_periods d account x = filter (\<lambda>p. ap_integration p = dd_integration d \<and> ap_user p = dd_user d \<and> ap_account p = account) (xd_periods x)"

definition work_entries :: "dirty_day \<Rightarrow> string \<Rightarrow> export_db \<Rightarrow> (int \<times> timestamp) list" where
  "work_entries d account x =
     filter (\<lambda>(n, s). 0 < n)
      (concat (map (\<lambda>w. concat (map (\<lambda>g. case sg_ended g of None \<Rightarrow> []
            | Some e \<Rightarrow> concat (map (\<lambda>p. clipped (dd_date d) p (sg_started g) e) (own_periods d account x)))
          (filter (\<lambda>g. sg_session g = ws_id w) (segments (xd_work x)))))
        (filter (\<lambda>w. ws_user w = Some (dd_user d) \<and> ws_task w = Some (dd_task d)) (sessions (xd_work x))))
       @ concat (map (\<lambda>m. concat (map (\<lambda>p. clipped (dd_date d) p (me_started m) (me_ended m)) (own_periods d account x)))
        (filter (\<lambda>m. me_user m = dd_user d \<and> me_task m = Some (dd_task d) \<and> me_status m = ''approved'') (manual_entries (xd_work x)))))"

definition desired_time :: "dirty_day \<Rightarrow> string \<Rightarrow> export_db \<Rightarrow> int \<times> timestamp option" where
  "desired_time d account x =
     (let es = work_entries d account x; n = min (sum_list (map fst es)) 2147483647
      in (n, if 0 < n then Some (Min (set (map snd es))) else None))"

definition same_key :: "dirty_day \<Rightarrow> export_row \<Rightarrow> bool" where
  "same_key d e \<longleftrightarrow> ep_integration e = dd_integration d \<and> ep_user e = dd_user d \<and> ep_task e = dd_task d \<and> ep_date e = dd_date d"

text \<open>The \<open>INSERT ... ON CONFLICT\<close> for one day, with whether it wrote a row.\<close>

definition stage_day :: "timestamp \<Rightarrow> uuid \<Rightarrow> string \<Rightarrow> dirty_day \<Rightarrow> export_db \<Rightarrow> export_db \<times> bool" where
  "stage_day observed_at new_id account d x =
     (case desired_time d account x of (n, s) \<Rightarrow>
       case find (same_key d) (xd_exports x) of
         None \<Rightarrow>
           if 0 < n then
             (x\<lparr>xd_exports := xd_exports x @ [\<lparr>ep_id = new_id, ep_integration = dd_integration d, ep_user = dd_user d, ep_task = dd_task d,
                ep_date = dd_date d, ep_account = account, ep_desired = n, ep_desired_started = s, ep_synced = None, ep_synced_started = None,
                ep_provider = None, ep_attempts = 0, ep_next = observed_at, ep_token = None, ep_until = None, ep_error = [],
                ep_created = observed_at, ep_updated = observed_at, ep_synced_at = None\<rparr>]\<rparr>, True)
           else (x, False)
       | Some e \<Rightarrow>
           if ep_account e = account \<and> (ep_desired e, ep_desired_started e) \<noteq> (n, s) then
             (x\<lparr>xd_exports := update_where (same_key d) (\<lambda>e. e\<lparr>ep_desired := n, ep_desired_started := s, ep_next := min (ep_next e) observed_at,
                ep_updated := observed_at, ep_error := []\<rparr>) (xd_exports x)\<rparr>, True)
           else (x, False))"

fun stage_days :: "timestamp \<Rightarrow> (dirty_day \<Rightarrow> uuid) \<Rightarrow> string \<Rightarrow> dirty_day list \<Rightarrow> export_db \<Rightarrow> export_db \<times> nat" where
  "stage_days observed_at new_id account [] x = (x, 0)"
| "stage_days observed_at new_id account (d # ds) x =
     (case stage_day observed_at (new_id d) account d x of (x1, wrote) \<Rightarrow>
       case stage_days observed_at new_id account ds x1 of (x2, n) \<Rightarrow> (x2, if wrote then Suc n else n))"

definition due_days :: "timestamp \<Rightarrow> jira_connection \<Rightarrow> export_db \<Rightarrow> dirty_day list" where
  "due_days observed_at c x =
     filter (\<lambda>d. dd_integration d = jc_integration c \<and> dd_user d = jc_user c \<and> mode_due (jc_mode c) (dd_date d) observed_at) (xd_dirty x)"

definition next_worklog_sync :: "timestamp \<Rightarrow> jira_connection \<Rightarrow> bool \<Rightarrow> timestamp" where
  "next_worklog_sync observed_at c remaining =
     (if remaining then observed_at else if jc_mode c = ''hourly'' then observed_at + seconds 3600
      else midnight (date_of observed_at + 1))"

definition stage_connection :: "timestamp \<Rightarrow> nat \<Rightarrow> (dirty_day \<Rightarrow> uuid) \<Rightarrow> jira_connection \<Rightarrow> export_db \<Rightarrow> export_db \<times> nat" where
  "stage_connection observed_at day_limit new_id c x =
     (let selected = take day_limit (sort_key (\<lambda>d. (dd_date d, dd_changed d, dd_task d)) (due_days observed_at c x))
      in case stage_days observed_at new_id (jc_account c) selected x of (x1, n) \<Rightarrow>
         let x2 = x1\<lparr>xd_dirty := delete_where (\<lambda>d. exists_row (\<lambda>s. dd_integration d = dd_integration s \<and> dd_user d = dd_user s
                       \<and> dd_task d = dd_task s \<and> dd_date d = dd_date s) selected) (xd_dirty x1)\<rparr>;
             remaining = due_days observed_at c x2 \<noteq> []
         in (x2\<lparr>xd_connections := update_where (\<lambda>k. jc_integration k = jc_integration c \<and> jc_user k = jc_user c)
               (\<lambda>k. k\<lparr>jc_next_sync := Some (next_worklog_sync observed_at k remaining), jc_updated := observed_at\<rparr>) (xd_connections x2)\<rparr>, n))"

fun stage_connections :: "timestamp \<Rightarrow> nat \<Rightarrow> (dirty_day \<Rightarrow> uuid) \<Rightarrow> jira_connection list \<Rightarrow> export_db \<Rightarrow> export_db \<times> nat" where
  "stage_connections observed_at day_limit new_id [] x = (x, 0)"
| "stage_connections observed_at day_limit new_id (c # cs) x =
     (case stage_connection observed_at day_limit new_id c x of (x1, n) \<Rightarrow>
       case stage_connections observed_at day_limit new_id cs x1 of (x2, m) \<Rightarrow> (x2, n + m))"

definition jira_enabled :: "uuid \<Rightarrow> export_db \<Rightarrow> bool" where
  "jira_enabled i x \<longleftrightarrow> exists_row (\<lambda>g. ig_id g = i \<and> ig_provider g = ''jira'' \<and> ig_enabled g) (xd_integrations x)"

definition member_enabled :: "uuid \<Rightarrow> export_db \<Rightarrow> bool" where
  "member_enabled u x \<longleftrightarrow> exists_row (\<lambda>m. us_id m = u \<and> us_enabled m) (users (xd_work x))"

definition stage_due_jira_worklogs :: "timestamp \<Rightarrow> int \<Rightarrow> int \<Rightarrow> (dirty_day \<Rightarrow> uuid) \<Rightarrow> export_db \<Rightarrow> error + (export_db \<times> nat)" where
  "stage_due_jira_worklogs observed_at connection_limit day_limit new_id x =
     (if connection_limit < 1 \<or> 100 < connection_limit \<or> day_limit < 1 \<or> 1000 < day_limit then
        Inl (ValueError ''Invalid Jira worklog staging limit'')
      else
        let cs = take (nat connection_limit) (sort_key (\<lambda>c. (the (jc_next_sync c), jc_integration c, jc_user c))
              (filter (\<lambda>c. jc_enabled c \<and> jc_mode c \<noteq> ''off'' \<and> (case jc_next_sync c of None \<Rightarrow> False | Some t \<Rightarrow> t \<le> observed_at)
                 \<and> jira_enabled (jc_integration c) x \<and> member_enabled (jc_user c) x) (xd_connections x)))
        in Inr (stage_connections observed_at (nat day_limit) new_id cs x))"

subsection \<open>Claims\<close>

definition pending :: "export_row \<Rightarrow> bool" where
  "pending e \<longleftrightarrow> (ep_synced e, ep_synced_started e) \<noteq> (Some (ep_desired e), ep_desired_started e)"

definition unclaimed :: "timestamp \<Rightarrow> export_row \<Rightarrow> bool" where
  "unclaimed observed_at e \<longleftrightarrow> (case ep_until e of None \<Rightarrow> True | Some u \<Rightarrow> u \<le> observed_at)"

definition connection_of :: "export_row \<Rightarrow> export_db \<Rightarrow> jira_connection option" where
  "connection_of e x = find (\<lambda>c. jc_integration c = ep_integration e \<and> jc_user c = ep_user e) (xd_connections x)"

record claimed_export =
  ce_row :: export_row
  ce_issue :: "string option"
  ce_connected :: string

definition export_due :: "timestamp \<Rightarrow> export_db \<Rightarrow> export_row \<Rightarrow> bool" where
  "export_due observed_at x e \<longleftrightarrow> jira_enabled (ep_integration e) x
     \<and> (case connection_of e x of None \<Rightarrow> False | Some c \<Rightarrow> jc_enabled c \<and> jc_mode c \<noteq> ''off'')
     \<and> member_enabled (ep_user e) x \<and> ep_next e \<le> observed_at \<and> unclaimed observed_at e \<and> pending e"

definition claim_due_jira_worklog_exports ::
  "timestamp \<Rightarrow> string \<Rightarrow> int \<Rightarrow> int \<Rightarrow> export_db \<Rightarrow> error + (export_db \<times> claimed_export list)" where
  "claim_due_jira_worklog_exports observed_at claim_token limit lease_seconds x =
     (if limit < 1 \<or> 100 < limit \<or> lease_seconds < 30 \<or> 600 < lease_seconds then Inl (ValueError ''Invalid Jira worklog claim limit'')
      else
        let due = map ep_id (take (nat limit) (sort_key (\<lambda>e. (ep_next e, ep_updated e, ep_id e)) (filter (export_due observed_at x) (xd_exports x))));
            x1 = x\<lparr>xd_exports := update_where (\<lambda>e. ep_id e \<in> set due)
                  (\<lambda>e. e\<lparr>ep_token := Some claim_token, ep_until := Some (observed_at + seconds lease_seconds), ep_updated := observed_at\<rparr>) (xd_exports x)\<rparr>
        in Inr (x1, map (\<lambda>e. \<lparr>ce_row = e, ce_issue = map_of (xd_issue_keys x) (ep_task e),
                 ce_connected = (case connection_of e x of None \<Rightarrow> [] | Some c \<Rightarrow> jc_account c)\<rparr>)
              (filter (\<lambda>e. ep_id e \<in> set due) (xd_exports x1))))"

definition held_by :: "uuid \<Rightarrow> string \<Rightarrow> export_row \<Rightarrow> bool" where
  "held_by i claim_token e \<longleftrightarrow> ep_id e = i \<and> ep_token e = Some claim_token"

definition note_connection :: "uuid \<Rightarrow> (jira_connection \<Rightarrow> jira_connection) \<Rightarrow> export_db \<Rightarrow> export_db" where
  "note_connection i f x =
     x\<lparr>xd_connections := update_where (\<lambda>c. exists_row (\<lambda>e. ep_id e = i \<and> jc_integration c = ep_integration e \<and> jc_user c = ep_user e) (xd_exports x))
        f (xd_connections x)\<rparr>"

definition mark_jira_worklog_export_succeeded ::
  "uuid \<Rightarrow> string \<Rightarrow> string option \<Rightarrow> int \<Rightarrow> timestamp option \<Rightarrow> timestamp \<Rightarrow> export_db \<Rightarrow> export_db \<times> bool" where
  "mark_jira_worklog_export_succeeded export_id claim_token provider_id synced_seconds synced_started_at observed_at x =
     (let n = rowcount (held_by export_id claim_token) (xd_exports x);
          x1 = x\<lparr>xd_exports := update_where (held_by export_id claim_token)
             (\<lambda>e. e\<lparr>ep_provider := provider_id, ep_synced := Some synced_seconds, ep_synced_started := synced_started_at, ep_attempts := 0,
                ep_next := observed_at, ep_token := None, ep_until := None, ep_error := [], ep_synced_at := Some observed_at, ep_updated := observed_at\<rparr>)
             (xd_exports x)\<rparr>
      in (if n = 1 then note_connection export_id (\<lambda>c. c\<lparr>jc_last_sync := Some observed_at, jc_error := [], jc_updated := observed_at\<rparr>) x1 else x1, n = 1))"

definition renew_jira_worklog_export_claim :: "uuid \<Rightarrow> string \<Rightarrow> timestamp \<Rightarrow> int \<Rightarrow> export_db \<Rightarrow> error + (export_db \<times> bool)" where
  "renew_jira_worklog_export_claim export_id claim_token observed_at lease_seconds x =
     (if lease_seconds < 30 \<or> 600 < lease_seconds then Inl (ValueError ''Invalid Jira worklog claim lease'')
      else Inr (x\<lparr>xd_exports := update_where (held_by export_id claim_token)
                  (\<lambda>e. e\<lparr>ep_until := Some (observed_at + seconds lease_seconds), ep_updated := observed_at\<rparr>) (xd_exports x)\<rparr>,
                rowcount (held_by export_id claim_token) (xd_exports x) = 1))"

text \<open>\<open>re.sub(r"[^a-z0-9_]", "_", code.lower())[:64]\<close>.\<close>

definition safe_code :: "string \<Rightarrow> string" where
  "safe_code s = take 64 (map (\<lambda>c. if ascii_digit c \<or> (97 \<le> code c \<and> code c \<le> 122) \<or> c = CHR ''_'' then c else CHR ''_'') (str_lower s))"

definition mark_jira_worklog_export_failed :: "uuid \<Rightarrow> string \<Rightarrow> timestamp \<Rightarrow> string \<Rightarrow> int \<Rightarrow> export_db \<Rightarrow> export_db \<times> bool" where
  "mark_jira_worklog_export_failed export_id claim_token observed_at error_code retry_seconds x =
     (let n = rowcount (held_by export_id claim_token) (xd_exports x); retry = min (max retry_seconds 30) 21600;
          x1 = x\<lparr>xd_exports := update_where (held_by export_id claim_token)
             (\<lambda>e. e\<lparr>ep_attempts := ep_attempts e + 1, ep_next := observed_at + seconds retry, ep_token := None, ep_until := None,
                ep_error := safe_code error_code, ep_updated := observed_at\<rparr>) (xd_exports x)\<rparr>
      in (if n = 1 then note_connection export_id (\<lambda>c. c\<lparr>jc_error := safe_code error_code, jc_updated := observed_at\<rparr>) x1 else x1, n = 1))"

end
