(* ===== verification/Worklog_Delivery.thy ===== *)
theory Worklog_Delivery
  imports Worklog_Exports
begin

section \<open>Time for Jira: the delivery of a row\<close>

text \<open>
  The delivery of one claimed row in \<open>api/services/jira_integration.py\<close> (\<open>_deliver_claimed_worklog\<close> and the search for
  a worklog that an earlier attempt left), as actions on the worklogs of the site with the errors of the code, and before and after
  conditions for them: an attempt leaves at most one worklog of the row and all others alone.
\<close>

subsection \<open>Requests\<close>

text \<open>
  The worklogs of a Jira site, and how its requests and the renewals of the claim turn out.  A request succeeds, is lost before
  the site has it, or its answer is lost after the site has carried it out, or the site refuses it.  Other replicas show only
  in the renewals: \<open>False\<close> is a claim that another one has taken over.  The lists of outcomes run out into success.
\<close>

record worklog =
  wl_id :: string
  wl_issue :: string
  wl_author :: string
  wl_export :: "uuid option"
  wl_started :: timestamp
  wl_seconds :: int

datatype outcome = Fine | Request_Lost | Answer_Lost | Refused string int

record delivery =
  dl_worklogs :: "worklog list"
  dl_outcomes :: "outcome list"
  dl_renewals :: "bool list"

record jira_error =
  je_code :: string
  je_retry :: int

type_synonym 'a act = "delivery \<Rightarrow> delivery \<times> (jira_error + 'a)"

definition jira_error_of :: "string \<Rightarrow> int \<Rightarrow> jira_error" where
  "jira_error_of err retry = \<lparr>je_code = err, je_retry = min (max retry 30) 21600\<rparr>"

definition give :: "'a \<Rightarrow> 'a act" where "give a s = (s, Inr a)"

definition raise :: "string \<Rightarrow> int \<Rightarrow> 'a act" where "raise err retry s = (s, Inl (jira_error_of err retry))"

definition and_then :: "'a act \<Rightarrow> ('a \<Rightarrow> 'b act) \<Rightarrow> 'b act" where
  "and_then m f s = (case m s of (s', r) \<Rightarrow> (case r of Inl e \<Rightarrow> (s', Inl e) | Inr a \<Rightarrow> f a s'))"

definition renew_worklog_claim :: "unit act" where
  "renew_worklog_claim s =
     (case dl_renewals s of
        [] \<Rightarrow> (s, Inr ())
      | ok # oks \<Rightarrow> (s\<lparr>dl_renewals := oks\<rparr>, if ok then Inr () else Inl (jira_error_of ''worklog_claim_lost'' 30)))"

definition request :: "(worklog list \<Rightarrow> worklog list \<times> 'a) \<Rightarrow> 'a act" where
  "request f s =
     (let s1 = s\<lparr>dl_outcomes := tl (dl_outcomes s)\<rparr>; carried = f (dl_worklogs s)
      in case dl_outcomes s of
           Request_Lost # os \<Rightarrow> (s1, Inl (jira_error_of ''jira_unavailable'' 300))
         | Answer_Lost # os \<Rightarrow> (s1\<lparr>dl_worklogs := fst carried\<rparr>, Inl (jira_error_of ''jira_unavailable'' 300))
         | Refused err retry # os \<Rightarrow> (s1, Inl (jira_error_of err retry))
         | _ \<Rightarrow> (s1\<lparr>dl_worklogs := fst carried\<rparr>, Inr (snd carried)))"

text \<open>The requests on the worklogs of an issue, with the status they answer; \<open>given\<close> is the id the site gives to a new one.\<close>

record worklog_body =
  bd_export :: uuid
  bd_started :: timestamp
  bd_seconds :: int

definition put_worklog :: "string \<Rightarrow> string \<Rightarrow> worklog_body \<Rightarrow> worklog list \<Rightarrow> worklog list \<times> int" where
  "put_worklog issue i b ws =
     (let p = (\<lambda>w. wl_id w = i \<and> wl_issue w = issue)
      in if exists_row p ws then (update_where p (\<lambda>w. w\<lparr>wl_export := Some (bd_export b), wl_started := bd_started b, wl_seconds := bd_seconds b\<rparr>) ws, 200)
         else (ws, 404))"

definition delete_worklog :: "string \<Rightarrow> string \<Rightarrow> worklog list \<Rightarrow> worklog list \<times> int" where
  "delete_worklog issue i ws =
     (let p = (\<lambda>w. wl_id w = i \<and> wl_issue w = issue) in if exists_row p ws then (delete_where p ws, 204) else (ws, 404))"

definition post_worklog :: "string \<Rightarrow> string \<Rightarrow> string \<Rightarrow> worklog_body \<Rightarrow> worklog list \<Rightarrow> worklog list \<times> string" where
  "post_worklog given issue author b ws =
     (ws @ [\<lparr>wl_id = given, wl_issue = issue, wl_author = author, wl_export = Some (bd_export b), wl_started = bd_started b, wl_seconds = bd_seconds b\<rparr>],
      given)"

definition digit19 :: "char \<Rightarrow> bool" where "digit19 c \<longleftrightarrow> ascii_digit c \<and> c \<noteq> CHR ''0''"

definition valid_worklog_id :: "string \<Rightarrow> bool" where
  "valid_worklog_id s \<longleftrightarrow> s \<noteq> [] \<and> length s \<le> 20 \<and> digit19 (hd s) \<and> list_all ascii_digit s"

definition ascii_letter :: "char \<Rightarrow> bool" where
  "ascii_letter c \<longleftrightarrow> (65 \<le> code c \<and> code c \<le> 90) \<or> (97 \<le> code c \<and> code c \<le> 122)"

definition valid_issue_key :: "string \<Rightarrow> bool" where
  "valid_issue_key s \<longleftrightarrow>
     (case split_on CHR ''-'' s of
        [k, n] \<Rightarrow> k \<noteq> [] \<and> ascii_letter (hd k) \<and> length k \<le> 50 \<and> list_all (\<lambda>c. ascii_letter c \<or> ascii_digit c \<or> c = CHR ''_'') k
          \<and> n \<noteq> [] \<and> digit19 (hd n) \<and> length n \<le> 20 \<and> list_all ascii_digit n
      | _ \<Rightarrow> False)"

text \<open>The start of a worklog has no fraction of a second.\<close>

definition worklog_body_of :: "export_row \<Rightarrow> worklog_body act" where
  "worklog_body_of e =
     (if ep_desired e < 1 \<or> 2147483647 < ep_desired e then raise ''invalid_worklog'' 300
      else case ep_desired_started e of
        None \<Rightarrow> raise ''invalid_response'' 300
      | Some t \<Rightarrow> give \<lparr>bd_export = ep_id e, bd_started = t - t mod usec_per_second, bd_seconds = ep_desired e\<rparr>)"

text \<open>\<open>_find_export_worklog\<close>: the site pages the worklogs of the issue that start on the day.\<close>

definition day_worklogs :: "string \<Rightarrow> date \<Rightarrow> worklog list \<Rightarrow> worklog list" where
  "day_worklogs issue d ws = filter (\<lambda>w. wl_issue w = issue \<and> midnight d \<le> wl_started w \<and> wl_started w < midnight (d + 1)) ws"

definition property_of :: "string \<Rightarrow> string \<Rightarrow> worklog list \<Rightarrow> worklog list \<times> uuid option" where
  "property_of issue i ws = (ws, case find (\<lambda>w. wl_id w = i \<and> wl_issue w = issue) ws of None \<Rightarrow> None | Some w \<Rightarrow> wl_export w)"

fun scan_page :: "export_row \<Rightarrow> string \<Rightarrow> worklog list \<Rightarrow> string list \<Rightarrow> string list act" where
  "scan_page e issue [] matches = give matches"
| "scan_page e issue (w # ws) matches =
     (if \<not> valid_worklog_id (wl_id w) then raise ''invalid_response'' 300
      else if wl_author w \<noteq> ep_account e \<or> wl_export w = None then scan_page e issue ws matches
      else and_then renew_worklog_claim (\<lambda>_.
           and_then (request (property_of issue (wl_id w))) (\<lambda>v.
           scan_page e issue ws (if v = Some (ep_id e) then matches @ [wl_id w] else matches))))"

fun scan_pages :: "export_row \<Rightarrow> string \<Rightarrow> worklog list list \<Rightarrow> string list \<Rightarrow> string list act" where
  "scan_pages e issue [] matches = give matches"
| "scan_pages e issue (pg # pgs) matches =
     and_then renew_worklog_claim (\<lambda>_.
     and_then (request (\<lambda>ws. (ws, ()))) (\<lambda>_.
     and_then (scan_page e issue pg matches) (\<lambda>ms. scan_pages e issue pgs ms)))"

definition max_worklogs_per_day :: nat where "max_worklogs_per_day = 10000"

definition find_export_worklog :: "(worklog list \<Rightarrow> worklog list list) \<Rightarrow> export_row \<Rightarrow> string \<Rightarrow> string option act" where
  "find_export_worklog paging e issue s =
     (let day = day_worklogs issue (ep_date e) (dl_worklogs s)
      in if max_worklogs_per_day < length day then
           and_then renew_worklog_claim (\<lambda>_. and_then (request (\<lambda>ws. (ws, ()))) (\<lambda>_. raise ''invalid_response'' 300)) s
         else and_then (scan_pages e issue (paging day) []) (\<lambda>ms.
           case remdups ms of [] \<Rightarrow> give None | [m] \<Rightarrow> give (Some m) | _ \<Rightarrow> raise ''duplicate_worklogs'' 3600) s)"

definition create_worklog :: "string \<Rightarrow> export_row \<Rightarrow> string \<Rightarrow> (string option \<times> int \<times> timestamp option) act" where
  "create_worklog given e issue =
     and_then renew_worklog_claim (\<lambda>_.
     and_then (worklog_body_of e) (\<lambda>b.
     and_then (request (post_worklog given issue (ep_account e) b)) (\<lambda>i.
       if valid_worklog_id i then give (Some i, ep_desired e, ep_desired_started e) else raise ''invalid_response'' 300)))"

definition update_worklog :: "export_row \<Rightarrow> string \<Rightarrow> string \<Rightarrow> int act" where
  "update_worklog e issue i =
     and_then renew_worklog_claim (\<lambda>_. and_then (worklog_body_of e) (\<lambda>b. request (put_worklog issue i b)))"

definition recover_worklog ::
  "string \<Rightarrow> (worklog list \<Rightarrow> worklog list list) \<Rightarrow> export_row \<Rightarrow> string \<Rightarrow> (string option \<times> int \<times> timestamp option) act" where
  "recover_worklog given paging e issue =
     and_then (find_export_worklog paging e issue) (\<lambda>found.
       case found of
         None \<Rightarrow> create_worklog given e issue
       | Some i \<Rightarrow> and_then (update_worklog e issue i) (\<lambda>status.
           if status = 200 then give (Some i, ep_desired e, ep_desired_started e) else create_worklog given e issue))"

definition deliver_claimed_worklog ::
  "string \<Rightarrow> (worklog list \<Rightarrow> worklog list list) \<Rightarrow> bool \<Rightarrow> claimed_export \<Rightarrow> (string option \<times> int \<times> timestamp option) act" where
  "deliver_claimed_worklog given paging enabled c =
     (let e = ce_row c; issue = (case ce_issue c of None \<Rightarrow> [] | Some k \<Rightarrow> k)
      in and_then renew_worklog_claim (\<lambda>_.
         if \<not> enabled then raise ''not_found'' 300
         else if \<not> valid_issue_key issue then raise ''invalid_worklog'' 300
         else if ep_account e \<noteq> ce_connected c then raise ''identity_conflict'' 3600
         else if ep_desired e \<noteq> 0 \<and> ep_desired_started e = None then raise ''invalid_response'' 300
         else if ep_desired e = 0 then
           (case ep_provider e of
              None \<Rightarrow> give (None, 0, None)
            | Some i \<Rightarrow>
                if i = [] then give (None, 0, None)
                else and_then renew_worklog_claim (\<lambda>_. and_then (request (delete_worklog issue i)) (\<lambda>status. give (None, 0, None))))
         else (case ep_provider e of
              None \<Rightarrow> recover_worklog given paging e issue
            | Some i \<Rightarrow>
                if i = [] then recover_worklog given paging e issue
                else and_then (update_worklog e issue i) (\<lambda>status.
                  if status \<noteq> 404 then give (Some i, ep_desired e, ep_desired_started e) else recover_worklog given paging e issue))))"

subsection \<open>Before and after an action\<close>

text \<open>What holds of the worklogs after an action that succeeds, and after one that fails.\<close>

definition triple :: "(worklog list \<Rightarrow> bool) \<Rightarrow> 'a act \<Rightarrow> ('a \<Rightarrow> worklog list \<Rightarrow> bool) \<Rightarrow> (worklog list \<Rightarrow> bool) \<Rightarrow> bool" where
  "triple P m Q R \<longleftrightarrow> (\<forall>s s' r. P (dl_worklogs s) \<longrightarrow> m s = (s', r) \<longrightarrow>
     (case r of Inl e \<Rightarrow> R (dl_worklogs s') | Inr a \<Rightarrow> Q a (dl_worklogs s')))"

lemma tripleD: "triple P m Q R \<Longrightarrow> P (dl_worklogs s) \<Longrightarrow> m s = (s', r) \<Longrightarrow> (case r of Inl e \<Rightarrow> R (dl_worklogs s') | Inr a \<Rightarrow> Q a (dl_worklogs s'))"
  unfolding triple_def by blast

lemma triple_give: "(\<And>ws. P ws \<Longrightarrow> Q a ws) \<Longrightarrow> triple P (give a) Q R"
  by (auto simp: triple_def give_def)

lemma triple_raise: "(\<And>ws. P ws \<Longrightarrow> R ws) \<Longrightarrow> triple P (raise err retry) Q R"
  by (auto simp: triple_def raise_def)

lemma triple_then:
  assumes "triple P m M R" "\<And>a. triple (M a) (f a) Q R"
  shows "triple P (and_then m f) Q R"
proof -
  have "case r of Inl e \<Rightarrow> R (dl_worklogs s') | Inr a \<Rightarrow> Q a (dl_worklogs s')"
    if p: "P (dl_worklogs s)" and m: "and_then m f s = (s', r)" for s s' r
  proof -
    obtain s1 r1 where 1: "m s = (s1, r1)" by (cases "m s") auto
    note t = tripleD [OF assms(1) p 1]
    show ?thesis
    proof (cases r1)
      case (Inl e) with t m 1 show ?thesis by (auto simp: and_then_def)
    next
      case (Inr a)
      with m 1 have "f a s1 = (s', r)" by (simp add: and_then_def)
      moreover have "M a (dl_worklogs s1)" using t Inr by simp
      ultimately show ?thesis using tripleD [OF assms(2)] by blast
    qed
  qed
  then show ?thesis unfolding triple_def by blast
qed

lemma triple_weaken:
  assumes "triple P m Q R" "\<And>ws. P' ws \<Longrightarrow> P ws" "\<And>a ws. Q a ws \<Longrightarrow> Q' a ws" "\<And>ws. R ws \<Longrightarrow> R' ws"
  shows "triple P' m Q' R'"
proof -
  have "case r of Inl e \<Rightarrow> R' (dl_worklogs s') | Inr a \<Rightarrow> Q' a (dl_worklogs s')"
    if "P' (dl_worklogs s)" "m s = (s', r)" for s s' r
    using tripleD [OF assms(1) assms(2) [OF that(1)] that(2)] assms(3,4) by (auto split: sum.splits)
  then show ?thesis unfolding triple_def by blast
qed

lemma triple_if: "(b \<Longrightarrow> triple P m Q R) \<Longrightarrow> (\<not> b \<Longrightarrow> triple P n Q R) \<Longrightarrow> triple P (if b then m else n) Q R"
  by simp

lemma triple_renew: "(\<And>ws. P ws \<Longrightarrow> R ws) \<Longrightarrow> triple P renew_worklog_claim (\<lambda>_. P) R"
  by (auto simp: triple_def renew_worklog_claim_def split: list.splits)

lemma triple_request:
  assumes "\<And>ws. P ws \<Longrightarrow> R ws" "\<And>ws. P ws \<Longrightarrow> R (fst (f ws))" "\<And>ws. P ws \<Longrightarrow> Q (snd (f ws)) (fst (f ws))"
  shows "triple P (request f) Q R"
  using assms by (auto simp: triple_def request_def Let_def split: list.splits outcome.splits)

lemma triple_renewed: "triple P m Q R \<Longrightarrow> (\<And>ws. P ws \<Longrightarrow> R ws) \<Longrightarrow> triple P (and_then renew_worklog_claim (\<lambda>_. m)) Q R"
  by (rule triple_then [OF triple_renew]) auto

subsection \<open>One worklog for a row\<close>

definition mine :: "uuid \<Rightarrow> worklog \<Rightarrow> bool" where "mine i w \<longleftrightarrow> wl_export w = Some i"

text \<open>
  At most one worklog carries the identity of the row; it is of its issue, account and day.  The worklog the row names is that
  one, if it is still there, and all others are as they were.
\<close>

definition tidy :: "export_row \<Rightarrow> string \<Rightarrow> worklog list \<Rightarrow> worklog list \<Rightarrow> bool" where
  "tidy e issue os ws \<longleftrightarrow> distinct (map wl_id ws) \<and> filter (\<lambda>w. \<not> mine (ep_id e) w) ws = os \<and> length (filter (mine (ep_id e)) ws) \<le> 1
     \<and> (\<forall>w\<in>set ws. mine (ep_id e) w \<longrightarrow> valid_worklog_id (wl_id w) \<and> wl_issue w = issue \<and> wl_author w = ep_account e
          \<and> midnight (ep_date e) \<le> wl_started w \<and> wl_started w < midnight (ep_date e + 1))"

definition names_mine :: "export_row \<Rightarrow> string option \<Rightarrow> worklog list \<Rightarrow> bool" where
  "names_mine e p ws \<longleftrightarrow> (\<forall>w\<in>set ws. p = Some (wl_id w) \<longrightarrow> mine (ep_id e) w)"

definition paging_law :: "(worklog list \<Rightarrow> worklog list list) \<Rightarrow> bool" where
  "paging_law paging \<longleftrightarrow> (\<forall>ws. concat (paging ws) = ws \<and> paging ws \<noteq> [] \<and> list_all (\<lambda>pg. length pg \<le> 100) (paging ws))"

lemma property_of_self:
  assumes "distinct (map wl_id WS)" "w \<in> set WS" "wl_issue w = issue"
  shows "property_of issue (wl_id w) WS = (WS, wl_export w)"
proof -
  have "find (\<lambda>v. wl_id v = wl_id w \<and> wl_issue v = issue) WS = Some w"
    using assms
  proof (induction WS)
    case (Cons a WS) then show ?case by (cases "a = w") (auto simp: image_iff)
  qed simp
  then show ?thesis by (simp add: property_of_def)
qed

lemma scan_page_triple:
  assumes "distinct (map wl_id WS)" "set pg \<subseteq> set WS" "\<forall>w\<in>set pg. wl_issue w = issue"
  shows "triple (\<lambda>ws. ws = WS) (scan_page e issue pg ms)
    (\<lambda>r ws. ws = WS \<and> r = ms @ map wl_id (filter (\<lambda>w. wl_author w = ep_account e \<and> mine (ep_id e) w) pg)) (\<lambda>ws. ws = WS)"
  using assms
proof (induction pg arbitrary: ms)
  case Nil then show ?case by (auto intro: triple_give)
next
  case (Cons w pg)
  show ?case
  proof (cases "valid_worklog_id (wl_id w)")
    case False then show ?thesis by (auto intro: triple_raise)
  next
    case valid: True
    show ?thesis
    proof (cases "wl_author w \<noteq> ep_account e \<or> wl_export w = None")
      case True
      then have "\<not> (wl_author w = ep_account e \<and> mine (ep_id e) w)" by (auto simp: mine_def)
      then show ?thesis using Cons.IH [of ms] Cons.prems True valid by auto
    next
      case False
      have p: "property_of issue (wl_id w) WS = (WS, wl_export w)" using property_of_self [of WS w issue] Cons.prems by simp
      have "triple (\<lambda>ws. ws = WS) (request (property_of issue (wl_id w))) (\<lambda>v ws. ws = WS \<and> v = wl_export w) (\<lambda>ws. ws = WS)"
        by (rule triple_request) (auto simp: p)
      moreover have "triple (\<lambda>ws. ws = WS \<and> v = wl_export w) (scan_page e issue pg (if v = Some (ep_id e) then ms @ [wl_id w] else ms))
          (\<lambda>r ws. ws = WS \<and> r = ms @ map wl_id (filter (\<lambda>w. wl_author w = ep_account e \<and> mine (ep_id e) w) (w # pg))) (\<lambda>ws. ws = WS)" for v
      proof (cases "v = wl_export w")
        case True
        show ?thesis
          by (rule triple_weaken [OF Cons.IH [of "if v = Some (ep_id e) then ms @ [wl_id w] else ms"]])
            (use Cons.prems True False in \<open>auto simp: mine_def\<close>)
      next
        case False then show ?thesis by (auto simp: triple_def)
      qed
      ultimately have "triple (\<lambda>ws. ws = WS) (and_then (request (property_of issue (wl_id w))) (\<lambda>v.
           scan_page e issue pg (if v = Some (ep_id e) then ms @ [wl_id w] else ms)))
          (\<lambda>r ws. ws = WS \<and> r = ms @ map wl_id (filter (\<lambda>w. wl_author w = ep_account e \<and> mine (ep_id e) w) (w # pg))) (\<lambda>ws. ws = WS)"
        by (rule triple_then)
      then show ?thesis using valid False by (auto intro: triple_renewed)
    qed
  qed
qed

lemma scan_pages_triple:
  assumes "distinct (map wl_id WS)" "set (concat pgs) \<subseteq> set WS" "\<forall>w\<in>set (concat pgs). wl_issue w = issue"
  shows "triple (\<lambda>ws. ws = WS) (scan_pages e issue pgs ms)
    (\<lambda>r ws. ws = WS \<and> r = ms @ map wl_id (filter (\<lambda>w. wl_author w = ep_account e \<and> mine (ep_id e) w) (concat pgs))) (\<lambda>ws. ws = WS)"
  using assms
proof (induction pgs arbitrary: ms)
  case Nil then show ?case by (auto intro: triple_give)
next
  case (Cons pg pgs)
  have g: "triple (\<lambda>ws. ws = WS) (request (\<lambda>ws. (ws, ()))) (\<lambda>_ ws. ws = WS) (\<lambda>ws. ws = WS)" by (rule triple_request) auto
  have p: "triple (\<lambda>ws. ws = WS) (scan_page e issue pg ms)
      (\<lambda>r ws. ws = WS \<and> r = ms @ map wl_id (filter (\<lambda>w. wl_author w = ep_account e \<and> mine (ep_id e) w) pg)) (\<lambda>ws. ws = WS)"
    using Cons.prems by (intro scan_page_triple) auto
  have rest: "triple (\<lambda>ws. ws = WS \<and> r = ms @ map wl_id (filter (\<lambda>w. wl_author w = ep_account e \<and> mine (ep_id e) w) pg)) (scan_pages e issue pgs r)
      (\<lambda>r ws. ws = WS \<and> r = ms @ map wl_id (filter (\<lambda>w. wl_author w = ep_account e \<and> mine (ep_id e) w) (concat (pg # pgs)))) (\<lambda>ws. ws = WS)" for r
  proof (cases "r = ms @ map wl_id (filter (\<lambda>w. wl_author w = ep_account e \<and> mine (ep_id e) w) pg)")
    case True
    show ?thesis by (rule triple_weaken [OF Cons.IH [of r]]) (use Cons.prems True in auto)
  next
    case False then show ?thesis by (auto simp: triple_def)
  qed
  show ?case unfolding scan_pages.simps
    by (rule triple_renewed [OF triple_then [OF g triple_then [OF p rest]]]) simp
qed

text \<open>What an attempt keeps, and what a delivered row looks like at the site.\<close>

definition kept_tidy :: "export_row \<Rightarrow> string \<Rightarrow> worklog list \<Rightarrow> string set \<Rightarrow> worklog list \<Rightarrow> bool" where
  "kept_tidy e issue os is ws \<longleftrightarrow> tidy e issue os ws \<and> names_mine e (ep_provider e) ws \<and> wl_id ` set ws \<subseteq> is"

lemma kept_tidy_mono: "kept_tidy e issue os is ws \<Longrightarrow> is \<subseteq> js \<Longrightarrow> kept_tidy e issue os js ws"
  by (auto simp: kept_tidy_def)

definition delivered_as :: "export_row \<Rightarrow> string \<Rightarrow> worklog list \<Rightarrow> bool" where
  "delivered_as e i ws \<longleftrightarrow> (\<exists>w t. filter (mine (ep_id e)) ws = [w] \<and> wl_id w = i \<and> wl_seconds w = ep_desired e
     \<and> ep_desired_started e = Some t \<and> wl_started w = t - t mod usec_per_second)"

definition starts_on_day :: "export_row \<Rightarrow> bool" where
  "starts_on_day e \<longleftrightarrow> (case ep_desired_started e of None \<Rightarrow> True | Some t \<Rightarrow> midnight (ep_date e) \<le> t \<and> t < midnight (ep_date e + 1))"

lemma whole_seconds_on_day:
  assumes "midnight d \<le> t" "t < midnight (d + 1)"
  shows "midnight d \<le> t - t mod usec_per_second \<and> t - t mod usec_per_second < midnight (d + 1)"
proof -
  let ?k = "(d - epoch_ordinal) * 86400"
  have m: "midnight d = ?k * usec_per_second" by (simp add: midnight_def combine_def usec_per_day_def usec_per_second_def)
  have pos: "0 < usec_per_second" by (simp add: usec_per_second_def)
  have "?k = ?k * usec_per_second div usec_per_second" using pos by simp
  also have "\<dots> \<le> t div usec_per_second" using zdiv_mono1 [OF assms(1) [unfolded m] pos] .
  finally have "?k * usec_per_second \<le> t div usec_per_second * usec_per_second" using pos by (intro mult_right_mono) auto
  moreover have "t - t mod usec_per_second = t div usec_per_second * usec_per_second" by (rule minus_mod_eq_div_mult)
  moreover have "0 \<le> t mod usec_per_second" using pos by simp
  ultimately show ?thesis using m assms(2) by simp
qed

lemma filter_update_mine:
  assumes "\<And>w. w \<in> set ws \<Longrightarrow> p w \<Longrightarrow> m w \<and> m (f w)"
  shows "filter m (update_where p f ws) = update_where p f (filter m ws)" "filter (\<lambda>w. \<not> m w) (update_where p f ws) = filter (\<lambda>w. \<not> m w) ws"
  using assms by (induction ws) (auto simp: update_where_def)

lemma tidy_mine: "tidy e issue os ws \<Longrightarrow> w \<in> set ws \<Longrightarrow> mine (ep_id e) w \<Longrightarrow> filter (mine (ep_id e)) ws = [w]"
proof -
  assume t: "tidy e issue os ws" and w: "w \<in> set ws" "mine (ep_id e) w"
  then have "w \<in> set (filter (mine (ep_id e)) ws)" by simp
  moreover have "length (filter (mine (ep_id e)) ws) \<le> 1" using t by (simp add: tidy_def)
  ultimately show ?thesis by (cases "filter (mine (ep_id e)) ws") auto
qed

lemma put_tidy:
  assumes k: "kept_tidy e issue os is ws" and i: "names_mine e (Some i) ws" and b: "ep_desired_started e = Some t" and d: "starts_on_day e"
  defines "r \<equiv> put_worklog issue i \<lparr>bd_export = ep_id e, bd_started = t - t mod usec_per_second, bd_seconds = ep_desired e\<rparr> ws"
  shows "kept_tidy e issue os is (fst r)" "snd r = 200 \<Longrightarrow> delivered_as e i (fst r)" "snd r \<noteq> 200 \<Longrightarrow> snd r = 404"
proof -
  let ?p = "\<lambda>w. wl_id w = i \<and> wl_issue w = issue"
  let ?f = "\<lambda>w. w\<lparr>wl_export := Some (ep_id e), wl_started := t - t mod usec_per_second, wl_seconds := ep_desired e\<rparr>"
  have "kept_tidy e issue os is (fst r) \<and> (snd r = 200 \<longrightarrow> delivered_as e i (fst r)) \<and> (snd r \<noteq> 200 \<longrightarrow> snd r = 404)"
  proof (cases "exists_row ?p ws")
    case False then show ?thesis using k by (simp add: r_def put_worklog_def)
  next
    case True
    then obtain w where w: "w \<in> set ws" "wl_id w = i" "wl_issue w = issue" by (auto simp: exists_row_iff)
    have t: "tidy e issue os ws" using k by (simp add: kept_tidy_def)
    have m: "mine (ep_id e) w" using i w by (simp add: names_mine_def)
    have one: "filter (mine (ep_id e)) ws = [w]" by (rule tidy_mine [OF t w(1) m])
    have only: "v = w" if "v \<in> set ws" "?p v" for v using that w t by (auto simp: tidy_def dest: distinct_key_eq)
    have r: "fst r = update_where ?p ?f ws" "snd r = 200" using True by (simp_all add: r_def put_worklog_def)
    have both: "mine (ep_id e) v \<and> mine (ep_id e) (?f v)" if "v \<in> set ws" "?p v" for v
      using only [OF that] m by (simp add: mine_def)
    have "filter (mine (ep_id e)) (fst r) = update_where ?p ?f [w]"
      unfolding r one [symmetric] by (rule filter_update_mine(1)) (rule both)
    then have f1: "filter (mine (ep_id e)) (fst r) = [?f w]" using w by (simp add: update_where_def)
    have f2: "filter (\<lambda>w. \<not> mine (ep_id e) w) (fst r) = filter (\<lambda>w. \<not> mine (ep_id e) w) ws"
      unfolding r by (rule filter_update_mine(2)) (rule both)
    note f = f1 f2
    have ids: "map wl_id (fst r) = map wl_id ws" unfolding r by (rule map_update_where) simp
    have day: "midnight (ep_date e) \<le> t - t mod usec_per_second \<and> t - t mod usec_per_second < midnight (ep_date e + 1)"
      using whole_seconds_on_day [of "ep_date e" t] d b by (simp add: starts_on_day_def)
    have own: "valid_worklog_id (wl_id w) \<and> wl_issue w = issue \<and> wl_author w = ep_account e" using t w(1) m by (simp add: tidy_def)
    have days: "valid_worklog_id (wl_id v) \<and> wl_issue v = issue \<and> wl_author v = ep_account e \<and> midnight (ep_date e) \<le> wl_started v \<and> wl_started v < midnight (ep_date e + 1)"
      if "v \<in> set (fst r)" "mine (ep_id e) v" for v
    proof -
      from that have "v \<in> set (filter (mine (ep_id e)) (fst r))" by simp
      then have "v = ?f w" by (simp add: f(1))
      then show ?thesis using day own by simp
    qed
    have "tidy e issue os (fst r)" unfolding tidy_def ids f(1) f(2) using t days by (simp add: tidy_def)
    moreover have "names_mine e (ep_provider e) (fst r)"
      using k unfolding r by (auto simp: kept_tidy_def names_mine_def in_update_where mine_def)
    moreover have "wl_id ` set (fst r) \<subseteq> is" using k arg_cong [OF ids, of set] by (simp add: kept_tidy_def)
    ultimately show ?thesis using f(1) w(2) b by (simp add: kept_tidy_def delivered_as_def r(2))
  qed
  then show "kept_tidy e issue os is (fst r)" "snd r = 200 \<Longrightarrow> delivered_as e i (fst r)" "snd r \<noteq> 200 \<Longrightarrow> snd r = 404" by blast+
qed

lemma worklog_body_cases:
  obtains (bad) err retry where "worklog_body_of e = raise err retry"
  | (good) t where "ep_desired_started e = Some t" "0 < ep_desired e"
      "worklog_body_of e = give \<lparr>bd_export = ep_id e, bd_started = t - t mod usec_per_second, bd_seconds = ep_desired e\<rparr>"
proof (cases "ep_desired e < 1 \<or> 2147483647 < ep_desired e")
  case True then show ?thesis using bad by (simp add: worklog_body_of_def)
next
  case False
  then show ?thesis
  proof (cases "ep_desired_started e")
    case None then show ?thesis using False bad by (simp add: worklog_body_of_def)
  next
    case (Some t) then show ?thesis using False good by (simp add: worklog_body_of_def)
  qed
qed

lemma update_worklog_triple:
  assumes d: "starts_on_day e"
  shows "triple (\<lambda>ws. kept_tidy e issue os is ws \<and> names_mine e (Some i) ws \<and> (there \<longrightarrow> (\<exists>w\<in>set ws. wl_id w = i \<and> wl_issue w = issue)))
    (update_worklog e issue i)
    (\<lambda>status ws. kept_tidy e issue os is ws \<and> (status = 200 \<longrightarrow> 0 < ep_desired e \<and> delivered_as e i ws)
       \<and> (status \<noteq> 200 \<longrightarrow> status = 404 \<and> \<not> there)) (kept_tidy e issue os is)"
    (is "triple ?P _ ?Q ?R")
proof (cases e rule: worklog_body_cases)
  case (bad err retry)
  moreover have "and_then (raise err retry) f = raise err retry" for f :: "worklog_body \<Rightarrow> int act" by (simp add: and_then_def raise_def fun_eq_iff)
  ultimately show ?thesis unfolding update_worklog_def by (auto intro!: triple_renewed triple_raise)
next
  case (good t)
  let ?b = "\<lparr>bd_export = ep_id e, bd_started = t - t mod usec_per_second, bd_seconds = ep_desired e\<rparr>"
  have g: "and_then (give ?b) f = f ?b" for f :: "worklog_body \<Rightarrow> int act" by (simp add: and_then_def give_def fun_eq_iff)
  have "triple ?P (request (put_worklog issue i ?b)) ?Q ?R"
  proof (rule triple_request)
    fix ws assume p: "?P ws"
    have missing: "\<not> there" if "snd (put_worklog issue i ?b ws) \<noteq> 200"
      using that p by (auto simp: put_worklog_def Let_def exists_row_iff split: if_splits)
    note put = put_tidy [OF conjunct1 [OF p] conjunct1 [OF conjunct2 [OF p]] good(1) d]
    show "?R ws" "?R (fst (put_worklog issue i ?b ws))" "?Q (snd (put_worklog issue i ?b ws)) (fst (put_worklog issue i ?b ws))"
      using p put missing good(2) by blast+
  qed
  then show ?thesis unfolding update_worklog_def good(3) g by (rule triple_renewed) simp
qed

lemma mine_day_worklogs:
  assumes "tidy e issue os ws"
  shows "filter (\<lambda>w. wl_author w = ep_account e \<and> mine (ep_id e) w) (day_worklogs issue (ep_date e) ws) = filter (mine (ep_id e)) ws"
  using assms unfolding day_worklogs_def tidy_def filter_filter by (intro filter_cong) auto

lemma find_export_worklog_triple:
  assumes pl: "paging_law paging"
  shows "triple (kept_tidy e issue os is) (find_export_worklog paging e issue)
    (\<lambda>r ws. kept_tidy e issue os is ws \<and> (case r of None \<Rightarrow> filter (mine (ep_id e)) ws = []
       | Some i \<Rightarrow> names_mine e (Some i) ws \<and> valid_worklog_id i \<and> (\<exists>w\<in>set ws. wl_id w = i \<and> wl_issue w = issue))) (kept_tidy e issue os is)"
    (is "triple ?P _ ?Q ?R")
proof -
  have "case r of Inl err \<Rightarrow> ?R (dl_worklogs s') | Inr a \<Rightarrow> ?Q a (dl_worklogs s')"
    if k: "?P (dl_worklogs s)" and m: "find_export_worklog paging e issue s = (s', r)" for s s' r
  proof -
    define WS where "WS = dl_worklogs s"
    define day where "day = day_worklogs issue (ep_date e) WS"
    have t: "tidy e issue os WS" using k by (simp add: WS_def kept_tidy_def)
    have "triple (\<lambda>ws. ws = WS) (if max_worklogs_per_day < length day
        then and_then renew_worklog_claim (\<lambda>_. and_then (request (\<lambda>ws. (ws, ()))) (\<lambda>_. raise ''invalid_response'' 300))
        else and_then (scan_pages e issue (paging day) []) (\<lambda>ms.
           case remdups ms of [] \<Rightarrow> give None | [m] \<Rightarrow> give (Some m) | _ \<Rightarrow> raise ''duplicate_worklogs'' 3600)) (\<lambda>r ws. ws = WS \<and> ?Q r ws) (\<lambda>ws. ws = WS)"
    proof (rule triple_if)
      show "triple (\<lambda>ws. ws = WS) (and_then renew_worklog_claim (\<lambda>_. and_then (request (\<lambda>ws. (ws, ()))) (\<lambda>_. raise ''invalid_response'' 300)))
          (\<lambda>r ws. ws = WS \<and> ?Q r ws) (\<lambda>ws. ws = WS)"
        by (rule triple_renewed, rule triple_then [OF triple_request [of _ _ _ "\<lambda>_ ws. ws = WS"] triple_raise]) auto
    next
      have c: "concat (paging day) = day" using pl by (simp add: paging_law_def)
      have sub: "set day \<subseteq> set WS" "\<forall>w\<in>set day. wl_issue w = issue" by (auto simp: day_def day_worklogs_def)
      have d: "distinct (map wl_id WS)" using t by (simp add: tidy_def)
      note scan = scan_pages_triple [of WS "paging day" issue e "[]", unfolded c, OF d sub]
      have ms: "[] @ map wl_id (filter (\<lambda>w. wl_author w = ep_account e \<and> mine (ep_id e) w) day) = map wl_id (filter (mine (ep_id e)) WS)"
        using mine_day_worklogs [OF t] by (simp add: day_def)
      note scan = scan [unfolded ms]
      have rest: "triple (\<lambda>ws. ws = WS \<and> ms = map wl_id (filter (mine (ep_id e)) WS))
          (case remdups ms of [] \<Rightarrow> give None | [m] \<Rightarrow> give (Some m) | _ \<Rightarrow> raise ''duplicate_worklogs'' 3600)
          (\<lambda>r ws. ws = WS \<and> ?Q r ws) (\<lambda>ws. ws = WS)" for ms
      proof (cases "ms = map wl_id (filter (mine (ep_id e)) WS)")
        case False then show ?thesis by (simp add: triple_def)
      next
        case True
        show ?thesis
        proof (cases "filter (mine (ep_id e)) WS")
          case Nil
          then show ?thesis using True k by (auto intro!: triple_give simp: WS_def)
        next
          case (Cons w rest)
          then have one: "filter (mine (ep_id e)) WS = [w]" using t by (cases rest) (auto simp: tidy_def)
          then have w: "w \<in> set WS" "mine (ep_id e) w" using filter_eq_ConsD [OF one] by auto
          then have "valid_worklog_id (wl_id w) \<and> wl_issue w = issue" using t by (auto simp: tidy_def)
          moreover have "names_mine e (Some (wl_id w)) WS"
            using d w by (auto simp: names_mine_def dest: distinct_key_eq)
          ultimately show ?thesis using True k w one by (auto intro!: triple_give simp: WS_def)
        qed
      qed
      show "triple (\<lambda>ws. ws = WS) (and_then (scan_pages e issue (paging day) []) (\<lambda>ms.
           case remdups ms of [] \<Rightarrow> give None | [m] \<Rightarrow> give (Some m) | _ \<Rightarrow> raise ''duplicate_worklogs'' 3600))
          (\<lambda>r ws. ws = WS \<and> ?Q r ws) (\<lambda>ws. ws = WS)"
        by (rule triple_then [OF scan rest])
    qed
    note prog = this
    have "(if max_worklogs_per_day < length day
        then and_then renew_worklog_claim (\<lambda>_. and_then (request (\<lambda>ws. (ws, ()))) (\<lambda>_. raise ''invalid_response'' 300))
        else and_then (scan_pages e issue (paging day) []) (\<lambda>ms.
           case remdups ms of [] \<Rightarrow> give None | [m] \<Rightarrow> give (Some m) | _ \<Rightarrow> raise ''duplicate_worklogs'' 3600)) s = (s', r)"
      using m by (cases "max_worklogs_per_day < length day") (simp_all add: find_export_worklog_def Let_def day_def WS_def)
    from tripleD [OF prog WS_def [symmetric] this] k show ?thesis by (cases r) (simp_all add: WS_def)
  qed
  then show ?thesis unfolding triple_def by blast
qed

text \<open>What an answer of an attempt says of the site.\<close>

definition settled :: "export_row \<Rightarrow> string option \<times> int \<times> timestamp option \<Rightarrow> worklog list \<Rightarrow> bool" where
  "settled e r ws \<longleftrightarrow> (case r of (p, n, t) \<Rightarrow> n = ep_desired e \<and>
     (if n = 0 then p = None \<and> t = None \<and> (\<forall>w\<in>set ws. ep_provider e \<noteq> Some (wl_id w))
      else t = ep_desired_started e \<and> (\<exists>i. p = Some i \<and> valid_worklog_id i \<and> delivered_as e i ws)))"

definition provider_ok :: "export_row \<Rightarrow> bool" where
  "provider_ok e \<longleftrightarrow> (case ep_provider e of None \<Rightarrow> True | Some i \<Rightarrow> valid_worklog_id i)"

lemma kept_more: "kept_tidy e issue os is ws \<Longrightarrow> kept_tidy e issue os (insert i is) ws"
  by (rule kept_tidy_mono) auto

lemma triple_more: "triple P m Q (kept_tidy e issue os is) \<Longrightarrow> triple P m Q (kept_tidy e issue os (insert i is))"
  by (erule triple_weaken) (simp_all add: kept_more)

lemma post_tidy:
  assumes k: "kept_tidy e issue os is ws" and none: "filter (mine (ep_id e)) ws = []" and b: "ep_desired_started e = Some t"
    and d: "starts_on_day e" and fl: "valid_worklog_id given" and new: "given \<notin> is"
  defines "r \<equiv> post_worklog given issue (ep_account e) \<lparr>bd_export = ep_id e, bd_started = t - t mod usec_per_second, bd_seconds = ep_desired e\<rparr> ws"
  shows "kept_tidy e issue os (insert given is) (fst r) \<and> delivered_as e (snd r) (fst r) \<and> valid_worklog_id (snd r)"
proof -
  let ?w = "\<lparr>wl_id = given, wl_issue = issue, wl_author = ep_account e, wl_export = Some (ep_id e), wl_started = t - t mod usec_per_second, wl_seconds = ep_desired e\<rparr>"
  have r: "fst r = ws @ [?w]" "snd r = given" by (simp_all add: r_def post_worklog_def)
  have m: "mine (ep_id e) ?w" by (simp add: mine_def)
  have f: "filter (mine (ep_id e)) (fst r) = [?w]" "filter (\<lambda>w. \<not> mine (ep_id e) w) (fst r) = filter (\<lambda>w. \<not> mine (ep_id e) w) ws"
    using none m by (simp_all add: r)
  have fr: "given \<notin> wl_id ` set ws" using new k by (auto simp: kept_tidy_def)
  have t: "tidy e issue os ws" "names_mine e (ep_provider e) ws" using k by (simp_all add: kept_tidy_def)
  have day: "midnight (ep_date e) \<le> t - t mod usec_per_second \<and> t - t mod usec_per_second < midnight (ep_date e + 1)"
    using whole_seconds_on_day [of "ep_date e" t] d b by (simp add: starts_on_day_def)
  have days: "valid_worklog_id (wl_id v) \<and> wl_issue v = issue \<and> wl_author v = ep_account e \<and> midnight (ep_date e) \<le> wl_started v \<and> wl_started v < midnight (ep_date e + 1)"
    if "v \<in> set (fst r)" "mine (ep_id e) v" for v
  proof -
    from that have "v \<in> set (filter (mine (ep_id e)) (fst r))" by simp
    then have "v = ?w" by (simp add: f(1))
    then show ?thesis using day fl by simp
  qed
  have "distinct (map wl_id (fst r))" using t(1) fr by (simp add: tidy_def r)
  then have "tidy e issue os (fst r)" unfolding tidy_def f(1) f(2) using t(1) days by (simp add: tidy_def)
  moreover have "names_mine e (ep_provider e) (fst r)" using t(2) m by (auto simp: names_mine_def r)
  moreover have "wl_id ` set (fst r) \<subseteq> insert given is" using k by (auto simp: r kept_tidy_def)
  ultimately show ?thesis using fl f(1) b by (simp add: kept_tidy_def delivered_as_def r(2))
qed

lemma create_worklog_triple:
  assumes d: "starts_on_day e" and fl: "valid_worklog_id given" and new: "given \<notin> is"
  shows "triple (\<lambda>ws. kept_tidy e issue os is ws \<and> filter (mine (ep_id e)) ws = []) (create_worklog given e issue)
    (\<lambda>r ws. kept_tidy e issue os (insert given is) ws \<and> settled e r ws) (kept_tidy e issue os (insert given is))" (is "triple ?P _ ?Q ?R")
proof (cases e rule: worklog_body_cases)
  case (bad err retry)
  moreover have "and_then (raise err retry) f = raise err retry" for f :: "worklog_body \<Rightarrow> (string option \<times> int \<times> timestamp option) act"
    by (simp add: and_then_def raise_def fun_eq_iff)
  ultimately show ?thesis unfolding create_worklog_def by (auto intro!: triple_renewed triple_raise kept_more)
next
  case (good t)
  let ?b = "\<lparr>bd_export = ep_id e, bd_started = t - t mod usec_per_second, bd_seconds = ep_desired e\<rparr>"
  have g: "and_then (give ?b) f = f ?b" for f :: "worklog_body \<Rightarrow> (string option \<times> int \<times> timestamp option) act"
    by (simp add: and_then_def give_def fun_eq_iff)
  have "triple ?P (request (post_worklog given issue (ep_account e) ?b))
     (\<lambda>i ws. kept_tidy e issue os (insert given is) ws \<and> delivered_as e i ws \<and> valid_worklog_id i) ?R"
    by (rule triple_request) (use post_tidy [OF _ _ good(1) d fl new] kept_tidy_mono [of e issue os "is" _ "insert given is"] in blast)+
  then have "triple ?P (and_then (request (post_worklog given issue (ep_account e) ?b)) (\<lambda>i.
       if valid_worklog_id i then give (Some i, ep_desired e, ep_desired_started e) else raise ''invalid_response'' 300)) ?Q ?R"
    by (rule triple_then) (use good(2) in \<open>auto intro!: triple_if triple_give triple_raise simp: settled_def\<close>)
  then show ?thesis unfolding create_worklog_def good(3) g by (rule triple_renewed) (simp add: kept_more)
qed

lemma recover_worklog_triple:
  assumes d: "starts_on_day e" and fl: "valid_worklog_id given" and new: "given \<notin> is" and pl: "paging_law paging" and pos: "ep_desired e \<noteq> 0"
  shows "triple (kept_tidy e issue os is) (recover_worklog given paging e issue)
    (\<lambda>r ws. kept_tidy e issue os (insert given is) ws \<and> settled e r ws) (kept_tidy e issue os (insert given is))"
  unfolding recover_worklog_def
proof (rule triple_then [OF triple_more [OF find_export_worklog_triple [OF pl]]])
  fix found
  show "triple (\<lambda>ws. kept_tidy e issue os is ws \<and> (case found of None \<Rightarrow> filter (mine (ep_id e)) ws = []
       | Some i \<Rightarrow> names_mine e (Some i) ws \<and> valid_worklog_id i \<and> (\<exists>w\<in>set ws. wl_id w = i \<and> wl_issue w = issue)))
     (case found of None \<Rightarrow> create_worklog given e issue
       | Some i \<Rightarrow> and_then (update_worklog e issue i) (\<lambda>status.
           if status = 200 then give (Some i, ep_desired e, ep_desired_started e) else create_worklog given e issue))
     (\<lambda>r ws. kept_tidy e issue os (insert given is) ws \<and> settled e r ws) (kept_tidy e issue os (insert given is))"
  proof (cases found)
    case None
    then show ?thesis using create_worklog_triple [OF d fl new] by simp
  next
    case (Some i)
    have "triple (\<lambda>ws. kept_tidy e issue os is ws \<and> names_mine e (Some i) ws \<and> (True \<longrightarrow> (\<exists>w\<in>set ws. wl_id w = i \<and> wl_issue w = issue)))
        (and_then (update_worklog e issue i) (\<lambda>status.
           if status = 200 then give (Some i, ep_desired e, ep_desired_started e) else create_worklog given e issue))
        (\<lambda>r ws. kept_tidy e issue os (insert given is) ws \<and> settled e r ws) (kept_tidy e issue os (insert given is))"
      if "valid_worklog_id i"
      by (rule triple_then [OF triple_more [OF update_worklog_triple [OF d]]])
        (use pos that in \<open>auto simp: settled_def triple_def give_def kept_more\<close>)
    then show ?thesis using Some
      by (cases "valid_worklog_id i") (auto elim!: triple_weaken simp: triple_def)
  qed
qed


lemma filter_delete_where: "length (filter p (delete_where q rows)) \<le> length (filter p rows)"
  by (induction rows) (auto simp: delete_where_def)

lemma delete_tidy:
  assumes k: "kept_tidy e issue os is ws" and p: "ep_provider e = Some i"
  shows "kept_tidy e issue os is (fst (delete_worklog issue i ws)) \<and> (\<forall>w\<in>set (fst (delete_worklog issue i ws)). wl_id w \<noteq> i)"
proof -
  let ?p = "\<lambda>w. wl_id w = i \<and> wl_issue w = issue"
  have t: "tidy e issue os ws" "names_mine e (Some i) ws" using k p by (simp_all add: kept_tidy_def)
  have all: "wl_issue w = issue \<and> mine (ep_id e) w" if "w \<in> set ws" "wl_id w = i" for w
    using t that by (auto simp: tidy_def names_mine_def)
  then have f: "filter (\<lambda>w. \<not> mine (ep_id e) w) (delete_where ?p ws) = filter (\<lambda>w. \<not> mine (ep_id e) w) ws"
    unfolding delete_where_def filter_filter by (intro filter_cong) auto
  have sub: "set (delete_where ?p ws) \<subseteq> set ws" by (auto simp: delete_where_def)
  have "length (filter (mine (ep_id e)) (delete_where ?p ws)) \<le> length (filter (mine (ep_id e)) ws)"
    by (rule filter_delete_where)
  moreover have "distinct (map wl_id (delete_where ?p ws))"
    unfolding delete_where_def using t(1) by (intro distinct_map_filter) (simp add: tidy_def)
  moreover have "filter (\<lambda>w. \<not> mine (ep_id e) w) ws = os" "length (filter (mine (ep_id e)) ws) \<le> 1" using t(1) by (simp_all add: tidy_def)
  moreover have "\<forall>w\<in>set (delete_where ?p ws). mine (ep_id e) w \<longrightarrow> valid_worklog_id (wl_id w) \<and> wl_issue w = issue \<and> wl_author w = ep_account e
          \<and> midnight (ep_date e) \<le> wl_started w \<and> wl_started w < midnight (ep_date e + 1)"
    using t(1) sub unfolding tidy_def by blast
  ultimately have "tidy e issue os (delete_where ?p ws)" unfolding tidy_def f by simp
  moreover have "names_mine e (Some i) (delete_where ?p ws)" using t(2) sub by (auto simp: names_mine_def)
  moreover have "wl_id ` set (delete_where ?p ws) \<subseteq> is" using k sub unfolding kept_tidy_def by blast
  moreover have "\<forall>w\<in>set (delete_where ?p ws). wl_id w \<noteq> i" using all by (auto simp: delete_where_def)
  ultimately have gone: "kept_tidy e issue os is (delete_where ?p ws) \<and> (\<forall>w\<in>set (delete_where ?p ws). wl_id w \<noteq> i)"
    using p by (simp add: kept_tidy_def)
  show ?thesis
  proof (cases "exists_row ?p ws")
    case True then show ?thesis using gone by (simp add: delete_worklog_def)
  next
    case False
    then have "\<forall>w\<in>set ws. wl_id w \<noteq> i" using all by (auto simp: exists_row_iff)
    then show ?thesis using False k by (simp add: delete_worklog_def)
  qed
qed

lemma deliver_claimed_worklog_triple:
  assumes d: "starts_on_day (ce_row c)" and fl: "valid_worklog_id given" and new: "given \<notin> is" and pl: "paging_law paging" and ok: "provider_ok (ce_row c)"
    and i: "issue = (case ce_issue c of None \<Rightarrow> [] | Some k \<Rightarrow> k)"
  shows "triple (kept_tidy (ce_row c) issue os is) (deliver_claimed_worklog given paging enabled c)
    (\<lambda>r ws. kept_tidy (ce_row c) issue os (insert given is) ws \<and> settled (ce_row c) r ws) (kept_tidy (ce_row c) issue os (insert given is))"
proof -
  define e where "e = ce_row c"
  let ?K = "kept_tidy e issue os is" and ?R = "kept_tidy e issue os (insert given is)"
  let ?Q = "\<lambda>r ws. kept_tidy e issue os (insert given is) ws \<and> settled e r ws"
  have recover: "triple ?K (recover_worklog given paging e issue)
    ?Q ?R" if "ep_desired e \<noteq> 0"
    using recover_worklog_triple [OF _ fl new pl that] d by (simp add: e_def)
  have no_worklog: "triple ?K (give (None, 0, None)) ?Q ?R"
    if "ep_provider e = None" "ep_desired e = 0"
    using that by (intro triple_give) (simp add: settled_def kept_more)
  have drop: "triple ?K (and_then renew_worklog_claim (\<lambda>_. and_then (request (delete_worklog issue i)) (\<lambda>status. give (None, 0, None))))
     ?Q ?R" if p: "ep_provider e = Some i" "ep_desired e = 0" for i
  proof (rule triple_renewed, rule triple_then)
    show "triple ?K (request (delete_worklog issue i)) (\<lambda>_ ws. kept_tidy e issue os is ws \<and> (\<forall>w\<in>set ws. wl_id w \<noteq> i)) ?R"
      using delete_tidy [of e issue os "is" _ i] p(1) by (intro triple_request) (blast intro: kept_more)+
    show "triple (\<lambda>ws. kept_tidy e issue os is ws \<and> (\<forall>w\<in>set ws. wl_id w \<noteq> i)) (give (None, 0, None)) ?Q ?R"
      using p by (intro triple_give) (auto simp: settled_def kept_more)
  qed (rule kept_more)
  have update: "triple ?K (and_then (update_worklog e issue i) (\<lambda>status.
        if status \<noteq> 404 then give (Some i, ep_desired e, ep_desired_started e) else recover_worklog given paging e issue))
     ?Q ?R" if p: "ep_provider e = Some i" "ep_desired e \<noteq> 0" for i
  proof (rule triple_then)
    show "triple ?K (update_worklog e issue i) (\<lambda>status ws. kept_tidy e issue os is ws
       \<and> (status = 200 \<longrightarrow> 0 < ep_desired e \<and> delivered_as e i ws) \<and> (status \<noteq> 200 \<longrightarrow> status = 404 \<and> \<not> False)) ?R"
      by (rule triple_weaken [OF update_worklog_triple [of e issue os "is" i False]])
        (use d p in \<open>simp_all add: e_def kept_tidy_def subset_insertI2\<close>)
    show "triple (\<lambda>ws. kept_tidy e issue os is ws \<and> (status = 200 \<longrightarrow> 0 < ep_desired e \<and> delivered_as e i ws)
         \<and> (status \<noteq> 200 \<longrightarrow> status = 404 \<and> \<not> False))
       (if status \<noteq> 404 then give (Some i, ep_desired e, ep_desired_started e) else recover_worklog given paging e issue)
       ?Q ?R" for status
    proof (rule triple_if)
      show "triple (\<lambda>ws. kept_tidy e issue os is ws \<and> (status = 200 \<longrightarrow> 0 < ep_desired e \<and> delivered_as e i ws)
         \<and> (status \<noteq> 200 \<longrightarrow> status = 404 \<and> \<not> False)) (give (Some i, ep_desired e, ep_desired_started e))
         ?Q ?R" if "status \<noteq> 404"
        using that p ok by (intro triple_give) (auto simp: settled_def provider_ok_def e_def kept_more)
      show "triple (\<lambda>ws. kept_tidy e issue os is ws \<and> (status = 200 \<longrightarrow> 0 < ep_desired e \<and> delivered_as e i ws)
         \<and> (status \<noteq> 200 \<longrightarrow> status = 404 \<and> \<not> False)) (recover_worklog given paging e issue)
         ?Q ?R"
        by (rule triple_weaken [OF recover [OF p(2)]]) auto
    qed
  qed
  have nonempty: "i \<noteq> []" if "ep_provider e = Some i" for i using that ok by (auto simp: provider_ok_def e_def valid_worklog_id_def)
  have stop: "triple ?K (raise err retry) ?Q ?R" for err retry
    by (rule triple_raise) (rule kept_more)
  show ?thesis
    unfolding deliver_claimed_worklog_def Let_def e_def [symmetric] i [symmetric]
    by (rule triple_renewed, intro triple_if stop)
      (auto split: option.split intro!: no_worklog drop update recover kept_more dest: nonempty)
qed

end
