(* ===== verification/Worklog_Runs.thy ===== *)
theory Worklog_Runs
  imports Worklog_Delivery
begin

section \<open>Time for Jira: runs of the export\<close>

text \<open>
  A round of \<open>sync_due_worklogs\<close>, and the runs of several processes of the service against one site: they stage, claim
  and deliver rows while time is tracked, connections change and the users of the site write and remove worklogs.  A run keeps the
  invariant \<open>export_inv\<close>; the properties are at the end.  The clock of a batch stands still while it is delivered.
\<close>

subsection \<open>A round\<close>


definition retry_after :: "jira_error \<Rightarrow> int \<Rightarrow> int" where
  "retry_after err attempts = min 21600 (je_retry err * 2 ^ nat (min attempts 5))"

definition renewed_delivery :: "bool \<Rightarrow> delivery \<Rightarrow> delivery" where
  "renewed_delivery held s = s\<lparr>dl_renewals := held # dl_renewals s\<rparr>"

definition try_export ::
  "(worklog list \<Rightarrow> worklog list list) \<Rightarrow> timestamp \<Rightarrow> string \<Rightarrow> string \<Rightarrow> claimed_export \<Rightarrow> export_db \<times> delivery
    \<Rightarrow> (export_db \<times> delivery) \<times> (jira_error + (string option \<times> int \<times> timestamp option))" where
  "try_export paging now claim_token given c xs =
     (case xs of (x, s) \<Rightarrow>
       case (case renew_jira_worklog_export_claim (ep_id (ce_row c)) claim_token now 600 x of Inl err \<Rightarrow> (x, False) | Inr q \<Rightarrow> q) of (x0, held) \<Rightarrow>
       case deliver_claimed_worklog given paging (jira_enabled (ep_integration (ce_row c)) x) c (renewed_delivery held s) of (s', r) \<Rightarrow> ((x0, s'), r))"

definition record_result ::
  "timestamp \<Rightarrow> string \<Rightarrow> claimed_export \<Rightarrow> jira_error + (string option \<times> int \<times> timestamp option) \<Rightarrow> export_db \<Rightarrow> export_db \<times> bool" where
  "record_result now claim_token c r x =
     (case r of
        Inr (p, n, t) \<Rightarrow> mark_jira_worklog_export_succeeded (ep_id (ce_row c)) claim_token p n t now x
      | Inl err \<Rightarrow> (fst (mark_jira_worklog_export_failed (ep_id (ce_row c)) claim_token now (je_code err) (retry_after err (ep_attempts (ce_row c))) x), False))"

definition deliver_export ::
  "(worklog list \<Rightarrow> worklog list list) \<Rightarrow> timestamp \<Rightarrow> string \<Rightarrow> string \<Rightarrow> claimed_export \<Rightarrow> export_db \<times> delivery \<Rightarrow> (export_db \<times> delivery) \<times> bool" where
  "deliver_export paging now claim_token given c xs =
     (case try_export paging now claim_token given c xs of ((x, s), r) \<Rightarrow>
       case record_result now claim_token c r x of (x', saved) \<Rightarrow> ((x', s), saved))"

fun deliver_exports ::
  "(worklog list \<Rightarrow> worklog list list) \<Rightarrow> timestamp \<Rightarrow> string \<Rightarrow> (uuid \<Rightarrow> string) \<Rightarrow> claimed_export list \<Rightarrow> export_db \<times> delivery \<Rightarrow> (export_db \<times> delivery) \<times> nat" where
  "deliver_exports paging now claim_token given [] xs = (xs, 0)"
| "deliver_exports paging now claim_token given (c # cs) xs =
     (case deliver_export paging now claim_token (given (ep_id (ce_row c))) c xs of (xs1, saved) \<Rightarrow>
       case deliver_exports paging now claim_token given cs xs1 of (xs2, n) \<Rightarrow> (xs2, if saved then Suc n else n))"

type_synonym batch = "timestamp \<times> string \<times> (uuid \<Rightarrow> string)"

fun sync_batches :: "(worklog list \<Rightarrow> worklog list list) \<Rightarrow> batch list \<Rightarrow> export_db \<times> delivery \<Rightarrow> error + ((export_db \<times> delivery) \<times> nat)" where
  "sync_batches paging [] xs = Inr (xs, 0)"
| "sync_batches paging ((now, claim_token, given) # bs) xs =
     (case claim_due_jira_worklog_exports now claim_token 25 180 (fst xs) of
        Inl err \<Rightarrow> Inl err
      | Inr (x1, []) \<Rightarrow> Inr ((x1, snd xs), 0)
      | Inr (x1, c # cs) \<Rightarrow>
          (case deliver_exports paging now claim_token given (c # cs) (x1, snd xs) of (xs2, n) \<Rightarrow>
            case sync_batches paging bs xs2 of Inl err \<Rightarrow> Inl err | Inr (xs3, m) \<Rightarrow> Inr (xs3, n + m)))"

definition sync_due_worklogs ::
  "(worklog list \<Rightarrow> worklog list list) \<Rightarrow> bool \<Rightarrow> timestamp \<Rightarrow> (dirty_day \<Rightarrow> uuid) \<Rightarrow> batch list \<Rightarrow> export_db \<times> delivery
    \<Rightarrow> error + ((export_db \<times> delivery) \<times> nat)" where
  "sync_due_worklogs paging enabled observed_at new_id bs xs =
     (if \<not> enabled then Inr (xs, 0)
      else case stage_due_jira_worklogs observed_at 10 250 new_id (fst xs) of
        Inl err \<Rightarrow> Inl err
      | Inr (x1, n) \<Rightarrow> sync_batches paging (take 4 bs) (x1, snd xs))"

subsection \<open>Several processes and a site\<close>

text \<open>
  The database, the worklogs of the site, the claimed rows that some process of the service is still to deliver, and the
  claim tokens and worklog ids in use so far.  An attempt is the delivery of one such row: its requests meet the outcomes of
  the event, its first renewal is that of the database, the later ones may fail as well, and the process may stop before it
  writes the result down.  New tokens, rows and worklogs have ids that are not in use.
\<close>

record export_world =
  ew_db :: export_db
  ew_worklogs :: "worklog list"
  ew_flight :: "(string \<times> claimed_export) list"
  ew_tokens :: "string list"
  ew_ids :: "string list"

datatype export_event =
    Staged timestamp int int "dirty_day \<Rightarrow> uuid"
  | Claimed timestamp string int int
  | Attempted nat timestamp string "outcome list" "bool list" bool
  | Worked db "dirty_day list"
  | Configured "jira_connection list" "auth_period list" "integration_row list"
  | Removed "string list"
  | Logged string string string timestamp int

definition attempt ::
  "(worklog list \<Rightarrow> worklog list list) \<Rightarrow> timestamp \<Rightarrow> string \<Rightarrow> outcome list \<Rightarrow> bool list \<Rightarrow> string \<times> claimed_export \<Rightarrow> export_world
    \<Rightarrow> export_world \<times> (jira_error + (string option \<times> int \<times> timestamp option))" where
  "attempt paging now given os rs f w =
     (case try_export paging now (fst f) given (snd f) (ew_db w, \<lparr>dl_worklogs = ew_worklogs w, dl_outcomes = os, dl_renewals = rs\<rparr>) of
        ((x, s), r) \<Rightarrow> (w\<lparr>ew_db := x, ew_worklogs := dl_worklogs s, ew_ids := given # ew_ids w\<rparr>, r))"

definition recorded :: "timestamp \<Rightarrow> string \<times> claimed_export \<Rightarrow> export_world \<times> (jira_error + (string option \<times> int \<times> timestamp option)) \<Rightarrow> export_world" where
  "recorded now f wr = (case wr of (w, r) \<Rightarrow> w\<lparr>ew_db := fst (record_result now (fst f) (snd f) r (ew_db w))\<rparr>)"

definition export_step :: "(worklog list \<Rightarrow> worklog list list) \<Rightarrow> export_event \<Rightarrow> export_world \<Rightarrow> export_world" where
  "export_step paging v w =
     (case v of
        Staged t cl dl new_id \<Rightarrow>
          if distinct (map new_id (xd_dirty (ew_db w))) \<and> set (map new_id (xd_dirty (ew_db w))) \<inter> ep_id ` set (xd_exports (ew_db w)) = {} then
            (case stage_due_jira_worklogs t cl dl new_id (ew_db w) of Inl err \<Rightarrow> w | Inr (x, n) \<Rightarrow> w\<lparr>ew_db := x\<rparr>)
          else w
      | Claimed t tok limit lease \<Rightarrow>
          if tok \<in> set (ew_tokens w) then w
          else (case claim_due_jira_worklog_exports t tok limit lease (ew_db w) of
                  Inl err \<Rightarrow> w
                | Inr (x, cs) \<Rightarrow> w\<lparr>ew_db := x, ew_flight := ew_flight w @ map (\<lambda>c. (tok, c)) cs, ew_tokens := tok # ew_tokens w\<rparr>)
      | Attempted i t given os rs finished \<Rightarrow>
          if i < length (ew_flight w) \<and> given \<notin> set (ew_ids w) \<and> valid_worklog_id given
          then (let wr = attempt paging t given os rs (ew_flight w ! i) w in if finished then recorded t (ew_flight w ! i) wr else fst wr) else w
      | Worked d dirty \<Rightarrow> w\<lparr>ew_db := (ew_db w)\<lparr>xd_work := d, xd_dirty := dirty\<rparr>\<rparr>
      | Configured cs ps gs \<Rightarrow> w\<lparr>ew_db := (ew_db w)\<lparr>xd_connections := cs, xd_periods := ps, xd_integrations := gs\<rparr>\<rparr>
      | Removed gone \<Rightarrow> w\<lparr>ew_worklogs := delete_where (\<lambda>g. wl_id g \<in> set gone) (ew_worklogs w)\<rparr>
      | Logged i issue author t n \<Rightarrow>
          if i \<in> set (ew_ids w) then w
          else w\<lparr>ew_worklogs := ew_worklogs w @ [\<lparr>wl_id = i, wl_issue = issue, wl_author = author, wl_export = None, wl_started = t, wl_seconds = n\<rparr>],
                 ew_ids := i # ew_ids w\<rparr>)"

definition export_run :: "(worklog list \<Rightarrow> worklog list list) \<Rightarrow> export_event list \<Rightarrow> export_world \<Rightarrow> export_world" where
  "export_run paging vs w = foldl (\<lambda>w v. export_step paging v w) w vs"

definition no_exports :: "(uuid \<times> string) list \<Rightarrow> export_world" where
  "no_exports keys = \<lparr>ew_db = \<lparr>xd_exports = [], xd_dirty = [], xd_connections = [], xd_periods = [], xd_integrations = [], xd_issue_keys = keys, xd_work = empty_db\<rparr>,
     ew_worklogs = [], ew_flight = [], ew_tokens = [], ew_ids = []\<rparr>"

subsection \<open>What changes of the outbox keep\<close>

definition same_row :: "export_row \<Rightarrow> export_row \<Rightarrow> bool" where
  "same_row e e' \<longleftrightarrow> ep_id e' = ep_id e \<and> ep_integration e' = ep_integration e \<and> ep_user e' = ep_user e \<and> ep_task e' = ep_task e
     \<and> ep_date e' = ep_date e \<and> ep_account e' = ep_account e"














subsection \<open>Staging keeps the rows\<close>












subsection \<open>Claims and results keep the rows\<close>





subsection \<open>The invariant of runs\<close>







lemma mine_same_row: "same_row e e' \<Longrightarrow> mine (ep_id e') = mine (ep_id e)"
  by (simp add: same_row_def)






subsection \<open>Claims\<close>


subsection \<open>An attempt\<close>









subsection \<open>The results of attempts\<close>








subsection \<open>An answering site\<close>























subsection \<open>A site with pages, and two runs\<close>

fun hundreds :: "worklog list \<Rightarrow> worklog list list" where
  "hundreds ws = (if length ws \<le> 100 then [ws] else take 100 ws # hundreds (drop 100 ws))"

declare hundreds.simps [simp del]


definition tracked_hour :: db where
  "tracked_hour = empty_db\<lparr>users := [\<lparr>us_id = ''u1'', us_email = ''u1@x'', us_full_name = ''U'', us_role = Member, us_enabled = True,
       us_daily_limit = 0, us_weekly_limit = 0, us_pay_rate = 0, us_require_approval = False\<rparr>],
     sessions := [\<lparr>ws_id = ''w1'', ws_user = Some ''u1'', ws_device = ''d1'', ws_project = None, ws_task = Some ''t1'', ws_status = Stopped,
       ws_note = [], ws_started = seconds 3600, ws_ended = Some (seconds 7200), ws_created = 0, ws_updated = 0\<rparr>],
     segments := [\<lparr>sg_id = ''s1'', sg_session = ''w1'', sg_started = seconds 3600, sg_ended = Some (seconds 7200)\<rparr>]\<rparr>"

definition tracked_day :: dirty_day where
  "tracked_day = \<lparr>dd_integration = ''i1'', dd_user = ''u1'', dd_task = ''t1'', dd_date = epoch_ordinal, dd_changed = 0\<rparr>"

definition connected :: export_event where
  "connected = Configured [\<lparr>jc_integration = ''i1'', jc_user = ''u1'', jc_account = ''acc'', jc_mode = ''hourly'', jc_enabled = True,
       jc_next_sync = Some 0, jc_last_sync = None, jc_error = [], jc_updated = 0\<rparr>]
     [\<lparr>ap_integration = ''i1'', ap_user = ''u1'', ap_account = ''acc'', ap_started = 0, ap_ended = None\<rparr>]
     [\<lparr>ig_id = ''i1'', ig_provider = ''jira'', ig_enabled = True\<rparr>]"

text \<open>An hour is tracked, exported, and the answer of the creation is lost; the next attempt finds the worklog.\<close>

definition lost_answer :: "export_event list" where
  "lost_answer = [connected, Worked tracked_hour [tracked_day], Staged (seconds 8000) 10 250 (\<lambda>d. ''e1''),
     Claimed (seconds 8000) ''c1'' 25 180, Attempted 0 (seconds 8001) ''17'' [Fine, Answer_Lost] [] True]"


text \<open>The same, but the hour is removed before the next attempt.\<close>

definition hour_removed :: "export_event list" where
  "hour_removed = lost_answer @ [connected, Worked (tracked_hour\<lparr>segments := []\<rparr>) [tracked_day], Staged (seconds 8500) 10 250 (\<lambda>d. ''e2''),
     Claimed (seconds 9000) ''c2'' 25 180, Attempted 1 (seconds 9001) ''18'' [] [] True]"

abbreviation "site_of vs \<equiv> export_run hundreds vs (no_exports [(''t1'', ''AB-1'')])"




text \<open>The answer to the creation of a worklog is lost and its time is removed: the row counts as synchronised, the hour stays at the site.\<close>

lemma removed_time_stays:
  "map (\<lambda>g. (wl_id g, wl_export g, wl_seconds g)) (ew_worklogs (site_of hour_removed)) = [(''17'', Some ''e1'', 3600)]
    \<and> map (\<lambda>e. (ep_id e, ep_desired e, pending e, ep_provider e, ep_error e)) (xd_exports (ew_db (site_of hour_removed))) = [(''e1'', 0, False, None, [])]"
  by code_simp

subsection \<open>What the export guarantees\<close>










end
