(* ===== verification/Integration_Vault.thy ===== *)
theory Integration_Vault imports Sealing Agent_Windows Worklog_Exports begin
section \<open>Credentials of integrations\<close>

text \<open>
  \<open>api/services/integration_credentials.py\<close>, the vault that keeps the tokens of external services encrypted, and the tables
  it uses in \<open>api/repositories/integrations.py\<close>: the credentials of a site and of a member at a site, with a revision
  and a claim for their refresh.  Both tables are one list of rows, those of a site without a member.  AES-GCM is a function of the
  key into \<open>aead\<close>; ids are taken to be those \<open>uuid.UUID\<close> accepts.
\<close>

subsection \<open>The keyring\<close>

record keyring =
  kr_primary :: string
  kr_keys :: "(string \<times> bytes) list"

definition key_id_char :: "char \<Rightarrow> bool" where
  "key_id_char c \<longleftrightarrow> (65 \<le> code c \<and> code c \<le> 90) \<or> (97 \<le> code c \<and> code c \<le> 122) \<or> ascii_digit c \<or> c = CHR ''.'' \<or> c = CHR ''_'' \<or> c = CHR ''-''"

definition valid_key_id :: "string \<Rightarrow> bool" where
  "valid_key_id s \<longleftrightarrow> s \<noteq> [] \<and> length s \<le> 32 \<and> list_all key_id_char s"

text \<open>\<open>s.partition(":")\<close>: what is before and after the first colon, if there is one.\<close>

definition partition_colon :: "string \<Rightarrow> (string \<times> string) option" where
  "partition_colon s = (let k = takeWhile (\<lambda>c. c \<noteq> CHR '':'') s in if k = s then None else Some (k, drop (Suc (length k)) s))"

text \<open>Strict decoding after padding to a multiple of four: only the alphabet, then at most two signs of padding.\<close>

definition b64_strict :: "string \<Rightarrow> bytes option" where
  "b64_strict s =
     (let t = s @ replicate ((4 - length s mod 4) mod 4) CHR ''=''; body = takeWhile (\<lambda>c. c \<noteq> CHR ''='') t; pad = drop (length body) t
      in if list_all (\<lambda>c. b64_value c \<noteq> None) body \<and> list_all (\<lambda>c. c = CHR ''='') pad \<and> length pad \<le> 2 then b64_decode t else None)"

definition parse_entry :: "string \<Rightarrow> (string \<times> bytes) list \<Rightarrow> error + (string \<times> bytes) list" where
  "parse_entry entry parsed =
     (case partition_colon (strip entry) of
        None \<Rightarrow> Inl (ValueError ''Integration credential keyring entry is invalid'')
      | Some (key_id, encoded) \<Rightarrow>
          if \<not> valid_key_id key_id \<or> encoded = [] \<or> key_id \<in> fst ` set parsed then Inl (ValueError ''Integration credential keyring entry is invalid'')
          else case b64_strict encoded of
            None \<Rightarrow> Inl (ValueError ''Integration credential key is not valid base64url'')
          | Some key \<Rightarrow>
              if length key \<noteq> 32 then Inl (ValueError ''Integration credential keys must contain 32 bytes'')
              else if key \<in> snd ` set parsed then Inl (ValueError ''Integration credential key material is duplicated'')
              else if 8 < Suc (length parsed) then Inl (ValueError ''Too many integration credential keys'')
              else Inr (parsed @ [(key_id, key)]))"

fun parse_entries :: "string list \<Rightarrow> (string \<times> bytes) list \<Rightarrow> error + (string \<times> bytes) list" where
  "parse_entries [] parsed = Inr parsed"
| "parse_entries (e # es) parsed = (case parse_entry e parsed of Inl err \<Rightarrow> Inl err | Inr more_keys \<Rightarrow> parse_entries es more_keys)"

definition parse_keyring :: "string \<Rightarrow> error + keyring" where
  "parse_keyring spec =
     (if spec = [] \<or> 4096 < length (utf8_encode spec) then Inl (ValueError ''Integration credential keyring is missing or too large'')
      else case parse_entries (split_on CHR '','' spec) [] of
        Inl err \<Rightarrow> Inl err
      | Inr [] \<Rightarrow> Inl (ValueError ''Integration credential keyring is empty'')
      | Inr ((k, v) # ks) \<Rightarrow> Inr \<lparr>kr_primary = k, kr_keys = (k, v) # ks\<rparr>)"

definition keyring_ok :: "keyring \<Rightarrow> bool" where
  "keyring_ok K \<longleftrightarrow> kr_keys K \<noteq> [] \<and> length (kr_keys K) \<le> 8 \<and> kr_primary K = fst (hd (kr_keys K)) \<and> distinct (map fst (kr_keys K))
     \<and> distinct (map snd (kr_keys K)) \<and> (\<forall>(i, k)\<in>set (kr_keys K). valid_key_id i \<and> length k = 32)"

lemma parse_entry_ok:
  assumes "parse_entry entry parsed = Inr ks"
  shows "\<exists>i k. ks = parsed @ [(i, k)] \<and> valid_key_id i \<and> length k = 32 \<and> i \<notin> fst ` set parsed \<and> k \<notin> snd ` set parsed \<and> length ks \<le> 8"
  using assms by (auto simp: parse_entry_def split: option.splits prod.splits if_splits)

lemma parse_entries_ok:
  assumes "parse_entries es parsed = Inr ks" "distinct (map fst parsed)" "distinct (map snd parsed)" "length parsed \<le> 8"
    "\<forall>(i, k)\<in>set parsed. valid_key_id i \<and> length k = 32"
  shows "distinct (map fst ks) \<and> distinct (map snd ks) \<and> length ks \<le> 8 \<and> (\<forall>(i, k)\<in>set ks. valid_key_id i \<and> length k = 32)"
  using assms
proof (induction es arbitrary: parsed)
  case (Cons e es)
  from Cons.prems(1) obtain qs where q: "parse_entry e parsed = Inr qs" "parse_entries es qs = Inr ks" by (auto split: sum.splits)
  show ?case by (rule Cons.IH [OF q(2)]) (use parse_entry_ok [OF q(1)] Cons.prems in auto)
qed simp

lemma parse_keyring_ok: "parse_keyring spec = Inr K \<Longrightarrow> keyring_ok K"
  unfolding parse_keyring_def using parse_entries_ok [of "split_on CHR '','' spec" "[]"]
  by (auto simp: keyring_ok_def split: if_splits sum.splits list.splits)

subsection \<open>Payloads\<close>

text \<open>
  The values of a credential are texts.  They are written as a JSON object with \<open>ensure_ascii=False\<close>; the reading is modelled
  on what is written that way, objects of texts without white space.
\<close>

type_synonym secrets = "(string \<times> string) list"

definition raw_char :: "char \<Rightarrow> string" where
  "raw_char c = (let n = code c in
     if n = 34 \<or> n = 92 then [CHR 92, c]
     else if n = 10 then [CHR 92, CHR ''n''] else if n = 13 then [CHR 92, CHR ''r''] else if n = 9 then [CHR 92, CHR ''t'']
     else if n = 12 then [CHR 92, CHR ''f''] else if n = 8 then [CHR 92, CHR ''b'']
     else if 32 \<le> n then [c]
     else [CHR 92, CHR ''u'', CHR ''0'', CHR ''0'', hex_digit (n div 16), hex_digit (n mod 16)])"

definition raw_string :: "string \<Rightarrow> string" where "raw_string s = CHR 34 # concat (map raw_char s) @ [CHR 34]"

definition raw_object :: "secrets \<Rightarrow> string" where
  "raw_object kvs = CHR 123 # join_with CHR '','' (map (\<lambda>(k, v). raw_string k @ CHR '':'' # raw_string v) kvs) @ [CHR 125]"

definition hex_value :: "char \<Rightarrow> nat option" where
  "hex_value c = (let n = code c in if 48 \<le> n \<and> n \<le> 57 then Some (n - 48) else if 97 \<le> n \<and> n \<le> 102 then Some (n - 87)
     else if 65 \<le> n \<and> n \<le> 70 then Some (n - 55) else None)"

definition hex_byte :: "char \<Rightarrow> char \<Rightarrow> char \<Rightarrow> char \<Rightarrow> char option" where
  "hex_byte a b c d = (case (hex_value a, hex_value b, hex_value c, hex_value d) of
     (Some 0, Some 0, Some h, Some l) \<Rightarrow> Some (char_of (h * 16 + l)) | _ \<Rightarrow> None)"

definition unescape :: "char \<Rightarrow> char option" where
  "unescape e = (if e = CHR 34 \<or> e = CHR 92 \<or> e = CHR ''/'' then Some e else if e = CHR ''n'' then Some (CHR 10)
     else if e = CHR ''r'' then Some (CHR 13) else if e = CHR ''t'' then Some (CHR 9) else if e = CHR ''f'' then Some (CHR 12)
     else if e = CHR ''b'' then Some (CHR 8) else None)"

definition cons_text :: "char \<Rightarrow> (string \<times> string) option \<Rightarrow> (string \<times> string) option" where
  "cons_text c r = map_option (\<lambda>(t, rest). (c # t, rest)) r"

text \<open>A text after its opening quote, and what follows its closing one.\<close>

fun scan_text :: "string \<Rightarrow> (string \<times> string) option" where
  "scan_text [] = None"
| "scan_text (q # cs) =
     (if q = CHR 34 then Some ([], cs)
      else if q = CHR 92 then
        (case cs of
           [] \<Rightarrow> None
         | e # ds \<Rightarrow>
             if e = CHR ''u'' then
               (case ds of
                  a # b # c # d # es \<Rightarrow> (case hex_byte a b c d of None \<Rightarrow> None | Some ch \<Rightarrow> cons_text ch (scan_text es))
                | _ \<Rightarrow> None)
             else (case unescape e of None \<Rightarrow> None | Some ch \<Rightarrow> cons_text ch (scan_text ds)))
      else if code q < 32 then None else cons_text q (scan_text cs))"

lemma scan_text_length: "scan_text s = Some (t, rest) \<Longrightarrow> length rest < length s"
proof (induction s arbitrary: t rest rule: scan_text.induct)
  case (2 q cs)
  then show ?case by (fastforce simp: cons_text_def split: if_splits list.splits option.splits)
qed simp

definition scan_quoted :: "string \<Rightarrow> (string \<times> string) option" where
  "scan_quoted s = (case s of [] \<Rightarrow> None | q # cs \<Rightarrow> if q = CHR 34 then scan_text cs else None)"

lemma scan_quoted_length: "scan_quoted s = Some (t, rest) \<Longrightarrow> length rest < length s"
  by (auto simp: scan_quoted_def dest!: scan_text_length split: list.splits if_splits)

function (sequential) scan_members :: "string \<Rightarrow> secrets option" where
  "scan_members s =
     (case scan_quoted s of
        None \<Rightarrow> None
      | Some (k, r) \<Rightarrow>
          (case r of
             [] \<Rightarrow> None
           | colon # r' \<Rightarrow>
               if colon \<noteq> CHR '':'' then None
               else (case scan_quoted r' of
                  None \<Rightarrow> None
                | Some (v, r'') \<Rightarrow>
                    (case r'' of
                       [] \<Rightarrow> None
                     | sep # rest \<Rightarrow>
                         if sep = CHR '','' then map_option (Cons (k, v)) (scan_members rest)
                         else if sep = CHR 125 \<and> rest = [] then Some [(k, v)] else None))))"
  by pat_completeness auto
termination
  by (relation "measure length") (auto dest!: scan_quoted_length)

definition json_loads :: "string \<Rightarrow> secrets option" where
  "json_loads s = (case s of [] \<Rightarrow> None | b # r \<Rightarrow> if b \<noteq> CHR 123 then None else if r = [CHR 125] then Some [] else scan_members r)"

lemma hex_value_digit [simp]: "n < 16 \<Longrightarrow> hex_value (hex_digit n) = Some n"
  by (auto simp: hex_value_def hex_digit_def Let_def)

lemma code_inj: "code c = code d \<longleftrightarrow> c = d"
  by (metis char_of_code)

lemma scan_raw_char: "scan_text (raw_char c @ s) = cons_text c (scan_text s)"
proof -
  have q: "code c = 34 \<longleftrightarrow> c = CHR 34" "code c = 92 \<longleftrightarrow> c = CHR 92" for c
    using code_inj [of c "CHR 34"] code_inj [of c "CHR 92"] by (simp_all add: code_def [of "CHR 34"] code_def [of "CHR 92"])
  consider "code c \<in> {34, 92}" | "code c \<in> {10, 13, 9, 12, 8}" | "code c < 32" "code c \<notin> {10, 13, 9, 12, 8}"
    | "32 \<le> code c" "code c \<notin> {34, 92}" by force
  then show ?thesis
  proof cases
    case 1 then show ?thesis using q by (auto simp: raw_char_def Let_def unescape_def)
  next
    case 2
    then have "c \<in> {CHR 10, CHR 13, CHR 9, CHR 12, CHR 8}"
      using code_inj [of c "CHR 10"] code_inj [of c "CHR 13"] code_inj [of c "CHR 9"] code_inj [of c "CHR 12"] code_inj [of c "CHR 8"]
      by (auto simp: code_def [of "CHR 10"] code_def [of "CHR 13"] code_def [of "CHR 9"] code_def [of "CHR 12"] code_def [of "CHR 8"])
    moreover have "code (CHR 10) = 10" "code (CHR 13) = 13" "code (CHR 9) = 9" "code (CHR 12) = 12" "code (CHR 8) = 8" by code_simp+
    ultimately show ?thesis by (elim insertE emptyE) (simp_all add: raw_char_def unescape_def)
  next
    case 3
    have z: "hex_value CHR ''0'' = Some 0" by code_simp
    have "code c div 16 < 16" "code c mod 16 < 16" by simp_all
    then have "hex_byte CHR ''0'' CHR ''0'' (hex_digit (code c div 16)) (hex_digit (code c mod 16)) = Some (char_of (code c div 16 * 16 + code c mod 16))"
      unfolding hex_byte_def z by simp
    also have "code c div 16 * 16 + code c mod 16 = code c" by (rule div_mult_mod_eq)
    finally have "hex_byte CHR ''0'' CHR ''0'' (hex_digit (code c div 16)) (hex_digit (code c mod 16)) = Some c" by simp
    then show ?thesis using 3 by (simp add: raw_char_def Let_def)
  next
    case 4 then show ?thesis using q by (auto simp: raw_char_def Let_def)
  qed
qed

lemma scan_raw_string: "scan_quoted (raw_string s @ rest) = Some (s, rest)"
proof -
  have "scan_text (concat (map raw_char s) @ CHR 34 # rest) = Some (s, rest)"
    by (induction s) (simp_all add: scan_raw_char cons_text_def del: scan_text.simps(2), simp)
  then show ?thesis by (simp add: scan_quoted_def raw_string_def)
qed

declare scan_members.simps [simp del]

lemma scan_raw_members:
  "kvs \<noteq> [] \<Longrightarrow> scan_members (join_with CHR '','' (map (\<lambda>(k, v). raw_string k @ CHR '':'' # raw_string v) kvs) @ [CHR 125]) = Some kvs"
proof (induction kvs rule: induct_list012)
  case (2 kv)
  then show ?case by (cases kv) (simp add: scan_members.simps scan_raw_string)
next
  case (3 kv kv' kvs)
  then show ?case by (cases kv) (simp add: scan_members.simps [of "raw_string _ @ _"] scan_raw_string)
qed simp

lemma json_roundtrip: "json_loads (raw_object kvs) = Some kvs"
proof (cases kvs)
  case Nil then show ?thesis by (simp add: json_loads_def raw_object_def)
next
  case (Cons kv rest)
  obtain k v where kv: "kv = (k, v)" by (cases kv)
  have "scan_members (join_with CHR '','' (map (\<lambda>(k, v). raw_string k @ CHR '':'' # raw_string v) kvs) @ [CHR 125]) = Some kvs"
    by (rule scan_raw_members) (simp add: Cons)
  moreover have "join_with CHR '','' (map (\<lambda>(k, v). raw_string k @ CHR '':'' # raw_string v) kvs) \<noteq> []"
    by (cases rest) (auto simp: Cons kv raw_string_def)
  ultimately show ?thesis by (simp add: json_loads_def raw_object_def)
qed

subsection \<open>The tables\<close>

record credential_row =
  cr_integration :: uuid
  cr_user :: "uuid option"
  cr_key :: string
  cr_cipher :: bytes
  cr_revision :: int
  cr_expires :: "timestamp option"
  cr_claim :: "string option"
  cr_until :: "timestamp option"
  cr_created :: timestamp
  cr_updated :: timestamp

record pending_row =
  pe_id :: uuid
  pe_user :: uuid
  pe_provider :: string
  pe_key :: string
  pe_cipher :: bytes
  pe_expires :: timestamp
  pe_created :: timestamp

record vault_db =
  vt_credentials :: "credential_row list"
  vt_pending :: "pending_row list"
  vt_integrations :: "integration_row list"
  vt_users :: "user list"

definition of_subject :: "uuid \<Rightarrow> uuid option \<Rightarrow> credential_row \<Rightarrow> bool" where
  "of_subject i u c \<longleftrightarrow> cr_integration c = i \<and> cr_user c = u"

definition has_integration :: "uuid \<Rightarrow> string \<Rightarrow> vault_db \<Rightarrow> bool" where
  "has_integration i provider x \<longleftrightarrow> exists_row (\<lambda>g. ig_id g = i \<and> ig_provider g = provider) (vt_integrations x)"

definition enabled_user :: "uuid \<Rightarrow> vault_db \<Rightarrow> bool" where
  "enabled_user u x \<longleftrightarrow> exists_row (\<lambda>m. us_id m = u \<and> us_enabled m) (vt_users x)"

text \<open>The statements the two tables share.  The \<open>INSERT ... ON CONFLICT\<close> gives no row while a claim is running.\<close>

definition upsert_credential ::
  "timestamp \<Rightarrow> uuid \<Rightarrow> uuid option \<Rightarrow> string \<Rightarrow> bytes \<Rightarrow> timestamp option \<Rightarrow> vault_db \<Rightarrow> (vault_db \<times> int) option" where
  "upsert_credential now i u key cipher expires x =
     (case find (of_subject i u) (vt_credentials x) of
        None \<Rightarrow> Some (x\<lparr>vt_credentials := vt_credentials x @ [\<lparr>cr_integration = i, cr_user = u, cr_key = key, cr_cipher = cipher, cr_revision = 1,
            cr_expires = expires, cr_claim = None, cr_until = None, cr_created = now, cr_updated = now\<rparr>]\<rparr>, 1)
      | Some c \<Rightarrow>
          if (case cr_until c of None \<Rightarrow> True | Some t \<Rightarrow> t < now) then
            Some (x\<lparr>vt_credentials := update_where (of_subject i u) (\<lambda>c. c\<lparr>cr_key := key, cr_cipher := cipher, cr_revision := cr_revision c + 1,
              cr_expires := expires, cr_claim := None, cr_until := None, cr_updated := now\<rparr>) (vt_credentials x)\<rparr>, cr_revision c + 1)
          else None)"

definition rotate_rows ::
  "timestamp \<Rightarrow> uuid \<Rightarrow> uuid option \<Rightarrow> string \<Rightarrow> int \<Rightarrow> string \<Rightarrow> bytes \<Rightarrow> vault_db \<Rightarrow> vault_db \<times> bool" where
  "rotate_rows now i u provider expected key cipher x =
     (let p = (\<lambda>c. of_subject i u c \<and> cr_revision c = expected \<and> cr_claim c = None \<and> has_integration i provider x)
      in (x\<lparr>vt_credentials := update_where p (\<lambda>c. c\<lparr>cr_key := key, cr_cipher := cipher, cr_revision := cr_revision c + 1, cr_updated := now\<rparr>) (vt_credentials x)\<rparr>,
          rowcount p (vt_credentials x) = 1))"

definition claim_rows_of ::
  "uuid \<Rightarrow> uuid option \<Rightarrow> string \<Rightarrow> timestamp \<Rightarrow> int \<Rightarrow> (credential_row \<Rightarrow> bool) \<Rightarrow> vault_db \<Rightarrow> vault_db \<times> credential_row option" where
  "claim_rows_of i u claim_token now lease p x =
     (let q = (\<lambda>c. of_subject i u c \<and> p c \<and> (case cr_until c of None \<Rightarrow> True | Some t \<Rightarrow> t \<le> now));
          f = (\<lambda>c. c\<lparr>cr_claim := Some claim_token, cr_until := Some (now + seconds lease), cr_updated := now\<rparr>)
      in (x\<lparr>vt_credentials := update_where q f (vt_credentials x)\<rparr>, map_option f (find q (vt_credentials x))))"

definition release_rows :: "timestamp \<Rightarrow> uuid \<Rightarrow> uuid option \<Rightarrow> string \<Rightarrow> string \<Rightarrow> vault_db \<Rightarrow> vault_db \<times> bool" where
  "release_rows now i u provider claim_token x =
     (let p = (\<lambda>c. of_subject i u c \<and> cr_claim c = Some claim_token \<and> has_integration i provider x)
      in (x\<lparr>vt_credentials := update_where p (\<lambda>c. c\<lparr>cr_claim := None, cr_until := None, cr_updated := now\<rparr>) (vt_credentials x)\<rparr>,
          rowcount p (vt_credentials x) = 1))"

definition replace_rows ::
  "timestamp \<Rightarrow> uuid \<Rightarrow> uuid option \<Rightarrow> string \<Rightarrow> string \<Rightarrow> int \<Rightarrow> string \<Rightarrow> bytes \<Rightarrow> timestamp option \<Rightarrow> vault_db \<Rightarrow> (vault_db \<times> int) option" where
  "replace_rows now i u provider claim_token expected key cipher expires x =
     (let p = (\<lambda>c. of_subject i u c \<and> cr_revision c = expected \<and> cr_claim c = Some claim_token \<and> has_integration i provider x)
      in case find p (vt_credentials x) of
           None \<Rightarrow> None
         | Some c \<Rightarrow> Some (x\<lparr>vt_credentials := update_where p (\<lambda>c. c\<lparr>cr_key := key, cr_cipher := cipher, cr_revision := cr_revision c + 1,
              cr_expires := expires, cr_claim := None, cr_until := None, cr_updated := now\<rparr>) (vt_credentials x)\<rparr>, cr_revision c + 1))"

definition expire_rows :: "timestamp \<Rightarrow> uuid \<Rightarrow> uuid option \<Rightarrow> string \<Rightarrow> vault_db \<Rightarrow> vault_db \<times> bool" where
  "expire_rows observed_at i u provider x =
     (let p = (\<lambda>c. of_subject i u c \<and> has_integration i provider x)
      in (x\<lparr>vt_credentials := update_where p (\<lambda>c. c\<lparr>cr_expires := Some observed_at, cr_updated := observed_at\<rparr>) (vt_credentials x)\<rparr>,
          rowcount p (vt_credentials x) = 1))"

subsection \<open>The credentials of a site\<close>

definition store_integration_credentials :: "timestamp \<Rightarrow> uuid \<Rightarrow> string \<Rightarrow> string \<Rightarrow> bytes \<Rightarrow> timestamp option \<Rightarrow> vault_db \<Rightarrow> error + (vault_db \<times> int)" where
  "store_integration_credentials now i provider key cipher expires x =
     (if \<not> has_integration i provider x then Inl (ValueError ''Integration not found'')
      else case upsert_credential now i None key cipher expires x of
        None \<Rightarrow> Inl (ValueError ''Integration credential refresh is active'') | Some r \<Rightarrow> Inr r)"

definition get_integration_credentials :: "uuid \<Rightarrow> string \<Rightarrow> vault_db \<Rightarrow> credential_row option" where
  "get_integration_credentials i provider x = (if has_integration i provider x then find (of_subject i None) (vt_credentials x) else None)"

definition rotate_integration_credentials :: "timestamp \<Rightarrow> uuid \<Rightarrow> string \<Rightarrow> int \<Rightarrow> string \<Rightarrow> bytes \<Rightarrow> vault_db \<Rightarrow> vault_db \<times> bool" where
  "rotate_integration_credentials now i provider expected key cipher x = rotate_rows now i None provider expected key cipher x"

definition claim_integration_credentials ::
  "uuid \<Rightarrow> string \<Rightarrow> string \<Rightarrow> timestamp \<Rightarrow> int \<Rightarrow> vault_db \<Rightarrow> error + (vault_db \<times> credential_row option)" where
  "claim_integration_credentials i provider claim_token observed_at lease_seconds x =
     (if lease_seconds < 15 \<or> 600 < lease_seconds then Inl (ValueError ''Invalid credential refresh lease'')
      else Inr (claim_rows_of i None claim_token observed_at lease_seconds (\<lambda>c. has_integration i provider x) x))"

definition release_integration_credential_claim :: "timestamp \<Rightarrow> uuid \<Rightarrow> string \<Rightarrow> string \<Rightarrow> vault_db \<Rightarrow> vault_db \<times> bool" where
  "release_integration_credential_claim now i provider claim_token x = release_rows now i None provider claim_token x"

definition replace_claimed_integration_credentials ::
  "timestamp \<Rightarrow> uuid \<Rightarrow> string \<Rightarrow> string \<Rightarrow> int \<Rightarrow> string \<Rightarrow> bytes \<Rightarrow> timestamp option \<Rightarrow> vault_db \<Rightarrow> error + (vault_db \<times> int)" where
  "replace_claimed_integration_credentials now i provider claim_token expected key cipher expires x =
     (case replace_rows now i None provider claim_token expected key cipher expires x of
        None \<Rightarrow> Inl (ValueError ''Integration credential refresh claim was lost'') | Some r \<Rightarrow> Inr r)"

definition expire_integration_access :: "uuid \<Rightarrow> string \<Rightarrow> timestamp \<Rightarrow> vault_db \<Rightarrow> vault_db \<times> bool" where
  "expire_integration_access i provider observed_at x = expire_rows observed_at i None provider x"

subsection \<open>The credentials of a member\<close>

definition store_user_integration_credentials ::
  "timestamp \<Rightarrow> uuid \<Rightarrow> uuid \<Rightarrow> string \<Rightarrow> string \<Rightarrow> bytes \<Rightarrow> timestamp option \<Rightarrow> vault_db \<Rightarrow> error + (vault_db \<times> int)" where
  "store_user_integration_credentials now i u provider key cipher expires x =
     (if \<not> (has_integration i provider x \<and> enabled_user u x) then Inl (ValueError ''Integration user not found'')
      else case upsert_credential now i (Some u) key cipher expires x of
        None \<Rightarrow> Inl (ValueError ''Integration user credential refresh is active'') | Some r \<Rightarrow> Inr r)"

definition get_user_integration_credentials :: "uuid \<Rightarrow> uuid \<Rightarrow> string \<Rightarrow> vault_db \<Rightarrow> credential_row option" where
  "get_user_integration_credentials i u provider x = (if has_integration i provider x then find (of_subject i (Some u)) (vt_credentials x) else None)"

definition delete_user_integration_credentials :: "uuid \<Rightarrow> uuid \<Rightarrow> string \<Rightarrow> vault_db \<Rightarrow> vault_db \<times> bool" where
  "delete_user_integration_credentials i u provider x =
     (let p = (\<lambda>c. of_subject i (Some u) c \<and> has_integration i provider x)
      in (x\<lparr>vt_credentials := delete_where p (vt_credentials x)\<rparr>, rowcount p (vt_credentials x) = 1))"

definition rotate_user_integration_credentials :: "timestamp \<Rightarrow> uuid \<Rightarrow> uuid \<Rightarrow> string \<Rightarrow> int \<Rightarrow> string \<Rightarrow> bytes \<Rightarrow> vault_db \<Rightarrow> vault_db \<times> bool" where
  "rotate_user_integration_credentials now i u provider expected key cipher x = rotate_rows now i (Some u) provider expected key cipher x"

definition claim_user_integration_credentials ::
  "uuid \<Rightarrow> uuid \<Rightarrow> string \<Rightarrow> string \<Rightarrow> timestamp \<Rightarrow> int \<Rightarrow> vault_db \<Rightarrow> error + (vault_db \<times> credential_row option)" where
  "claim_user_integration_credentials i u provider claim_token observed_at lease_seconds x =
     (if lease_seconds < 15 \<or> 600 < lease_seconds then Inl (ValueError ''Invalid credential refresh lease'')
      else Inr (claim_rows_of i (Some u) claim_token observed_at lease_seconds (\<lambda>c. has_integration i provider x \<and> enabled_user u x) x))"

definition release_user_integration_credential_claim :: "timestamp \<Rightarrow> uuid \<Rightarrow> uuid \<Rightarrow> string \<Rightarrow> string \<Rightarrow> vault_db \<Rightarrow> vault_db \<times> bool" where
  "release_user_integration_credential_claim now i u provider claim_token x = release_rows now i (Some u) provider claim_token x"

definition replace_claimed_user_integration_credentials ::
  "timestamp \<Rightarrow> uuid \<Rightarrow> uuid \<Rightarrow> string \<Rightarrow> string \<Rightarrow> int \<Rightarrow> string \<Rightarrow> bytes \<Rightarrow> timestamp option \<Rightarrow> vault_db \<Rightarrow> error + (vault_db \<times> int)" where
  "replace_claimed_user_integration_credentials now i u provider claim_token expected key cipher expires x =
     (case replace_rows now i (Some u) provider claim_token expected key cipher expires x of
        None \<Rightarrow> Inl (ValueError ''Integration user credential refresh claim was lost'') | Some r \<Rightarrow> Inr r)"

definition expire_user_integration_access :: "uuid \<Rightarrow> uuid \<Rightarrow> string \<Rightarrow> timestamp \<Rightarrow> vault_db \<Rightarrow> vault_db \<times> bool" where
  "expire_user_integration_access i u provider observed_at x = expire_rows observed_at i (Some u) provider x"

subsection \<open>Authorizations that wait for a choice\<close>

definition store_pending_oauth_credentials ::
  "timestamp \<Rightarrow> uuid \<Rightarrow> uuid \<Rightarrow> string \<Rightarrow> string \<Rightarrow> bytes \<Rightarrow> timestamp \<Rightarrow> vault_db \<Rightarrow> error + vault_db" where
  "store_pending_oauth_credentials now pending_id u provider key cipher expires x =
     (if exists_row (\<lambda>p. pe_id p = pending_id) (vt_pending x) then Inl (ValueError ''Pending OAuth authorization identity already exists'')
      else Inr (x\<lparr>vt_pending := vt_pending x @ [\<lparr>pe_id = pending_id, pe_user = u, pe_provider = provider, pe_key = key, pe_cipher = cipher,
             pe_expires = expires, pe_created = now\<rparr>]\<rparr>))"

definition get_pending_oauth_credentials :: "timestamp \<Rightarrow> uuid \<Rightarrow> uuid \<Rightarrow> string \<Rightarrow> vault_db \<Rightarrow> pending_row option" where
  "get_pending_oauth_credentials now pending_id u provider x =
     find (\<lambda>p. pe_id p = pending_id \<and> pe_user p = u \<and> pe_provider p = provider \<and> now < pe_expires p) (vt_pending x)"

definition delete_pending_oauth_credentials :: "uuid \<Rightarrow> uuid \<Rightarrow> string \<Rightarrow> vault_db \<Rightarrow> vault_db \<times> bool" where
  "delete_pending_oauth_credentials pending_id u provider x =
     (let p = (\<lambda>p. pe_id p = pending_id \<and> pe_user p = u \<and> pe_provider p = provider)
      in (x\<lparr>vt_pending := delete_where p (vt_pending x)\<rparr>, rowcount p (vt_pending x) = 1))"

definition purge_pending_oauth_credentials :: "timestamp \<Rightarrow> vault_db \<Rightarrow> vault_db \<times> nat" where
  "purge_pending_oauth_credentials observed_at x =
     (x\<lparr>vt_pending := delete_where (\<lambda>p. pe_expires p \<le> observed_at) (vt_pending x)\<rparr>, rowcount (\<lambda>p. pe_expires p \<le> observed_at) (vt_pending x))"

text \<open>What is under another key, longest unchanged first; a site before its members.\<close>

definition user_rank :: "uuid option \<Rightarrow> bool \<times> string" where
  "user_rank u = (case u of None \<Rightarrow> (False, []) | Some s \<Rightarrow> (True, s))"

definition integration_credentials_requiring_rewrap ::
  "string \<Rightarrow> int \<Rightarrow> vault_db \<Rightarrow> error + (uuid \<times> string \<times> uuid option) list" where
  "integration_credentials_requiring_rewrap primary limit x =
     (if limit < 1 \<or> 1000 < limit then Inl (ValueError ''Invalid credential rewrap limit'')
      else Inr (take (nat limit) (concat (map (\<lambda>c. map (\<lambda>g. (cr_integration c, ig_provider g, cr_user c)) (filter (\<lambda>g. ig_id g = cr_integration c) (vt_integrations x)))
          (sort_key (\<lambda>c. (cr_updated c, cr_integration c, user_rank (cr_user c))) (filter (\<lambda>c. cr_key c \<noteq> primary) (vt_credentials x)))))))"

subsection \<open>The vault\<close>

record vault =
  va_keyring :: keyring
  va_aes :: "bytes \<Rightarrow> aead"

definition cred_magic :: bytes where "cred_magic = ''DFCRED1''"

definition valid_provider :: "string \<Rightarrow> bool" where
  "valid_provider s \<longleftrightarrow> s \<noteq> [] \<and> 97 \<le> code (hd s) \<and> code (hd s) \<le> 122 \<and> length s \<le> 60
     \<and> list_all (\<lambda>c. (97 \<le> code c \<and> code c \<le> 122) \<or> ascii_digit c \<or> c = CHR ''_'' \<or> c = CHR ''-'') s"

definition credential_error :: "string \<Rightarrow> error" where "credential_error s = RuntimeError s"

definition associated_data :: "uuid \<Rightarrow> string \<Rightarrow> string \<Rightarrow> uuid option \<Rightarrow> bytes" where
  "associated_data i provider key_id u =
     utf8_encode (''dayfinch:integration-credential:v1:'' @ provider @ CHR '':'' # i @ CHR '':'' # key_id
       @ (case u of None \<Rightarrow> [] | Some s \<Rightarrow> if s = [] then [] else '':user:'' @ s))"

definition payload_of :: "secrets \<Rightarrow> error + bytes" where
  "payload_of kvs =
     (if kvs = [] then Inl (credential_error ''Integration credential payload is invalid'')
      else let p = utf8_encode (raw_object (sort_key fst kvs))
           in if 65536 < int (length p) then Inl (credential_error ''Integration credential payload is too large'') else Inr p)"

definition encrypt_credential :: "vault \<Rightarrow> bytes \<Rightarrow> uuid \<Rightarrow> string \<Rightarrow> secrets \<Rightarrow> uuid option \<Rightarrow> error + (string \<times> bytes)" where
  "encrypt_credential V nonce i provider kvs u =
     (if \<not> valid_provider provider then Inl (credential_error ''Integration credential provider is invalid'')
      else let key_id = kr_primary (va_keyring V) in
        case map_of (kr_keys (va_keyring V)) key_id of
          None \<Rightarrow> Inl (KeyError key_id)
        | Some key \<Rightarrow>
            (case payload_of kvs of
               Inl err \<Rightarrow> Inl err
             | Inr p \<Rightarrow>
                 let cipher = cred_magic @ nonce @ ae_encrypt (va_aes V key) nonce p (associated_data i provider key_id u)
                 in if 131072 < int (length cipher) then Inl (credential_error ''Integration credential payload is too large'') else Inr (key_id, cipher)))"

definition decrypt_row :: "vault \<Rightarrow> string \<Rightarrow> credential_row \<Rightarrow> error + secrets" where
  "decrypt_row V provider c =
     (case map_of (kr_keys (va_keyring V)) (cr_key c) of
        None \<Rightarrow> Inl (credential_error ''Integration credential encryption key is unavailable'')
      | Some key \<Rightarrow>
          if take 7 (cr_cipher c) \<noteq> cred_magic \<or> length (cr_cipher c) < 35 \<or> 131072 < int (length (cr_cipher c)) then
            Inl (credential_error ''Integration credential format is invalid'')
          else case ae_decrypt (va_aes V key) (take 12 (drop 7 (cr_cipher c))) (drop 19 (cr_cipher c))
                 (associated_data (cr_integration c) provider (cr_key c) (cr_user c)) of
            None \<Rightarrow> Inl (credential_error ''Integration credential authentication failed'')
          | Some p \<Rightarrow>
              (case Option.bind (utf8_decode p) json_loads of
                 None \<Rightarrow> Inl (credential_error ''Integration credential authentication failed'')
               | Some kvs \<Rightarrow> if kvs = [] then Inl (credential_error ''Integration credential payload is invalid'') else Inr kvs))"

record opened =
  op_revision :: int
  op_expires :: "timestamp option"
  op_values :: secrets

definition get_credentials :: "uuid \<Rightarrow> uuid option \<Rightarrow> string \<Rightarrow> vault_db \<Rightarrow> credential_row option" where
  "get_credentials i u provider x =
     (case u of None \<Rightarrow> get_integration_credentials i provider x | Some s \<Rightarrow> get_user_integration_credentials i s provider x)"

definition rotate_credentials :: "timestamp \<Rightarrow> uuid \<Rightarrow> uuid option \<Rightarrow> string \<Rightarrow> int \<Rightarrow> string \<Rightarrow> bytes \<Rightarrow> vault_db \<Rightarrow> vault_db \<times> bool" where
  "rotate_credentials now i u provider expected key cipher x =
     (case u of None \<Rightarrow> rotate_integration_credentials now i provider expected key cipher x
      | Some s \<Rightarrow> rotate_user_integration_credentials now i s provider expected key cipher x)"

definition store_credential :: "vault \<Rightarrow> timestamp \<Rightarrow> bytes \<Rightarrow> uuid \<Rightarrow> uuid option \<Rightarrow> string \<Rightarrow> secrets \<Rightarrow> timestamp option \<Rightarrow> vault_db \<Rightarrow> error + (vault_db \<times> int)" where
  "store_credential V now nonce i u provider kvs expires x =
     (case encrypt_credential V nonce i provider kvs u of
        Inl err \<Rightarrow> Inl err
      | Inr (key, cipher) \<Rightarrow>
          (case (case u of None \<Rightarrow> store_integration_credentials now i provider key cipher expires x
                 | Some s \<Rightarrow> store_user_integration_credentials now i s provider key cipher expires x) of
             Inl err \<Rightarrow> Inl (credential_error ''Integration credential could not be stored'')
           | Inr r \<Rightarrow> Inr r))"

text \<open>
  \<open>open\<close>: three attempts at most.  Each attempt has a nonce for the case that it has to write the credential under the
  primary key, and what other processes do to the tables between its reading and its writing.
\<close>

fun open_attempts ::
  "vault \<Rightarrow> timestamp \<Rightarrow> uuid \<Rightarrow> uuid option \<Rightarrow> string \<Rightarrow> ((vault_db \<Rightarrow> vault_db) \<times> bytes) list \<Rightarrow> vault_db \<Rightarrow> vault_db \<times> (error + opened)" where
  "open_attempts V now i u provider [] x = (x, Inl (credential_error ''Integration credential changed repeatedly''))"
| "open_attempts V now i u provider ((others, nonce) # rest) x =
     (case get_credentials i u provider x of
        None \<Rightarrow> (x, Inl (credential_error ''Integration credential is unavailable''))
      | Some c \<Rightarrow>
          (case decrypt_row V provider c of
             Inl err \<Rightarrow> (x, Inl err)
           | Inr kvs \<Rightarrow>
               if cr_key c = kr_primary (va_keyring V) then (x, Inr \<lparr>op_revision = cr_revision c, op_expires = cr_expires c, op_values = kvs\<rparr>)
               else (case encrypt_credential V nonce i provider kvs u of
                  Inl err \<Rightarrow> (x, Inl err)
                | Inr (key, cipher) \<Rightarrow>
                    (case rotate_credentials now i u provider (cr_revision c) key cipher (others x) of
                       (x', True) \<Rightarrow> (x', Inr \<lparr>op_revision = cr_revision c + 1, op_expires = cr_expires c, op_values = kvs\<rparr>)
                     | (x', False) \<Rightarrow> open_attempts V now i u provider rest x'))))"

definition open_credential ::
  "vault \<Rightarrow> timestamp \<Rightarrow> uuid \<Rightarrow> uuid option \<Rightarrow> string \<Rightarrow> ((vault_db \<Rightarrow> vault_db) \<times> bytes) list \<Rightarrow> vault_db \<Rightarrow> vault_db \<times> (error + opened)" where
  "open_credential V now i u provider attempts x =
     (if \<not> valid_provider provider then (x, Inl (credential_error ''Integration credential provider is invalid''))
      else open_attempts V now i u provider (take 3 attempts) x)"

definition claim_for_refresh ::
  "vault \<Rightarrow> timestamp \<Rightarrow> int \<Rightarrow> string \<Rightarrow> uuid \<Rightarrow> uuid option \<Rightarrow> string \<Rightarrow> vault_db \<Rightarrow> vault_db \<times> (error + opened option)" where
  "claim_for_refresh V observed_at lease_seconds claim_token i u provider x =
     (if \<not> valid_provider provider then (x, Inl (credential_error ''Integration credential provider is invalid''))
      else case (case u of None \<Rightarrow> claim_integration_credentials i provider claim_token observed_at lease_seconds x
             | Some s \<Rightarrow> claim_user_integration_credentials i s provider claim_token observed_at lease_seconds x) of
        Inl err \<Rightarrow> (x, Inl (credential_error ''Integration credential refresh could not be claimed''))
      | Inr (x1, None) \<Rightarrow> (x1, Inr None)
      | Inr (x1, Some c) \<Rightarrow>
          (case decrypt_row V provider c of
             Inl err \<Rightarrow> (fst (release_rows observed_at i u provider claim_token x1), Inl err)
           | Inr kvs \<Rightarrow> (x1, Inr (Some \<lparr>op_revision = cr_revision c, op_expires = cr_expires c, op_values = kvs\<rparr>))))"

definition release_refresh :: "timestamp \<Rightarrow> uuid \<Rightarrow> uuid option \<Rightarrow> string \<Rightarrow> string \<Rightarrow> vault_db \<Rightarrow> vault_db \<times> bool" where
  "release_refresh now i u provider claim_token x =
     (case u of None \<Rightarrow> release_integration_credential_claim now i provider claim_token x
      | Some s \<Rightarrow> release_user_integration_credential_claim now i s provider claim_token x)"

definition replace_after_refresh ::
  "vault \<Rightarrow> timestamp \<Rightarrow> bytes \<Rightarrow> uuid \<Rightarrow> uuid option \<Rightarrow> string \<Rightarrow> string \<Rightarrow> int \<Rightarrow> secrets \<Rightarrow> timestamp option \<Rightarrow> vault_db \<Rightarrow> error + (vault_db \<times> int)" where
  "replace_after_refresh V now nonce i u provider claim_token expected kvs expires x =
     (case encrypt_credential V nonce i provider kvs u of
        Inl err \<Rightarrow> Inl err
      | Inr (key, cipher) \<Rightarrow>
          (case (case u of None \<Rightarrow> replace_claimed_integration_credentials now i provider claim_token expected key cipher expires x
                 | Some s \<Rightarrow> replace_claimed_user_integration_credentials now i s provider claim_token expected key cipher expires x) of
             Inl err \<Rightarrow> Inl (credential_error ''Integration credential refresh ownership was lost'')
           | Inr r \<Rightarrow> Inr r))"

text \<open>\<open>rewrap_all\<close>: with no process between the reading and the writing of a row; \<open>nonces\<close> are those of the rows.\<close>

fun rewrap_rows ::
  "vault \<Rightarrow> timestamp \<Rightarrow> (uuid \<times> string \<times> uuid option) list \<Rightarrow> bytes list \<Rightarrow> vault_db \<Rightarrow> vault_db \<times> nat \<times> nat" where
  "rewrap_rows V now [] nonces x = (x, 0, 0)"
| "rewrap_rows V now ((i, provider, u) # rows) nonces x =
     (case open_credential V now i u provider (replicate 3 (id, hd nonces)) x of
        (x1, Inl err) \<Rightarrow> (case rewrap_rows V now rows (tl nonces) x1 of (x2, r, f) \<Rightarrow> (x2, r, Suc f))
      | (x1, Inr op) \<Rightarrow> (case rewrap_rows V now rows (tl nonces) x1 of (x2, r, f) \<Rightarrow> (x2, if 1 < op_revision op then Suc r else r, f)))"

definition rewrap_all :: "vault \<Rightarrow> timestamp \<Rightarrow> int \<Rightarrow> bytes list \<Rightarrow> vault_db \<Rightarrow> error + (vault_db \<times> nat \<times> nat \<times> nat)" where
  "rewrap_all V now limit nonces x =
     (case integration_credentials_requiring_rewrap (kr_primary (va_keyring V)) limit x of
        Inl err \<Rightarrow> Inl (credential_error ''Integration credentials could not be listed for rotation'')
      | Inr rows \<Rightarrow> (case rewrap_rows V now rows nonces x of (x1, r, f) \<Rightarrow> Inr (x1, length rows, r, f)))"

definition store_pending :: "vault \<Rightarrow> timestamp \<Rightarrow> bytes \<Rightarrow> uuid \<Rightarrow> uuid \<Rightarrow> string \<Rightarrow> secrets \<Rightarrow> timestamp \<Rightarrow> vault_db \<Rightarrow> error + vault_db" where
  "store_pending V now nonce pending_id u provider kvs expires x =
     (case encrypt_credential V nonce pending_id provider kvs (Some u) of
        Inl err \<Rightarrow> Inl err
      | Inr (key, cipher) \<Rightarrow>
          (case store_pending_oauth_credentials now pending_id u provider key cipher expires x of
             Inl err \<Rightarrow> Inl (credential_error ''Pending integration authorization could not be stored'')
           | Inr x' \<Rightarrow> Inr x'))"

definition open_pending :: "vault \<Rightarrow> timestamp \<Rightarrow> uuid \<Rightarrow> uuid \<Rightarrow> string \<Rightarrow> vault_db \<Rightarrow> error + opened" where
  "open_pending V now pending_id u provider x =
     (if \<not> valid_provider provider then Inl (credential_error ''Integration credential provider is invalid'')
      else case get_pending_oauth_credentials now pending_id u provider x of
        None \<Rightarrow> Inl (credential_error ''Pending integration authorization is unavailable'')
      | Some p \<Rightarrow>
          (case decrypt_row V provider \<lparr>cr_integration = pe_id p, cr_user = Some (pe_user p), cr_key = pe_key p, cr_cipher = pe_cipher p, cr_revision = 1,
                  cr_expires = Some (pe_expires p), cr_claim = None, cr_until = None, cr_created = pe_created p, cr_updated = pe_created p\<rparr> of
             Inl err \<Rightarrow> Inl err
           | Inr kvs \<Rightarrow> Inr \<lparr>op_revision = 1, op_expires = Some (pe_expires p), op_values = kvs\<rparr>))"

subsection \<open>What is sealed opens\<close>

definition cipher_law :: "vault \<Rightarrow> bool" where "cipher_law V \<longleftrightarrow> (\<forall>key. aead_law (va_aes V key))"

lemma payload_reads: "payload_of kvs = Inr p \<Longrightarrow> Option.bind (utf8_decode p) json_loads = Some (sort_key fst kvs) \<and> sort_key fst kvs \<noteq> []"
  using set_sort [of fst kvs] by (auto simp del: set_sort simp: payload_of_def Let_def utf8_roundtrip json_roundtrip split: if_splits)

lemma encrypt_decrypts:
  assumes law: "cipher_law V" and n: "length nonce = 12" and e: "encrypt_credential V nonce i provider kvs u = Inr (key, cipher)"
    and c: "cr_integration c = i" "cr_user c = u" "cr_key c = key" "cr_cipher c = cipher"
    and W: "map_of (kr_keys (va_keyring W)) key = map_of (kr_keys (va_keyring V)) key" "va_aes W = va_aes V"
  shows "decrypt_row W provider c = Inr (sort_key fst kvs) \<and> key = kr_primary (va_keyring V)"
proof -
  obtain k p where k: "key = kr_primary (va_keyring V)" "map_of (kr_keys (va_keyring V)) key = Some k" and p: "payload_of kvs = Inr p"
    and ci: "cipher = cred_magic @ nonce @ ae_encrypt (va_aes V k) nonce p (associated_data i provider key u)" "\<not> 131072 < int (length cipher)"
    using e by (auto simp: encrypt_credential_def Let_def split: if_splits option.splits sum.splits)
  have l: "ae_decrypt (va_aes V k) nonce (ae_encrypt (va_aes V k) nonce p a) a = Some p" "length (ae_encrypt (va_aes V k) nonce p a) = length p + 16" for a
    using law by (simp_all add: cipher_law_def aead_law_def)
  have m: "length cred_magic = 7" by (simp add: cred_magic_def)
  have t: "take 7 cipher = cred_magic" "take 12 (drop 7 cipher) = nonce" "drop 19 cipher = ae_encrypt (va_aes V k) nonce p (associated_data i provider key u)"
    "35 \<le> length cipher" using n m by (simp_all add: ci(1) l(2))
  have "decrypt_row W provider c = Inr (sort_key fst kvs)"
    unfolding decrypt_row_def c W k(2) option.case t l(1) using payload_reads [OF p] t(4) ci(2) by simp
  then show ?thesis using k(1) by simp
qed

end
