(* ===== verification/Vault_Runs.thy ===== *)
theory Vault_Runs imports Integration_Vault Worklog_Delivery begin

section \<open>The vault shared by processes\<close>

text \<open>
  The operations of the vault as steps of several processes, the invariant of their runs, and the access tokens the
  Jira integration gets from the vault.
\<close>

subsection \<open>Processes that share a vault\<close>

text \<open>
  Reading, claiming, the answer of the provider and writing are steps of their own, so the steps of several processes
  mix in any order.  A process keeps what it has read: the subject, the revision and the values.  \<open>vw_seen\<close> lists the
  values obtained from the providers, oldest first; new tokens are new.  The keyring may change to other keys of the ring
  \<open>M\<close> of all keys.  Members and sites are not removed in these runs.
\<close>

record reading =
  rd_integration :: uuid
  rd_user :: "uuid option"
  rd_provider :: string
  rd_opened :: opened

record vault_world =
  vw_vault :: vault
  vw_db :: vault_db
  vw_reads :: "reading list"
  vw_claims :: "(reading \<times> string) list"
  vw_answers :: "((reading \<times> string) \<times> secrets) list"
  vw_seen :: "secrets list"

datatype vault_event =
    Rekeyed keyring
  | Opened_Row uuid "uuid option" string
  | Rotated_Row nat timestamp bytes
  | Claimed_Row timestamp int string uuid "uuid option" string
  | Answered nat secrets
  | Replaced_Row nat timestamp bytes "timestamp option"
  | Released_Row nat timestamp
  | Stored timestamp bytes uuid "uuid option" string secrets "timestamp option"
  | Expired_Row uuid "uuid option" string timestamp
  | Members "user list"

definition within_ring :: "vault \<Rightarrow> keyring \<Rightarrow> bool" where
  "within_ring M K \<longleftrightarrow> list_all (\<lambda>(i, k). map_of (kr_keys (va_keyring M)) i = Some k) (kr_keys K)"

definition unseen :: "secrets \<Rightarrow> vault_world \<Rightarrow> bool" where
  "unseen kvs w \<longleftrightarrow> kvs \<noteq> [] \<and> sort_key fst kvs \<notin> set (vw_seen w)"

definition rotate_reading :: "vault \<Rightarrow> timestamp \<Rightarrow> bytes \<Rightarrow> reading \<Rightarrow> vault_db \<Rightarrow> vault_db" where
  "rotate_reading V now nonce r x =
     (case encrypt_credential V nonce (rd_integration r) (rd_provider r) (op_values (rd_opened r)) (rd_user r) of
        Inl err \<Rightarrow> x
      | Inr (key, cipher) \<Rightarrow> fst (rotate_credentials now (rd_integration r) (rd_user r) (rd_provider r) (op_revision (rd_opened r)) key cipher x))"

definition vault_step :: "vault \<Rightarrow> vault_event \<Rightarrow> vault_world \<Rightarrow> vault_world" where
  "vault_step M v w =
     (let V = vw_vault w; x = vw_db w in
      case v of
        Rekeyed K \<Rightarrow> if within_ring M K then w\<lparr>vw_vault := V\<lparr>va_keyring := K\<rparr>\<rparr> else w
      | Opened_Row i u provider \<Rightarrow>
          (case get_credentials i u provider x of
             None \<Rightarrow> w
           | Some c \<Rightarrow>
               (case decrypt_row V provider c of
                  Inl err \<Rightarrow> w
                | Inr kvs \<Rightarrow> w\<lparr>vw_reads := vw_reads w @ [\<lparr>rd_integration = i, rd_user = u, rd_provider = provider,
                     rd_opened = \<lparr>op_revision = cr_revision c, op_expires = cr_expires c, op_values = kvs\<rparr>\<rparr>]\<rparr>))
      | Rotated_Row k now nonce \<Rightarrow>
          if k < length (vw_reads w) \<and> length nonce = 12 then w\<lparr>vw_db := rotate_reading V now nonce (vw_reads w ! k) x\<rparr> else w
      | Claimed_Row now lease tok i u provider \<Rightarrow>
          (case claim_for_refresh V now lease tok i u provider x of
             (x', Inr (Some op)) \<Rightarrow> w\<lparr>vw_db := x', vw_claims := vw_claims w @ [(\<lparr>rd_integration = i, rd_user = u, rd_provider = provider, rd_opened = op\<rparr>, tok)]\<rparr>
           | (x', _) \<Rightarrow> w\<lparr>vw_db := x'\<rparr>)
      | Answered k kvs \<Rightarrow>
          if k < length (vw_claims w) \<and> unseen kvs w
          then w\<lparr>vw_answers := vw_answers w @ [(vw_claims w ! k, kvs)], vw_seen := vw_seen w @ [sort_key fst kvs]\<rparr> else w
      | Replaced_Row k now nonce expires \<Rightarrow>
          if k < length (vw_answers w) \<and> length nonce = 12 then
            (case vw_answers w ! k of ((r, tok), kvs) \<Rightarrow>
              case replace_after_refresh V now nonce (rd_integration r) (rd_user r) (rd_provider r) tok (op_revision (rd_opened r)) kvs expires x of
                Inl err \<Rightarrow> w | Inr (x', n) \<Rightarrow> w\<lparr>vw_db := x'\<rparr>)
          else w
      | Released_Row k now \<Rightarrow>
          if k < length (vw_claims w) then
            (case vw_claims w ! k of (r, tok) \<Rightarrow> w\<lparr>vw_db := fst (release_refresh now (rd_integration r) (rd_user r) (rd_provider r) tok x)\<rparr>)
          else w
      | Stored now nonce i u provider kvs expires \<Rightarrow>
          if length nonce = 12 \<and> unseen kvs w then
            (case store_credential V now nonce i u provider kvs expires x of
               Inl err \<Rightarrow> w | Inr (x', n) \<Rightarrow> w\<lparr>vw_db := x', vw_seen := vw_seen w @ [sort_key fst kvs]\<rparr>)
          else w
      | Expired_Row i u provider t \<Rightarrow> w\<lparr>vw_db := fst (expire_rows t i u provider x)\<rparr>
      | Members us \<Rightarrow> w\<lparr>vw_db := x\<lparr>vt_users := us\<rparr>\<rparr>)"

definition vault_run :: "vault \<Rightarrow> vault_event list \<Rightarrow> vault_world \<Rightarrow> vault_world" where
  "vault_run M vs w = foldl (\<lambda>w v. vault_step M v w) w vs"

definition vault_start :: "vault \<Rightarrow> integration_row list \<Rightarrow> user list \<Rightarrow> vault_world" where
  "vault_start M gs us = \<lparr>vw_vault = M, vw_db = \<lparr>vt_credentials = [], vt_pending = [], vt_integrations = gs, vt_users = us\<rparr>,
     vw_reads = [], vw_claims = [], vw_answers = [], vw_seen = []\<rparr>"

subsection \<open>Values and their age\<close>










definition subject_of :: "credential_row \<Rightarrow> uuid \<times> uuid option" where
  "subject_of c = (cr_integration c, cr_user c)"





lemma of_subject_iff: "of_subject i u c \<longleftrightarrow> subject_of c = (i, u)"
  by (simp add: of_subject_def subject_of_def)













subsection \<open>The steps keep the invariant\<close>

lemma rotate_credentials_rows: "rotate_credentials now i u provider expected key cipher x = rotate_rows now i u provider expected key cipher x"
  by (cases u) (simp_all add: rotate_credentials_def rotate_integration_credentials_def rotate_user_integration_credentials_def)







lemma subject_unique:
  assumes "distinct (map subject_of rows)" "c \<in> set rows" "c' \<in> set rows" "of_subject i u c" "of_subject i u c'"
  shows "c = c'"
  using assms by (auto simp: of_subject_iff dest: distinct_key_eq)










definition claimed_row :: "string \<Rightarrow> timestamp \<Rightarrow> int \<Rightarrow> credential_row \<Rightarrow> credential_row" where
  "claimed_row tok now lease c = c\<lparr>cr_claim := Some tok, cr_until := Some (now + seconds lease), cr_updated := now\<rparr>"


lemma claimed_row_simps [simp]:
  "subject_of (claimed_row tok now lease c) = subject_of c" "cr_key (claimed_row tok now lease c) = cr_key c"
  "cr_cipher (claimed_row tok now lease c) = cr_cipher c" "cr_revision (claimed_row tok now lease c) = cr_revision c"
  "cr_integration (claimed_row tok now lease c) = cr_integration c" "cr_user (claimed_row tok now lease c) = cr_user c"
  by (simp_all add: claimed_row_def subject_of_def)















subsection \<open>Access tokens\<close>

text \<open>
  \<open>_refresh\<close> and \<open>_access_token\<close> of \<open>api/services/jira_integration.py\<close>.  \<open>answer\<close> is what the token endpoint answers, \<open>others\<close>
  what other processes do to the tables meanwhile.
\<close>

definition refresh_credential ::
  "vault \<Rightarrow> timestamp \<Rightarrow> bytes \<Rightarrow> jira_error + (secrets \<times> timestamp) \<Rightarrow> (vault_db \<Rightarrow> vault_db) \<Rightarrow> uuid \<Rightarrow> uuid option \<Rightarrow> string \<Rightarrow> opened \<Rightarrow> vault_db
    \<Rightarrow> vault_db \<times> (jira_error + string)" where
  "refresh_credential V now nonce answer others i u claim_token op x =
     (case map_of (op_values op) ''refresh_token'' of
        None \<Rightarrow> (fst (release_refresh now i u ''jira'' claim_token x), Inl (jira_error_of ''reauthorization_required'' 3600))
      | Some refresh_token \<Rightarrow>
          let y = others x in
          case answer of
            Inl err \<Rightarrow> (fst (release_refresh now i u ''jira'' claim_token y), Inl err)
          | Inr (kvs, expires) \<Rightarrow>
              (case replace_after_refresh V now nonce i u ''jira'' claim_token (op_revision op) kvs (Some expires) y of
                 Inl err \<Rightarrow> (fst (release_refresh now i u ''jira'' claim_token y), Inl (jira_error_of ''credential_storage_failed'' 300))
               | Inr (x', n) \<Rightarrow> (x', Inr (case map_of kvs ''access_token'' of None \<Rightarrow> [] | Some t \<Rightarrow> t))))"

type_synonym attempts = "((vault_db \<Rightarrow> vault_db) \<times> bytes) list"

fun poll_credential ::
  "vault \<Rightarrow> timestamp \<Rightarrow> uuid \<Rightarrow> uuid option \<Rightarrow> int \<Rightarrow> ((vault_db \<Rightarrow> vault_db) \<times> attempts) list \<Rightarrow> vault_db \<Rightarrow> vault_db \<times> (jira_error + string)" where
  "poll_credential V now i u seen_rev [] x = (x, Inl (jira_error_of ''refresh_busy'' 30))"
| "poll_credential V now i u seen_rev ((others, reads) # rest) x =
     (case open_credential V now i u ''jira'' reads (others x) of
        (x1, Inl err) \<Rightarrow> (x1, Inl (jira_error_of ''credential_unavailable'' 300))
      | (x1, Inr op) \<Rightarrow>
          (case op_expires op of
             None \<Rightarrow> (x1, Inl (jira_error_of ''invalid_response'' 300))
           | Some t \<Rightarrow>
               (case map_of (op_values op) ''access_token'' of
                  Some token \<Rightarrow> if seen_rev < op_revision op \<and> now + seconds 30 < t then (x1, Inr token) else poll_credential V now i u seen_rev rest x1
                | None \<Rightarrow> poll_credential V now i u seen_rev rest x1)))"

definition access_token ::
  "vault \<Rightarrow> timestamp \<Rightarrow> string \<Rightarrow> bytes \<Rightarrow> jira_error + (secrets \<times> timestamp) \<Rightarrow> (vault_db \<Rightarrow> vault_db) \<Rightarrow> attempts
    \<Rightarrow> ((vault_db \<Rightarrow> vault_db) \<times> attempts) list \<Rightarrow> uuid \<Rightarrow> uuid option \<Rightarrow> vault_db \<Rightarrow> vault_db \<times> (jira_error + string)" where
  "access_token V now claim_token nonce answer others reads polls i u x =
     (case open_credential V now i u ''jira'' reads x of
        (x1, Inl err) \<Rightarrow> (x1, Inl (jira_error_of ''credential_unavailable'' 1800))
      | (x1, Inr op) \<Rightarrow>
          (case op_expires op of
             None \<Rightarrow> (x1, Inl (jira_error_of ''invalid_response'' 300))
           | Some t \<Rightarrow>
               if map_of (op_values op) ''access_token'' \<noteq> None \<and> now + seconds 60 < t
               then (x1, Inr (the (map_of (op_values op) ''access_token'')))
               else (case claim_for_refresh V now 90 claim_token i u ''jira'' x1 of
                  (x2, Inl err) \<Rightarrow> (x2, Inl (jira_error_of ''credential_unavailable'' 300))
                | (x2, Inr (Some op')) \<Rightarrow> refresh_credential V now nonce answer others i u claim_token op' x2
                | (x2, Inr None) \<Rightarrow> poll_credential V now i u (op_revision op) (take 10 polls) x2)))"

subsection \<open>A claim that is left behind\<close>

text \<open>
  A credential under an older key is written anew only while it has no claim at all, and a process that stops in its refresh
  leaves its claim behind.  It runs out, but it is not cleared: the credential does not open any more, and without opening it there
  is no refresh that would clear it.
\<close>

lemma left_claim_blocks_open:
  assumes g: "get_credentials i u provider x = Some c" and d: "decrypt_row V provider c = Inr kvs" and key: "cr_key c \<noteq> kr_primary (va_keyring V)"
    and e: "\<And>n. \<exists>kc. encrypt_credential V n i provider kvs u = Inr kc" and cl: "cr_claim c \<noteq> None"
    and ds: "distinct (map subject_of (vt_credentials x))" and p: "valid_provider provider"
  shows "open_credential V now i u provider [(id, n1), (id, n2), (id, n3)] x = (x, Inl (credential_error ''Integration credential changed repeatedly''))"
proof -
  have f: "find (of_subject i u) (vt_credentials x) = Some c"
    using g by (cases u) (simp_all add: get_credentials_def get_integration_credentials_def get_user_integration_credentials_def split: if_splits)
  have no: "rotate_credentials now i u provider (cr_revision c) k ci x = (x, False)" for k ci
  proof -
    let ?p = "\<lambda>q. of_subject i u q \<and> cr_revision q = cr_revision c \<and> cr_claim q = None \<and> has_integration i provider x"
    have none: "\<not> ?p q" if "q \<in> set (vt_credentials x)" for q
      using subject_unique [OF ds that, of c i u] find_in_set [OF f] cl by auto
    then have "rowcount ?p (vt_credentials x) = 0" by (simp add: rowcount_0)
    moreover have "update_where ?p h (vt_credentials x) = vt_credentials x" for h by (rule update_where_none) (rule none)
    ultimately show ?thesis by (simp add: rotate_credentials_rows rotate_rows_def Let_def)
  qed
  have step: "open_attempts V now i u provider ((id, n) # rest) x = open_attempts V now i u provider rest x" for n rest
  proof -
    obtain k ci where "encrypt_credential V n i provider kvs u = Inr (k, ci)" using e [of n] by auto
    then show ?thesis using g d key no by simp
  qed
  show ?thesis unfolding open_credential_def using p by (simp add: step del: open_attempts.simps(2))
qed

definition example_key :: "nat \<Rightarrow> bytes" where "example_key n = replicate 32 (char_of (65 + n))"

definition example_ring :: keyring where
  "example_ring = \<lparr>kr_primary = ''a'', kr_keys = [(''a'', example_key 0), (''b'', example_key 1)]\<rparr>"

definition example_vault :: vault where "example_vault = \<lparr>va_keyring = example_ring, va_aes = (\<lambda>key. plain_aead)\<rparr>"


definition example_sites :: "integration_row list" where "example_sites = [\<lparr>ig_id = ''i1'', ig_provider = ''jira'', ig_enabled = True\<rparr>]"

definition tokens :: "string \<Rightarrow> secrets" where "tokens s = [(''access_token'', ''a'' @ s), (''refresh_token'', ''r'' @ s)]"

definition nonce0 :: bytes where "nonce0 = replicate 12 CHR ''n''"

text \<open>A process claims the credential and stops; the primary key changes; a day later there is no access token.\<close>

definition stopped_refresh :: "vault_event list" where
  "stopped_refresh = [Stored 0 nonce0 ''i1'' None ''jira'' (tokens ''1'') (Some (seconds 3600)),
     Claimed_Row (seconds 3600) 90 ''c1'' ''i1'' None ''jira'', Rekeyed \<lparr>kr_primary = ''b'', kr_keys = rev (kr_keys example_ring)\<rparr>]"

lemma left_claim_blocks_tokens:
  "let w = vault_run example_vault stopped_refresh (vault_start example_vault example_sites []) in
    snd (access_token (vw_vault w) (days 1) ''c2'' nonce0 (Inr (tokens ''2'', days 2)) id [(id, nonce0), (id, nonce0), (id, nonce0)] [] ''i1'' None (vw_db w))
      = Inl (jira_error_of ''credential_unavailable'' 1800)"
  by code_simp





end
